theory Spec2Isabelle
  imports Main
begin

section \<open>JavaScript numbers\<close>

text \<open>
  A JavaScript \<^verbatim>\<open>number\<close> as the program meets it: an integer, \<^verbatim>\<open>NaN\<close>
  (what \<^verbatim>\<open>parseInt\<close> returns on text without digits, what \<^verbatim>\<open>Number(undefined)\<close>
  is) or an infinity (a division by zero). Integers are taken to be exact, which
  JavaScript guarantees up to \<open>2^53\<close>; the difference between \<open>0\<close> and \<open>-0\<close>
  is not observable in this program and is not kept.
\<close>

datatype number = Num int | NaN | Infinity | NegInfinity

text \<open>Comparison: every comparison with \<^verbatim>\<open>NaN\<close> is false.\<close>

fun js_lt :: "number \<Rightarrow> number \<Rightarrow> bool" where
  "js_lt NaN _ = False"
| "js_lt _ NaN = False"
| "js_lt (Num a) (Num b) = (a < b)"
| "js_lt (Num a) Infinity = True"
| "js_lt (Num a) NegInfinity = False"
| "js_lt Infinity _ = False"
| "js_lt NegInfinity (Num b) = True"
| "js_lt NegInfinity Infinity = True"
| "js_lt NegInfinity NegInfinity = False"

definition js_gt :: "number \<Rightarrow> number \<Rightarrow> bool" where
  "js_gt a b = js_lt b a"

fun js_le :: "number \<Rightarrow> number \<Rightarrow> bool" where
  "js_le NaN _ = False"
| "js_le _ NaN = False"
| "js_le a b = (a = b \<or> js_lt a b)"

text \<open>Addition and multiplication.\<close>

fun js_add :: "number \<Rightarrow> number \<Rightarrow> number" where
  "js_add NaN _ = NaN"
| "js_add _ NaN = NaN"
| "js_add (Num a) (Num b) = Num (a + b)"
| "js_add Infinity NegInfinity = NaN"
| "js_add NegInfinity Infinity = NaN"
| "js_add Infinity _ = Infinity"
| "js_add _ Infinity = Infinity"
| "js_add NegInfinity _ = NegInfinity"
| "js_add _ NegInfinity = NegInfinity"

definition signed_inf :: "bool \<Rightarrow> number" where
  "signed_inf positive = (if positive then Infinity else NegInfinity)"

fun js_mul :: "number \<Rightarrow> number \<Rightarrow> number" where
  "js_mul NaN _ = NaN"
| "js_mul _ NaN = NaN"
| "js_mul (Num a) (Num b) = Num (a * b)"
| "js_mul (Num a) Infinity = (if a = 0 then NaN else signed_inf (0 < a))"
| "js_mul (Num a) NegInfinity = (if a = 0 then NaN else signed_inf (a < 0))"
| "js_mul Infinity (Num b) = (if b = 0 then NaN else signed_inf (0 < b))"
| "js_mul NegInfinity (Num b) = (if b = 0 then NaN else signed_inf (b < 0))"
| "js_mul Infinity Infinity = Infinity"
| "js_mul NegInfinity NegInfinity = Infinity"
| "js_mul Infinity NegInfinity = NegInfinity"
| "js_mul NegInfinity Infinity = NegInfinity"

text \<open>
  \<^verbatim>\<open>Math.floor(a / b)\<close>. On integers with \<open>b \<noteq> 0\<close> this is the floor of the
  quotient, which is \<open>div\<close> on \<open>int\<close>. A division by zero gives an infinity of the
  sign of the dividend, \<open>0 / 0\<close> is \<^verbatim>\<open>NaN\<close>.
\<close>

fun js_floor_div :: "number \<Rightarrow> number \<Rightarrow> number" where
  "js_floor_div NaN _ = NaN"
| "js_floor_div _ NaN = NaN"
| "js_floor_div (Num a) (Num b) =
     (if b \<noteq> 0 then Num (a div b)
      else if a = 0 then NaN else signed_inf (0 < a))"
| "js_floor_div (Num a) _ = Num 0"
| "js_floor_div Infinity (Num b) = signed_inf (0 \<le> b)"
| "js_floor_div NegInfinity (Num b) = signed_inf (b < 0)"
| "js_floor_div _ _ = NaN"

text \<open>
  \<^verbatim>\<open>a % b\<close>: the remainder of the truncating division, with the sign of the
  dividend.
\<close>

fun js_rem :: "number \<Rightarrow> number \<Rightarrow> number" where
  "js_rem (Num a) (Num b) =
     (if b = 0 then NaN else Num (sgn a * (\<bar>a\<bar> mod \<bar>b\<bar>)))"
| "js_rem (Num a) Infinity = Num a"
| "js_rem (Num a) NegInfinity = Num a"
| "js_rem _ _ = NaN"

text \<open>Decimal text of a number, as a template literal prints it.\<close>

fun digits :: "nat \<Rightarrow> string" where
  "digits n =
     (if n < 10 then [''0123456789'' ! n]
      else digits (n div 10) @ [''0123456789'' ! (n mod 10)])"

declare digits.simps [simp del]

fun toString :: "number \<Rightarrow> string" where
  "toString (Num n) = (if n < 0 then ''-'' @ digits (nat (- n)) else digits (nat n))"
| "toString NaN = ''NaN''"
| "toString Infinity = ''Infinity''"
| "toString NegInfinity = ''-Infinity''"

section \<open>Chain events and the event matcher (utils.ts)\<close>

record chain_event =
  ev_section :: string
  ev_method :: string
  ev_data :: "int list"

record event_record =
  phase :: nat
  event :: chain_event

text \<open>
  An \<^verbatim>\<open>AugmentedEvent\<close> of the client library: the code uses its test
  \<^verbatim>\<open>eventIs.is(event)\<close> and its name \<^verbatim>\<open>eventIs.meta.name.toHuman()\<close>. The
  test is the library's and is taken as it comes.
\<close>

record augmented_event =
  eventIs_is :: "chain_event \<Rightarrow> bool"
  meta_name :: string

text \<open>What the status callback of \<^verbatim>\<open>signAndSend\<close> receives.\<close>

record submittable_result =
  isError :: bool
  isInBlock :: bool
  isFinalized :: bool
  events :: "event_record list"

text \<open>
  Thrown values. \<open>Error msg\<close> is \<^verbatim>\<open>new Error(msg)\<close>; \<open>TransactionError r\<close> is the
  \<^verbatim>\<open>Error\<close> whose message is \<^verbatim>\<open>transaction error: \<close> followed by the JSON
  text of the result \<open>r\<close>; \<open>ClientError\<close> is whatever the client library rejects
  with; \<open>RangeError\<close> is raised by \<^verbatim>\<open>Array.from\<close> on an invalid length.
\<close>

datatype error =
    Error string
  | TransactionError submittable_result
  | ClientError string
  | RangeError

text \<open>\<^verbatim>\<open>getEventFromEvents\<close>: \<^verbatim>\<open>Array.prototype.find\<close>, then the second test.\<close>

definition getEventFromEvents :: "chain_event list \<Rightarrow> augmented_event \<Rightarrow> chain_event option" where
  "getEventFromEvents evs eventIs =
     (case find (\<lambda>ev. eventIs_is eventIs ev) evs of
        None \<Rightarrow> None
      | Some needle \<Rightarrow> if \<not> eventIs_is eventIs needle then None else Some needle)"

definition getEventFromEventsOrThrow :: "chain_event list \<Rightarrow> augmented_event \<Rightarrow> error + chain_event" where
  "getEventFromEventsOrThrow evs eventIs =
     (case getEventFromEvents evs eventIs of
        None \<Rightarrow> Inl (Error (''unable to find event '' @ meta_name eventIs))
      | Some needle \<Rightarrow> Inr needle)"

section \<open>Promises, the chain and the client (collaborators)\<close>

text \<open>
  The state of a promise when nothing more will happen to it: fulfilled with a
  value, rejected with an error, or pending for ever.
\<close>

datatype 'a promise = Fulfilled 'a | Rejected error | Pending

record header =
  number :: nat
  hash :: string

record keyringPair =
  address :: string

record extrinsicEra =
  current :: nat
  period :: nat

record signerOptions =
  nonce :: int
  era :: extrinsicEra
  blockHash :: string

text \<open>The types of multiTokens.ts.\<close>

record royalty =
  beneficiary :: string
  percentage :: number

datatype marketBehavior = HasRoyalty royalty | IsCurrency | IsCurrencyText

datatype tokenCap = SingleMint | Supply number

datatype sufficiencyParam = Insufficient number | Sufficient number

text \<open>
  An optional field is \<open>None\<close> when the property is absent (\<^verbatim>\<open>undefined\<close>).
  An attribute \<^verbatim>\<open>{ key, value }\<close> is the pair \<open>(key, value)\<close>.
\<close>

record mintCreateToken =
  tokenId :: number
  initialSupply :: number
  unitPrice :: "number option"
  sufficiency :: "sufficiencyParam option"
  cap :: "tokenCap option"
  behavior :: "marketBehavior option option"
  listingForbidden :: "bool option"
  attributes :: "(string \<times> string) list option"

record mintMint =
  mint_tokenId :: number
  amount :: number
  mint_unitPrice :: "number option"

record tokenAssetId =
  asset_collectionId :: number
  asset_tokenId :: number

datatype mintParams = CreateToken mintCreateToken | Mint mintMint

record recipient =
  accountId :: string
  params :: mintParams

record mintPolicy =
  maxTokenCount :: "number option"
  maxTokenSupply :: "number option"
  forceSingleMint :: bool

record collectionDescriptor =
  policy_mint :: mintPolicy
  policy_market_royalty :: "royalty option"
  explicitRoyaltyCurrencies :: "tokenAssetId list"

text \<open>
  A \<^verbatim>\<open>SubmittableExtrinsic\<close>: the call built by \<^verbatim>\<open>api.tx.multiTokens\<close> with its
  arguments.
\<close>

datatype extrinsic =
    Tx_createCollection collectionDescriptor
  | Tx_batchMint number "recipient list"
  | Tx_mint string number mintMint

text \<open>
  What the connected client knows of the chain: the type registry, the event
  descriptor \<^verbatim>\<open>api.events.multiTokens.CollectionCreated\<close> and the address
  format of the chain properties.
\<close>

record api =
  registry_hasType :: "string \<Rightarrow> bool"
  events_multiTokens_CollectionCreated :: augmented_event
  ss58Format :: "number option"

text \<open>
  One call of \<^verbatim>\<open>submitExtrinsic.signAndSend\<close>: the origin, the call and the
  signing options.
\<close>

record submission =
  sub_origin :: keyringPair
  sub_tx :: extrinsic
  sub_options :: signerOptions

text \<open>
  The answer of the chain to one \<^verbatim>\<open>signAndSend\<close>: the promise of the call
  rejects, or the status callback is run on each result of the status stream in
  turn.
\<close>

datatype broadcast = BroadcastRejected error | StatusUpdates "submittable_result list"

datatype console_line = Log string | ErrorText string | ErrorValue error

text \<open>
  The world outside the program. \<open>getHeader_answer n\<close> is what the \<open>n\<close>-th call of
  \<^verbatim>\<open>api.rpc.chain.getHeader\<close> settles to and \<open>signAndSend_answer n\<close> what the chain
  does with the \<open>n\<close>-th \<^verbatim>\<open>signAndSend\<close>; \<open>headerCalls\<close> counts the former,
  \<open>submitted\<close> records the latter. \<open>console\<close> is what has been printed and
  \<open>unhandled\<close> the rejections that no handler has taken.
\<close>

record network =
  getHeader_answer :: "nat \<Rightarrow> header promise"
  signAndSend_answer :: "nat \<Rightarrow> broadcast"
  headerCalls :: nat
  submitted :: "submission list"
  console :: "console_line list"
  unhandled :: "error list"

definition getHeader :: "network \<Rightarrow> header promise \<times> network" where
  "getHeader net =
     (getHeader_answer net (headerCalls net), net\<lparr>headerCalls := Suc (headerCalls net)\<rparr>)"

definition console_log :: "console_line list \<Rightarrow> network \<Rightarrow> network" where
  "console_log ls net = net\<lparr>console := console net @ ls\<rparr>"

section \<open>Submitting a transaction (utils.ts)\<close>

text \<open>
  The status callback of \<^verbatim>\<open>signAndSendOnce\<close>, run on the results of the status
  stream in turn. The first call of \<^verbatim>\<open>reject\<close> or \<^verbatim>\<open>resolve\<close> settles the
  promise and later calls change nothing; a stream that ends before either
  leaves the promise pending.
\<close>

fun statusCallback :: "submittable_result list \<Rightarrow> chain_event list promise" where
  "statusCallback [] = Pending"
| "statusCallback (result # rest) =
     (if isError result then Rejected (TransactionError result)
      else if isInBlock result \<or> isFinalized result then Fulfilled (map event (events result))
      else statusCallback rest)"

text \<open>
  \<^verbatim>\<open>signAndSendOnce\<close>. The executor of the promise is an \<^verbatim>\<open>async\<close> function:
  when its \<^verbatim>\<open>await\<close> of the header rejects, the rejection is the executor's
  own and nobody handles it, and the promise that was returned stays pending.
\<close>

definition signAndSendOnce ::
  "keyringPair \<Rightarrow> extrinsic \<Rightarrow> network \<Rightarrow> chain_event list promise \<times> network" where
  "signAndSendOnce origin submitExtrinsic net =
     (case getHeader net of
        (Pending, net1) \<Rightarrow> (Pending, net1)
      | (Rejected e, net1) \<Rightarrow> (Pending, net1\<lparr>unhandled := unhandled net1 @ [e]\<rparr>)
      | (Fulfilled currentHeader, net1) \<Rightarrow>
          (let currentBlockNumber = number currentHeader;
               blockHash = hash currentHeader;
               options = \<lparr>nonce = - 1,
                          era = \<lparr>current = currentBlockNumber, period = 1024\<rparr>,
                          blockHash = blockHash\<rparr>;
               answer = signAndSend_answer net1 (length (submitted net1));
               net2 = net1\<lparr>submitted := submitted net1 @
                        [\<lparr>sub_origin = origin, sub_tx = submitExtrinsic, sub_options = options\<rparr>]\<rparr>
           in case answer of
                BroadcastRejected error \<Rightarrow> (Rejected error, net2)
              | StatusUpdates results \<Rightarrow> (statusCallback results, net2)))"

text \<open>
  \<^verbatim>\<open>signAndSend\<close>: the guard on \<^verbatim>\<open>attempt\<close>, one call of \<^verbatim>\<open>signAndSendOnce\<close>,
  and a \<^verbatim>\<open>catch\<close> that throws what it caught.
\<close>

definition signAndSend ::
  "keyringPair \<Rightarrow> extrinsic \<Rightarrow> number \<Rightarrow> network \<Rightarrow> chain_event list promise \<times> network" where
  "signAndSend origin submitExtrinsic attempt net =
     (if js_gt attempt (Num 10) then (Rejected (Error ''unable to send transaction''), net)
      else case signAndSendOnce origin submitExtrinsic net of
             (Rejected e, net1) \<Rightarrow> (Rejected e, net1)
           | (r, net1) \<Rightarrow> (r, net1))"

definition signAndSendReturningEvent ::
  "keyringPair \<Rightarrow> extrinsic \<Rightarrow> augmented_event \<Rightarrow> network \<Rightarrow> chain_event promise \<times> network" where
  "signAndSendReturningEvent origin submitExtrinsic eventIs net =
     (case signAndSend origin submitExtrinsic (Num 0) net of
        (Fulfilled evs, net1) \<Rightarrow>
          (case getEventFromEventsOrThrow evs eventIs of
             Inl e \<Rightarrow> (Rejected e, net1)
           | Inr ev \<Rightarrow> (Fulfilled ev, net1))
      | (Rejected e, net1) \<Rightarrow> (Rejected e, net1)
      | (Pending, net1) \<Rightarrow> (Pending, net1))"

section \<open>The multi-tokens client (multiTokens.ts)\<close>

record multiTokens =
  client_api :: api

definition createCollection ::
  "multiTokens \<Rightarrow> number option \<Rightarrow> number option \<Rightarrow> bool \<Rightarrow> royalty option \<Rightarrow> tokenAssetId list
     \<Rightarrow> extrinsic" where
  "createCollection this maxTokenCount' maxTokenSupply' forceSingleMint' royalty' currencies =
     Tx_createCollection
       \<lparr>policy_mint = \<lparr>maxTokenCount = maxTokenCount', maxTokenSupply = maxTokenSupply',
                       forceSingleMint = forceSingleMint'\<rparr>,
        policy_market_royalty = royalty',
        explicitRoyaltyCurrencies = currencies\<rparr>"

text \<open>
  \<^verbatim>\<open>fixMintCreateToken\<close>. In the object literal the spread of \<^verbatim>\<open>createToken\<close>
  comes after \<^verbatim>\<open>sufficiency\<close>, so a \<^verbatim>\<open>sufficiency\<close> that \<^verbatim>\<open>createToken\<close>
  already has is the one that stays.
\<close>

definition fixMintCreateToken :: "multiTokens \<Rightarrow> mintCreateToken \<Rightarrow> mintCreateToken" where
  "fixMintCreateToken this createToken =
     (if registry_hasType (client_api this) ''EpMultiTokensPolicyMintSufficiencyParam''
         \<and> unitPrice createToken \<noteq> None
      then createToken\<lparr>sufficiency :=
             (case sufficiency createToken of
                None \<Rightarrow> Some (Insufficient (the (unitPrice createToken)))
              | Some s \<Rightarrow> Some s)\<rparr>
      else createToken)"

definition batchMint :: "multiTokens \<Rightarrow> number \<Rightarrow> recipient list \<Rightarrow> extrinsic" where
  "batchMint this collectionId recipients =
     (let fixedRecipients =
            map (\<lambda>recipient.
                   case params recipient of
                     CreateToken createToken \<Rightarrow>
                       \<lparr>accountId = accountId recipient,
                        params = CreateToken (fixMintCreateToken this createToken)\<rparr>
                   | Mint _ \<Rightarrow> recipient) recipients
      in Tx_batchMint collectionId fixedRecipients)"

definition mint :: "multiTokens \<Rightarrow> string \<Rightarrow> number \<Rightarrow> mintMint \<Rightarrow> extrinsic" where
  "mint this recipient collectionId token = Tx_mint recipient collectionId token"

section \<open>The minting script (main.ts)\<close>

text \<open>
  A \<^verbatim>\<open>for\<close> loop whose body awaits: \<open>cond j\<close> is the test on the counter and
  \<open>body j\<close> one round. A round that rejects or stays pending ends the loop with
  that outcome. The loop has no bound of its own (the bound of the inner loop of
  \<^verbatim>\<open>main\<close> is \<^verbatim>\<open>Infinity\<close> for a batch size of zero): \<open>None\<close> is a loop that
  runs for ever.
\<close>

partial_function (option) forLoop ::
  "(int \<Rightarrow> bool) \<Rightarrow> (int \<Rightarrow> 's \<Rightarrow> (unit promise \<times> 's) option) \<Rightarrow> int \<Rightarrow> 's
     \<Rightarrow> (unit promise \<times> 's) option" where
  "forLoop cond body j s =
     (if cond j
      then (case body j s of
              None \<Rightarrow> None
            | Some (Fulfilled _, s') \<Rightarrow> forLoop cond body (j + 1) s'
            | Some (Rejected e, s') \<Rightarrow> Some (Rejected e, s')
            | Some (Pending, s') \<Rightarrow> Some (Pending, s'))
      else Some (Fulfilled (), s))"

text \<open>
  The length that \<^verbatim>\<open>Array.from({ length: count }, ...)\<close> gives the new array:
  \<^verbatim>\<open>NaN\<close> and everything below zero count as zero, and a length of \<open>2^32\<close> or
  more is a \<^verbatim>\<open>RangeError\<close>.
\<close>

definition arrayLength :: "number \<Rightarrow> error + nat" where
  "arrayLength count =
     (case count of
        Num n \<Rightarrow> if n \<le> 0 then Inr 0 else if n < 2 ^ 32 then Inr (nat n) else Inl RangeError
      | Infinity \<Rightarrow> Inl RangeError
      | NaN \<Rightarrow> Inr 0
      | NegInfinity \<Rightarrow> Inr 0)"

text \<open>The payload of one batch (lines 110 to 127), for an array of \<open>len\<close> entries.\<close>

definition batchPayload :: "keyringPair \<Rightarrow> number \<Rightarrow> number \<Rightarrow> nat \<Rightarrow> recipient list" where
  "batchPayload testAccount collectionId startTokenId len =
     map (\<lambda>i. let tokenId' = js_add startTokenId (Num (int i))
               in \<lparr>accountId = address testAccount,
                   params = CreateToken
                     \<lparr>tokenId = tokenId',
                      initialSupply = Num 1,
                      unitPrice = None,
                      sufficiency = None,
                      cap = None,
                      behavior = None,
                      listingForbidden = None,
                      attributes = Some
                        [(''id'', toString tokenId'),
                         (''name'', ''test-'' @ toString tokenId'),
                         (''description'', ''test-'' @ toString tokenId'),
                         (''collectionId'', toString collectionId)]\<rparr>\<rparr>)
         [0..<len]"

definition lastTokenId :: "number \<Rightarrow> number \<Rightarrow> number" where
  "lastTokenId startTokenId count = js_add (js_add startTokenId count) (Num (- 1))"

text \<open>The two lines that \<^verbatim>\<open>mintBatch\<close> prints (lines 135 and 139).\<close>

definition mintedMessage :: "number \<Rightarrow> number \<Rightarrow> nat \<Rightarrow> string" where
  "mintedMessage startTokenId count currentBlockNumber =
     ''Tokens from '' @ toString startTokenId @ '' to ''
       @ toString (lastTokenId startTokenId count)
       @ '' minted at block '' @ toString (Num (int currentBlockNumber + 1))"

definition mintErrorMessage :: "number \<Rightarrow> number \<Rightarrow> string" where
  "mintErrorMessage startTokenId count =
     ''Error while minting tokens from '' @ toString startTokenId
       @ '' to '' @ toString (lastTokenId startTokenId count)"

text \<open>
  \<^verbatim>\<open>mintBatch\<close>. The header is fetched and the extrinsic built outside the
  \<^verbatim>\<open>try\<close>; only the rejection of \<^verbatim>\<open>signAndSend\<close> is caught and printed.
\<close>

definition mintBatch ::
  "multiTokens \<Rightarrow> api \<Rightarrow> keyringPair \<Rightarrow> number \<Rightarrow> number \<Rightarrow> number \<Rightarrow> network
     \<Rightarrow> unit promise \<times> network" where
  "mintBatch client api' testAccount collectionId startTokenId count net =
     (case arrayLength count of
        Inl e \<Rightarrow> (Rejected e, net)
      | Inr len \<Rightarrow>
          (let payload = batchPayload testAccount collectionId startTokenId len
           in case getHeader net of
                (Rejected e, net1) \<Rightarrow> (Rejected e, net1)
              | (Pending, net1) \<Rightarrow> (Pending, net1)
              | (Fulfilled latestHeader, net1) \<Rightarrow>
                  (let currentBlockNumber = number latestHeader;
                       submitExtrinsic = batchMint client collectionId payload
                   in case signAndSend testAccount submitExtrinsic (Num 0) net1 of
                        (Fulfilled _, net2) \<Rightarrow>
                          (Fulfilled (),
                           console_log
                             [Log (mintedMessage startTokenId count currentBlockNumber)] net2)
                      | (Rejected e, net2) \<Rightarrow>
                          (Fulfilled (),
                           console_log
                             [ErrorText (mintErrorMessage startTokenId count), ErrorValue e] net2)
                      | (Pending, net2) \<Rightarrow> (Pending, net2))))"

text \<open>The environment of the process and the constants read from it.\<close>

record env =
  env_BOT_KEY :: "string option"
  env_WS_ENDPOINT :: "string option"
  env_COLLECTION_COUNT :: "string option"
  env_TOKEN_COUNT_PER_COLLECTION :: "string option"
  env_TOKEN_COUNT_IN_BATCH :: "string option"

text \<open>
  What the script takes from its libraries: \<^verbatim>\<open>parseInt\<close>, the readiness of
  the cryptography, the connection \<^verbatim>\<open>ApiPromise.create\<close> for an endpoint, and
  the account that \<^verbatim>\<open>keyring.addFromUri\<close> makes of a key under an address format.
\<close>

record library =
  parseInt :: "string \<Rightarrow> number"
  cryptoWaitReady :: "unit promise"
  ApiPromise_create :: "string \<Rightarrow> api promise"
  keyring_addFromUri :: "number \<Rightarrow> string option \<Rightarrow> error + keyringPair"

text \<open>A string is truthy when it is there and not empty.\<close>

definition truthy :: "string option \<Rightarrow> bool" where
  "truthy v = (case v of None \<Rightarrow> False | Some s \<Rightarrow> s \<noteq> [])"

definition BOT_KEY :: "env \<Rightarrow> string option" where
  "BOT_KEY e = env_BOT_KEY e"

definition ENDPOINT :: "env \<Rightarrow> string" where
  "ENDPOINT e =
     (if truthy (env_WS_ENDPOINT e) then the (env_WS_ENDPOINT e) else ''ws://localhost:9944'')"

definition parsedOr :: "library \<Rightarrow> string option \<Rightarrow> int \<Rightarrow> number" where
  "parsedOr lib v d = (if truthy v then parseInt lib (the v) else Num d)"

definition COLLECTION_COUNT :: "library \<Rightarrow> env \<Rightarrow> number" where
  "COLLECTION_COUNT lib e = parsedOr lib (env_COLLECTION_COUNT e) 1"

definition TOKEN_COUNT_PER_COLLECTION :: "library \<Rightarrow> env \<Rightarrow> number" where
  "TOKEN_COUNT_PER_COLLECTION lib e = parsedOr lib (env_TOKEN_COUNT_PER_COLLECTION e) 1000"

definition TOKEN_COUNT_IN_BATCH :: "library \<Rightarrow> env \<Rightarrow> number" where
  "TOKEN_COUNT_IN_BATCH lib e = parsedOr lib (env_TOKEN_COUNT_IN_BATCH e) 100"

text \<open>
  How the process ends: \<^verbatim>\<open>process.exit\<close> with a status, the promise of
  \<^verbatim>\<open>main\<close> rejected with nobody to handle it, or pending for ever.
\<close>

datatype process = Exit nat | Unhandled error | Hang

text \<open>\<^verbatim>\<open>Number(collectionCreatedEvent.data[0])\<close>.\<close>

definition Number_data0 :: "chain_event \<Rightarrow> number" where
  "Number_data0 ev = (case ev_data ev of [] \<Rightarrow> NaN | d # _ \<Rightarrow> Num d)"

text \<open>One round of the loop over the collections (lines 45 to 85).\<close>

definition collectionRound ::
  "multiTokens \<Rightarrow> api \<Rightarrow> keyringPair \<Rightarrow> number \<Rightarrow> number \<Rightarrow> int \<Rightarrow> network
     \<Rightarrow> (unit promise \<times> network) option" where
  "collectionRound client api' testAccount perCollection inBatch collection net =
     (let net0 = console_log [Log (''Creating collection '' @ toString (Num collection))] net;
          submitExtrinsicCollection =
            createCollection client (Some perCollection) (Some (Num 1)) False None []
      in case signAndSendReturningEvent testAccount submitExtrinsicCollection
                (events_multiTokens_CollectionCreated api') net0 of
           (Rejected e, net1) \<Rightarrow> Some (Rejected e, net1)
         | (Pending, net1) \<Rightarrow> Some (Pending, net1)
         | (Fulfilled collectionCreatedEvent, net1) \<Rightarrow>
             (let collectionId = Number_data0 collectionCreatedEvent;
                  net2 = console_log
                    [Log (''Collection '' @ toString (Num collection) @ '' created with id: ''
                          @ toString collectionId)] net1;
                  fullBatches = js_floor_div perCollection inBatch;
                  remainingTokens = js_rem perCollection inBatch
              in case forLoop (\<lambda>j. js_lt (Num j) fullBatches)
                        (\<lambda>j s. Some (mintBatch client api' testAccount collectionId
                                        (js_add (js_mul (Num j) inBatch) (Num 1)) inBatch s))
                        0 net2 of
                   None \<Rightarrow> None
                 | Some (Rejected e, net3) \<Rightarrow> Some (Rejected e, net3)
                 | Some (Pending, net3) \<Rightarrow> Some (Pending, net3)
                 | Some (Fulfilled _, net3) \<Rightarrow>
                     (if js_gt remainingTokens (Num 0)
                      then Some (mintBatch client api' testAccount collectionId
                                   (js_add (js_mul fullBatches inBatch) (Num 1))
                                   remainingTokens net3)
                      else Some (Fulfilled (), net3))))"

text \<open>\<^verbatim>\<open>!ss58Format\<close>: undefined, zero and \<^verbatim>\<open>NaN\<close> are falsy.\<close>

definition falsy :: "number option \<Rightarrow> bool" where
  "falsy v = (v = None \<or> v = Some (Num 0) \<or> v = Some NaN)"

definition main :: "library \<Rightarrow> env \<Rightarrow> network \<Rightarrow> (process \<times> network) option" where
  "main lib e net =
     (case cryptoWaitReady lib of
        Rejected err \<Rightarrow> Some (Unhandled err, net)
      | Pending \<Rightarrow> Some (Hang, net)
      | Fulfilled _ \<Rightarrow>
          (let net0 = console_log [Log (''Connecting to '' @ ENDPOINT e)] net
           in case ApiPromise_create lib (ENDPOINT e) of
                Rejected err \<Rightarrow> Some (Unhandled err, net0)
              | Pending \<Rightarrow> Some (Hang, net0)
              | Fulfilled api' \<Rightarrow>
                  (if falsy (ss58Format api')
                   then Some (Exit 1, console_log [ErrorText ''Chain ss58Format is not set''] net0)
                   else case keyring_addFromUri lib (the (ss58Format api')) (BOT_KEY e) of
                          Inl err \<Rightarrow> Some (Unhandled err, net0)
                        | Inr testAccount \<Rightarrow>
                            (let client = \<lparr>client_api = api'\<rparr>
                             in case forLoop (\<lambda>collection. js_le (Num collection) (COLLECTION_COUNT lib e))
                                       (collectionRound client api' testAccount
                                          (TOKEN_COUNT_PER_COLLECTION lib e)
                                          (TOKEN_COUNT_IN_BATCH lib e))
                                       1 net0 of
                                  None \<Rightarrow> None
                                | Some (Rejected err, net1) \<Rightarrow> Some (Unhandled err, net1)
                                | Some (Pending, net1) \<Rightarrow> Some (Hang, net1)
                                | Some (Fulfilled _, net1) \<Rightarrow>
                                    Some (Exit 0,
                                          console_log [Log ''Minting completed. Exiting script.'']
                                            net1)))))"

text \<open>
  The module as a whole: the two checks at the top, which run when the module is
  loaded, then the call of \<^verbatim>\<open>main\<close>.
\<close>

definition main_ts :: "library \<Rightarrow> env \<Rightarrow> network \<Rightarrow> (process \<times> network) option" where
  "main_ts lib e net =
     (if js_gt (TOKEN_COUNT_IN_BATCH lib e) (Num 250)
      then Some (Exit 1,
                 console_log
                   [ErrorText ''TOKEN_COUNT_IN_BATCH should be less than or equal to 250''] net)
      else if \<not> truthy (BOT_KEY e)
      then Some (Exit 1, console_log [ErrorText ''BOT_KEY env variable is not set''] net)
      else main lib e net)"

section \<open>Notions for stating the properties\<close>

text \<open>
  What the \<open>n\<close>-th \<^verbatim>\<open>signAndSend\<close> of a run settles to on a chain, once its
  header has been fetched: the rejection of the broadcast, or what the status
  callback makes of the status stream.
\<close>

definition outcomeOf :: "network \<Rightarrow> nat \<Rightarrow> chain_event list promise" where
  "outcomeOf net n =
     (case signAndSend_answer net n of
        BroadcastRejected error \<Rightarrow> Rejected error
      | StatusUpdates results \<Rightarrow> statusCallback results)"

text \<open>
  The rounds of a loop one after another, for a loop that makes the finite list
  \<open>xs\<close> of them: a round that rejects or stays pending ends the loop.
\<close>

fun rounds ::
  "('a \<Rightarrow> 's \<Rightarrow> (unit promise \<times> 's) option) \<Rightarrow> 'a list \<Rightarrow> 's \<Rightarrow> (unit promise \<times> 's) option" where
  "rounds body [] s = Some (Fulfilled (), s)"
| "rounds body (x # xs) s =
     (case body x s of
        None \<Rightarrow> None
      | Some (Fulfilled _, s') \<Rightarrow> rounds body xs s'
      | Some (Rejected e, s') \<Rightarrow> Some (Rejected e, s')
      | Some (Pending, s') \<Rightarrow> Some (Pending, s'))"

text \<open>
  The batch plan of lines 59 to 85 for an integer token count and an integer batch
  size other than zero: the arguments \<open>(startTokenId, count)\<close> of the calls of
  \<^verbatim>\<open>mintBatch\<close>, first those of the loop over the full batches, then the one for
  the remaining tokens.
\<close>

definition batchPlan :: "int \<Rightarrow> int \<Rightarrow> (int \<times> int) list" where
  "batchPlan totalCount maxBatchSize =
     (let fullBatches = totalCount div maxBatchSize;
          remainingTokens = sgn totalCount * (\<bar>totalCount\<bar> mod \<bar>maxBatchSize\<bar>)
      in map (\<lambda>j. (j * maxBatchSize + 1, maxBatchSize)) [0..fullBatches - 1]
         @ (if 0 < remainingTokens
            then [(fullBatches * maxBatchSize + 1, remainingTokens)] else []))"

text \<open>
  The identifier that the \<open>n\<close>-th \<^verbatim>\<open>signAndSend\<close> of a run yields when it is the
  creation of a collection: the first data field of the first collection-created
  event among the events of its inclusion. There is none when the submission is
  rejected or pending, or when its events hold no such event.
\<close>

definition createdId :: "api \<Rightarrow> network \<Rightarrow> nat \<Rightarrow> number option" where
  "createdId api' net n =
     (case outcomeOf net n of
        Fulfilled evs \<Rightarrow>
          (case getEventFromEvents evs (events_multiTokens_CollectionCreated api') of
             Some ev \<Rightarrow> Some (Number_data0 ev)
           | None \<Rightarrow> None)
      | Rejected e \<Rightarrow> None
      | Pending \<Rightarrow> None)"

text \<open>
  What \<^verbatim>\<open>mintBatch\<close> prints for the batch \<open>(s, c)\<close> when its own header call is
  the \<open>h\<close>-th of the run and its submission the \<open>n\<close>-th: the line of success with
  the block after that header, or the two lines of the failure.
\<close>

definition mintLines :: "network \<Rightarrow> int \<times> int \<Rightarrow> nat \<Rightarrow> nat \<Rightarrow> console_line list" where
  "mintLines net batch h n =
     (case outcomeOf net n of
        Fulfilled evs \<Rightarrow>
          (case getHeader_answer net h of
             Fulfilled latestHeader \<Rightarrow>
               [Log (mintedMessage (Num (fst batch)) (Num (snd batch)) (number latestHeader))]
           | Rejected e \<Rightarrow> []
           | Pending \<Rightarrow> [])
      | Rejected e \<Rightarrow>
          [ErrorText (mintErrorMessage (Num (fst batch)) (Num (snd batch))), ErrorValue e]
      | Pending \<Rightarrow> [])"

text \<open>
  The calls that one round of the loop over the collections submits for a token
  count \<open>t\<close> and a batch size \<open>b\<close> when the collection gets the identifier \<open>cid\<close>:
  the creation, then one batch mint for each entry of the batch plan.
\<close>

definition collectionTxs :: "multiTokens \<Rightarrow> keyringPair \<Rightarrow> int \<Rightarrow> int \<Rightarrow> number \<Rightarrow> extrinsic list" where
  "collectionTxs client acct t b cid =
     createCollection client (Some (Num t)) (Some (Num 1)) False None []
       # map (\<lambda>(s, c). Tx_batchMint cid (batchPayload acct cid (Num s) (nat c))) (batchPlan t b)"

text \<open>
  What that round prints when its first header call is the \<open>h\<close>-th of the run and
  its first submission the \<open>n\<close>-th: the two lines of the creation, then the lines
  of each batch.
\<close>

definition collectionLines ::
  "network \<Rightarrow> int \<Rightarrow> int \<Rightarrow> int \<Rightarrow> number \<Rightarrow> nat \<Rightarrow> nat \<Rightarrow> console_line list" where
  "collectionLines net t b col cid h n =
     [Log (''Creating collection '' @ toString (Num col)),
      Log (''Collection '' @ toString (Num col) @ '' created with id: '' @ toString cid)]
       @ concat (map (\<lambda>k. mintLines net (batchPlan t b ! k) (h + 1 + 2 * k) (n + 1 + k))
                   [0..<length (batchPlan t b)])"

text \<open>
  The order of the submissions of a run, for the entries of the record \<open>log\<close> from
  index \<open>start\<close> on: every batch mint comes after the creation of a collection whose
  outcome on the chain yields the identifier that the batch carries, with nothing
  but batch mints between the two.
\<close>

definition mintsFollowCreation :: "api \<Rightarrow> network \<Rightarrow> nat \<Rightarrow> submission list \<Rightarrow> bool" where
  "mintsFollowCreation api' net start log =
     (\<forall>i cid rs. start \<le> i \<and> i < length log \<and> sub_tx (log ! i) = Tx_batchMint cid rs \<longrightarrow>
        (\<exists>k d. start \<le> k \<and> k < i
           \<and> sub_tx (log ! k) = Tx_createCollection d
           \<and> createdId api' net k = Some cid
           \<and> (\<forall>m. k < m \<and> m < i \<longrightarrow> (\<exists>c rs'. sub_tx (log ! m) = Tx_batchMint c rs'))))"

text \<open>
  The collection that is being minted at the end of the record \<open>log\<close>: the last
  creation in it yields \<open>cid\<close>, and only batch mints come after it.
\<close>

definition currentCollection :: "api \<Rightarrow> network \<Rightarrow> nat \<Rightarrow> number \<Rightarrow> submission list \<Rightarrow> bool" where
  "currentCollection api' net start cid log =
     (\<exists>k d. start \<le> k \<and> k < length log
        \<and> sub_tx (log ! k) = Tx_createCollection d
        \<and> createdId api' net k = Some cid
        \<and> (\<forall>m. k < m \<and> m < length log \<longrightarrow> (\<exists>c rs'. sub_tx (log ! m) = Tx_batchMint c rs')))"

section \<open>Sample inputs\<close>

text \<open>
  The inputs at which the theorems below are evaluated: an account, the descriptor of
  the collection-created event, a few events and status results, and a chain whose
  \<open>n\<close>-th header is block \<open>100 + n\<close> and that answers each \<^verbatim>\<open>signAndSend\<close> as
  the given function says.
\<close>

definition alice :: keyringPair where
  "alice = \<lparr>address = ''alice''\<rparr>"

definition CollectionCreated :: augmented_event where
  "CollectionCreated =
     \<lparr>eventIs_is = (\<lambda>ev. ev_section ev = ''multiTokens'' \<and> ev_method ev = ''CollectionCreated''),
      meta_name = ''CollectionCreated''\<rparr>"

definition created42 :: chain_event where
  "created42 = \<lparr>ev_section = ''multiTokens'', ev_method = ''CollectionCreated'', ev_data = [42]\<rparr>"

definition withdrawn :: chain_event where
  "withdrawn = \<lparr>ev_section = ''balances'', ev_method = ''Withdraw'', ev_data = [5]\<rparr>"

definition statusReady :: submittable_result where
  "statusReady = \<lparr>isError = False, isInBlock = False, isFinalized = False, events = []\<rparr>"

definition statusInBlock :: submittable_result where
  "statusInBlock =
     \<lparr>isError = False, isInBlock = True, isFinalized = False,
      events = [\<lparr>phase = 1, event = withdrawn\<rparr>, \<lparr>phase = 1, event = created42\<rparr>]\<rparr>"

definition statusInvalid :: submittable_result where
  "statusInvalid = \<lparr>isError = True, isInBlock = False, isFinalized = False, events = []\<rparr>"

definition chain :: "(nat \<Rightarrow> broadcast) \<Rightarrow> network" where
  "chain answers =
     \<lparr>getHeader_answer = (\<lambda>n. Fulfilled \<lparr>number = 100 + n, hash = ''0xabc''\<rparr>),
      signAndSend_answer = answers,
      headerCalls = 0, submitted = [], console = [], unhandled = []\<rparr>"

definition someTx :: extrinsic where
  "someTx = Tx_mint ''bob'' (Num 42) \<lparr>mint_tokenId = Num 1, amount = Num 1, mint_unitPrice = None\<rparr>"



definition sampleApi :: api where
  "sampleApi =
     \<lparr>registry_hasType = (\<lambda>name. True),
      events_multiTokens_CollectionCreated = CollectionCreated,
      ss58Format = Some (Num 1110)\<rparr>"

definition sampleLibrary :: library where
  "sampleLibrary =
     \<lparr>parseInt = (\<lambda>s. if s = ''-3'' then Num (- 3)
                      else if s = ''1'' then Num 1
                      else if s = ''2'' then Num 2
                      else if s = ''10'' then Num 10
                      else if s = ''100'' then Num 100
                      else if s = ''251'' then Num 251
                      else if s = ''1000'' then Num 1000
                      else NaN),
      cryptoWaitReady = Fulfilled (),
      ApiPromise_create = (\<lambda>endpoint. Fulfilled sampleApi),
      keyring_addFromUri = (\<lambda>format uri. Inr alice)\<rparr>"

definition sampleEnv :: "string option \<Rightarrow> string option \<Rightarrow> string option \<Rightarrow> env" where
  "sampleEnv key perCollection inBatch =
     \<lparr>env_BOT_KEY = key, env_WS_ENDPOINT = None, env_COLLECTION_COUNT = None,
      env_TOKEN_COUNT_PER_COLLECTION = perCollection,
      env_TOKEN_COUNT_IN_BATCH = inBatch\<rparr>"

definition sampleToken :: "number option \<Rightarrow> mintCreateToken" where
  "sampleToken price =
     \<lparr>tokenId = Num 7, initialSupply = Num 1, unitPrice = price, sufficiency = None,
      cap = None, behavior = None, listingForbidden = None, attributes = None\<rparr>"

text \<open>A chain that includes every transaction in a block.\<close>

definition allIncluded :: "nat \<Rightarrow> broadcast" where
  "allIncluded n = StatusUpdates [statusReady, statusInBlock]"

text \<open>
  A chain that includes every transaction in a block, except that it reports the
  fifth submission of the run invalid.
\<close>

definition fifthInvalid :: "nat \<Rightarrow> broadcast" where
  "fifthInvalid n =
     (if n = 4 then StatusUpdates [statusReady, statusInvalid]
      else StatusUpdates [statusReady, statusInBlock])"

lemmas ex_defs = alice_def CollectionCreated_def created42_def withdrawn_def statusReady_def
  statusInBlock_def statusInvalid_def chain_def someTx_def

lemmas sample_defs = sampleApi_def sampleLibrary_def sampleEnv_def

section \<open>Verified properties\<close>

subsection \<open>The event matcher\<close>

lemma find_first_decomp:
  "find P xs = Some x \<Longrightarrow> \<exists>pre post. xs = pre @ x # post \<and> P x \<and> (\<forall>y\<in>set pre. \<not> P y)"
proof (induction xs)
  case Nil then show ?case by simp
next
  case (Cons a xs)
  show ?case
  proof (cases "P a")
    case True
    with Cons.prems have "a = x" by simp
    with True have "a # xs = [] @ x # xs \<and> P x \<and> (\<forall>y\<in>set []. \<not> P y)" by simp
    then show ?thesis by blast
  next
    case False
    with Cons.prems have "find P xs = Some x" by simp
    from Cons.IH[OF this] obtain pre post where
      "xs = pre @ x # post" "P x" "\<forall>y\<in>set pre. \<not> P y" by blast
    with False have "a # xs = (a # pre) @ x # post \<and> P x \<and> (\<forall>y\<in>set (a # pre). \<not> P y)" by simp
    then show ?thesis by blast
  qed
qed

lemma find_Some_holds: "find P xs = Some x \<Longrightarrow> P x"
  by (induction xs) (auto split: if_splits)

lemma getEventFromEvents_find: "getEventFromEvents evs d = find (eventIs_is d) evs"
  by (cases "find (eventIs_is d) evs") (auto simp: getEventFromEvents_def dest: find_Some_holds)

text \<open>
  Claim C6, with the message the code raises. \<^verbatim>\<open>getEventFromEvents\<close> returns the
  first event of the sequence that the descriptor accepts, every event before it
  being refused, and nothing when the descriptor accepts no event;
  \<^verbatim>\<open>getEventFromEventsOrThrow\<close> returns the same event in the first case and
  raises \<^verbatim>\<open>unable to find event <name>\<close> in the second, and in no other.
\<close>

theorem event_matcher_first_match:
  "(case getEventFromEvents evs d of
      Some ev \<Rightarrow>
        (\<exists>pre post. evs = pre @ ev # post \<and> eventIs_is d ev \<and> (\<forall>x\<in>set pre. \<not> eventIs_is d x))
        \<and> getEventFromEventsOrThrow evs d = Inr ev
    | None \<Rightarrow>
        (\<forall>x\<in>set evs. \<not> eventIs_is d x)
        \<and> getEventFromEventsOrThrow evs d = Inl (Error (''unable to find event '' @ meta_name d)))"
proof (cases "find (eventIs_is d) evs")
  case None
  then have "\<forall>x\<in>set evs. \<not> eventIs_is d x"
    by (simp add: find_None_iff)
  with None show ?thesis
    by (simp add: getEventFromEvents_find getEventFromEventsOrThrow_def)
next
  case (Some ev)
  from find_first_decomp[OF this] show ?thesis using Some
    by (simp add: getEventFromEvents_find getEventFromEventsOrThrow_def)
qed

text \<open>
  The theorem at a sequence with one event that does not match and two that do, and
  at a sequence without a match.
\<close>

theorem event_matcher_first_match_witness:
  "getEventFromEvents
     [\<lparr>ev_section = ''balances'', ev_method = ''Withdraw'', ev_data = [5]\<rparr>,
      \<lparr>ev_section = ''multiTokens'', ev_method = ''CollectionCreated'', ev_data = [42]\<rparr>,
      \<lparr>ev_section = ''multiTokens'', ev_method = ''CollectionCreated'', ev_data = [43]\<rparr>]
     \<lparr>eventIs_is = (\<lambda>ev. ev_section ev = ''multiTokens'' \<and> ev_method ev = ''CollectionCreated''),
      meta_name = ''CollectionCreated''\<rparr>
   = Some \<lparr>ev_section = ''multiTokens'', ev_method = ''CollectionCreated'', ev_data = [42]\<rparr>
   \<and> getEventFromEventsOrThrow
     [\<lparr>ev_section = ''balances'', ev_method = ''Withdraw'', ev_data = [5]\<rparr>,
      \<lparr>ev_section = ''multiTokens'', ev_method = ''CollectionCreated'', ev_data = [42]\<rparr>,
      \<lparr>ev_section = ''multiTokens'', ev_method = ''CollectionCreated'', ev_data = [43]\<rparr>]
     \<lparr>eventIs_is = (\<lambda>ev. ev_section ev = ''multiTokens'' \<and> ev_method ev = ''CollectionCreated''),
      meta_name = ''CollectionCreated''\<rparr>
   = Inr \<lparr>ev_section = ''multiTokens'', ev_method = ''CollectionCreated'', ev_data = [42]\<rparr>
   \<and> getEventFromEventsOrThrow
     [\<lparr>ev_section = ''balances'', ev_method = ''Withdraw'', ev_data = [5]\<rparr>]
     \<lparr>eventIs_is = (\<lambda>ev. ev_section ev = ''multiTokens'' \<and> ev_method ev = ''CollectionCreated''),
      meta_name = ''CollectionCreated''\<rparr>
   = Inl (Error ''unable to find event CollectionCreated'')"
  using event_matcher_first_match
     [of "[\<lparr>ev_section = ''balances'', ev_method = ''Withdraw'', ev_data = [5]\<rparr>,
      \<lparr>ev_section = ''multiTokens'', ev_method = ''CollectionCreated'', ev_data = [42]\<rparr>,
      \<lparr>ev_section = ''multiTokens'', ev_method = ''CollectionCreated'', ev_data = [43]\<rparr>]"
      "\<lparr>eventIs_is = (\<lambda>ev. ev_section ev = ''multiTokens'' \<and> ev_method ev = ''CollectionCreated''),
      meta_name = ''CollectionCreated''\<rparr>"]
    event_matcher_first_match
     [of "[\<lparr>ev_section = ''balances'', ev_method = ''Withdraw'', ev_data = [5]\<rparr>]"
      "\<lparr>eventIs_is = (\<lambda>ev. ev_section ev = ''multiTokens'' \<and> ev_method ev = ''CollectionCreated''),
      meta_name = ''CollectionCreated''\<rparr>"]
  by (simp add: getEventFromEvents_def)

text \<open>
  Claim C6 as the specification words it names the error
  \<^verbatim>\<open>event not found: <descriptor name>\<close>; the error raised on an empty sequence
  is another one.
\<close>

theorem event_not_found_message_counterexample:
  "getEventFromEventsOrThrow []
     \<lparr>eventIs_is = (\<lambda>ev. ev_section ev = ''multiTokens'' \<and> ev_method ev = ''CollectionCreated''),
      meta_name = ''CollectionCreated''\<rparr>
   = Inl (Error ''unable to find event CollectionCreated'')
   \<and> getEventFromEventsOrThrow []
     \<lparr>eventIs_is = (\<lambda>ev. ev_section ev = ''multiTokens'' \<and> ev_method ev = ''CollectionCreated''),
      meta_name = ''CollectionCreated''\<rparr>
   \<noteq> Inl (Error ''event not found: CollectionCreated'')"
  by (simp add: getEventFromEventsOrThrow_def getEventFromEvents_def)

subsection \<open>The retrying submitter\<close>

lemma signAndSend_once: "\<not> js_gt attempt (Num 10) \<Longrightarrow>
  signAndSend origin tx attempt net = signAndSendOnce origin tx net"
  by (simp add: signAndSend_def split: prod.splits promise.splits)

text \<open>
  Claim C1 fails on the code. \<^verbatim>\<open>signAndSend\<close> calls \<^verbatim>\<open>signAndSendOnce\<close> once and
  throws what it caught: on a chain that rejects the first broadcast and would take
  the second, it is rejected with the first error after one broadcast; on a chain
  that reports every transaction invalid, it is rejected after one broadcast with the
  error of that attempt, not with \<^verbatim>\<open>unable to send transaction\<close>.
\<close>

theorem signAndSend_single_attempt:
  "fst (signAndSend alice someTx (Num 0)
          (chain (\<lambda>n. if n = 0 then BroadcastRejected (ClientError ''1014: Priority is too low'')
                       else StatusUpdates [statusReady, statusInBlock])))
     = Rejected (ClientError ''1014: Priority is too low'')
   \<and> length (submitted (snd (signAndSend alice someTx (Num 0)
          (chain (\<lambda>n. if n = 0 then BroadcastRejected (ClientError ''1014: Priority is too low'')
                       else StatusUpdates [statusReady, statusInBlock]))))) = 1
   \<and> fst (signAndSend alice someTx (Num 0) (chain (\<lambda>n. StatusUpdates [statusReady, statusInvalid])))
     = Rejected (TransactionError statusInvalid)
   \<and> length (submitted (snd (signAndSend alice someTx (Num 0)
          (chain (\<lambda>n. StatusUpdates [statusReady, statusInvalid]))))) = 1"
  by (simp add: signAndSend_def signAndSendOnce_def getHeader_def js_gt_def ex_defs)

subsection \<open>The typed-event submitter\<close>

lemma find_Some_mem: "find P xs = Some x \<Longrightarrow> x \<in> set xs \<and> P x"
  by (induction xs) (auto split: if_splits)

lemma orThrow_Inr:
  "getEventFromEventsOrThrow evs eventIs = Inr ev \<longleftrightarrow> find (eventIs_is eventIs) evs = Some ev"
  by (cases "find (eventIs_is eventIs) evs")
     (auto simp: getEventFromEventsOrThrow_def getEventFromEvents_def dest: find_Some_mem)

text \<open>
  Claim C5. When \<^verbatim>\<open>signAndSendReturningEvent\<close> is fulfilled with an event, the
  submission by \<^verbatim>\<open>signAndSend\<close> was fulfilled with a list of events that contains
  it, and the descriptor accepts it; when the submission is rejected,
  \<^verbatim>\<open>signAndSendReturningEvent\<close> is rejected with the same error.
\<close>

theorem returned_event_is_from_submission:
  "(signAndSendReturningEvent origin tx eventIs net = (Fulfilled ev, net') \<longrightarrow>
      (\<exists>evs. signAndSend origin tx (Num 0) net = (Fulfilled evs, net')
             \<and> ev \<in> set evs \<and> eventIs_is eventIs ev))
   \<and> (signAndSend origin tx (Num 0) net = (Rejected e, net') \<longrightarrow>
      signAndSendReturningEvent origin tx eventIs net = (Rejected e, net'))"
proof (intro conjI impI)
  assume a: "signAndSendReturningEvent origin tx eventIs net = (Fulfilled ev, net')"
  obtain r net1 where s: "signAndSend origin tx (Num 0) net = (r, net1)"
    by (cases "signAndSend origin tx (Num 0) net")
  show "\<exists>evs. signAndSend origin tx (Num 0) net = (Fulfilled evs, net')
               \<and> ev \<in> set evs \<and> eventIs_is eventIs ev"
  proof (cases r)
    case (Fulfilled evs)
    with a s have "getEventFromEventsOrThrow evs eventIs = Inr ev" and "net1 = net'"
      by (auto simp: signAndSendReturningEvent_def split: sum.splits)
    then have "ev \<in> set evs \<and> eventIs_is eventIs ev"
      by (simp add: orThrow_Inr find_Some_mem)
    with s Fulfilled \<open>net1 = net'\<close> show ?thesis by simp
  next
    case (Rejected x)
    with a s show ?thesis by (simp add: signAndSendReturningEvent_def)
  next
    case Pending
    with a s show ?thesis by (simp add: signAndSendReturningEvent_def)
  qed
next
  assume "signAndSend origin tx (Num 0) net = (Rejected e, net')"
  then show "signAndSendReturningEvent origin tx eventIs net = (Rejected e, net')"
    by (simp add: signAndSendReturningEvent_def)
qed

text \<open>
  The theorem on a chain that includes the transaction in a block with two events,
  and on a chain that reports it invalid.
\<close>

theorem returned_event_is_from_submission_witness:
  "signAndSendReturningEvent alice someTx CollectionCreated
      (chain (\<lambda>n. StatusUpdates [statusReady, statusInBlock]))
     = (Fulfilled created42,
        snd (signAndSend alice someTx (Num 0) (chain (\<lambda>n. StatusUpdates [statusReady, statusInBlock]))))
   \<and> signAndSend alice someTx (Num 0) (chain (\<lambda>n. StatusUpdates [statusReady, statusInBlock]))
     = (Fulfilled [withdrawn, created42],
        snd (signAndSend alice someTx (Num 0) (chain (\<lambda>n. StatusUpdates [statusReady, statusInBlock]))))
   \<and> created42 \<in> set [withdrawn, created42] \<and> eventIs_is CollectionCreated created42
   \<and> signAndSend alice someTx (Num 0) (chain (\<lambda>n. StatusUpdates [statusInvalid]))
     = (Rejected (TransactionError statusInvalid),
        snd (signAndSend alice someTx (Num 0) (chain (\<lambda>n. StatusUpdates [statusInvalid]))))
   \<and> signAndSendReturningEvent alice someTx CollectionCreated (chain (\<lambda>n. StatusUpdates [statusInvalid]))
     = (Rejected (TransactionError statusInvalid),
        snd (signAndSend alice someTx (Num 0) (chain (\<lambda>n. StatusUpdates [statusInvalid]))))"
  using returned_event_is_from_submission
    [of alice someTx CollectionCreated "chain (\<lambda>n. StatusUpdates [statusReady, statusInBlock])"
        created42
        "snd (signAndSend alice someTx (Num 0) (chain (\<lambda>n. StatusUpdates [statusReady, statusInBlock])))"]
    returned_event_is_from_submission
    [of alice someTx CollectionCreated "chain (\<lambda>n. StatusUpdates [statusInvalid])" created42
        "snd (signAndSend alice someTx (Num 0) (chain (\<lambda>n. StatusUpdates [statusInvalid])))"
        "TransactionError statusInvalid"]
  by (simp add: signAndSendReturningEvent_def signAndSend_def signAndSendOnce_def getHeader_def
        js_gt_def getEventFromEventsOrThrow_def getEventFromEvents_def ex_defs)

subsection \<open>The single attempt\<close>

lemma statusCallback_skip:
  "\<forall>x\<in>set pre. \<not> isError x \<and> \<not> isInBlock x \<and> \<not> isFinalized x \<Longrightarrow>
   statusCallback (pre @ rest) = statusCallback rest"
proof (induction pre)
  case Nil
  show ?case by simp
next
  case (Cons a pre)
  from Cons.prems have a: "\<not> isError a" "\<not> isInBlock a" "\<not> isFinalized a"
    and p: "\<forall>x\<in>set pre. \<not> isError x \<and> \<not> isInBlock x \<and> \<not> isFinalized x"
    by simp_all
  have "statusCallback ((a # pre) @ rest) = statusCallback (pre @ rest)"
    using a by simp
  also have "\<dots> = statusCallback rest" by (rule Cons.IH[OF p])
  finally show ?case .
qed

lemma statusCallback_settled:
  "statusCallback rs \<noteq> Pending \<Longrightarrow>
   \<exists>pre r post. rs = pre @ r # post
     \<and> (\<forall>x\<in>set pre. \<not> isError x \<and> \<not> isInBlock x \<and> \<not> isFinalized x)
     \<and> (isError r \<or> isInBlock r \<or> isFinalized r)"
proof (induction rs)
  case Nil
  then show ?case by simp
next
  case (Cons a rs)
  show ?case
  proof (cases "isError a \<or> isInBlock a \<or> isFinalized a")
    case True
    then have "a # rs = [] @ a # rs
       \<and> (\<forall>x\<in>set []. \<not> isError x \<and> \<not> isInBlock x \<and> \<not> isFinalized x)
       \<and> (isError a \<or> isInBlock a \<or> isFinalized a)" by simp
    then show ?thesis by blast
  next
    case False
    with Cons.prems have "statusCallback rs \<noteq> Pending" by simp
    from Cons.IH[OF this] obtain pre r post where
      "rs = pre @ r # post"
      "\<forall>x\<in>set pre. \<not> isError x \<and> \<not> isInBlock x \<and> \<not> isFinalized x"
      "isError r \<or> isInBlock r \<or> isFinalized r" by blast
    with False have "a # rs = (a # pre) @ r # post
       \<and> (\<forall>x\<in>set (a # pre). \<not> isError x \<and> \<not> isInBlock x \<and> \<not> isFinalized x)
       \<and> (isError r \<or> isInBlock r \<or> isFinalized r)" by simp
    then show ?thesis by blast
  qed
qed

lemma statusCallback_Pending:
  "statusCallback rs = Pending \<longleftrightarrow>
   (\<forall>x\<in>set rs. \<not> isError x \<and> \<not> isInBlock x \<and> \<not> isFinalized x)"
  by (induction rs) auto

lemma statusCallback_Fulfilled:
  "statusCallback rs = Fulfilled evs \<longleftrightarrow>
   (\<exists>pre r post. rs = pre @ r # post
      \<and> (\<forall>x\<in>set pre. \<not> isError x \<and> \<not> isInBlock x \<and> \<not> isFinalized x)
      \<and> \<not> isError r \<and> (isInBlock r \<or> isFinalized r) \<and> evs = map event (events r))"
  (is "?L \<longleftrightarrow> ?R")
proof
  assume l: ?L
  then have "statusCallback rs \<noteq> Pending" by simp
  from statusCallback_settled[OF this] obtain pre r post where
    d: "rs = pre @ r # post"
       "\<forall>x\<in>set pre. \<not> isError x \<and> \<not> isInBlock x \<and> \<not> isFinalized x"
       "isError r \<or> isInBlock r \<or> isFinalized r" by blast
  from d(1,2) have "statusCallback rs = statusCallback (r # post)"
    by (simp add: statusCallback_skip)
  with l d(3) have "\<not> isError r \<and> (isInBlock r \<or> isFinalized r) \<and> evs = map event (events r)"
    by (auto split: if_splits)
  with d(1,2) show ?R by blast
next
  assume ?R
  then obtain pre r post where
    d: "rs = pre @ r # post"
       "\<forall>x\<in>set pre. \<not> isError x \<and> \<not> isInBlock x \<and> \<not> isFinalized x"
       "\<not> isError r" "isInBlock r \<or> isFinalized r" "evs = map event (events r)" by blast
  from d(1,2) have "statusCallback rs = statusCallback (r # post)"
    by (simp add: statusCallback_skip)
  with d(3,4,5) show ?L by auto
qed

lemma statusCallback_Rejected:
  "statusCallback rs = Rejected e \<longleftrightarrow>
   (\<exists>pre r post. rs = pre @ r # post
      \<and> (\<forall>x\<in>set pre. \<not> isError x \<and> \<not> isInBlock x \<and> \<not> isFinalized x)
      \<and> isError r \<and> e = TransactionError r)"
  (is "?L \<longleftrightarrow> ?R")
proof
  assume l: ?L
  then have "statusCallback rs \<noteq> Pending" by simp
  from statusCallback_settled[OF this] obtain pre r post where
    d: "rs = pre @ r # post"
       "\<forall>x\<in>set pre. \<not> isError x \<and> \<not> isInBlock x \<and> \<not> isFinalized x"
       "isError r \<or> isInBlock r \<or> isFinalized r" by blast
  from d(1,2) have "statusCallback rs = statusCallback (r # post)"
    by (simp add: statusCallback_skip)
  with l d(3) have "isError r \<and> e = TransactionError r"
    by (auto split: if_splits)
  with d(1,2) show ?R by blast
next
  assume ?R
  then obtain pre r post where
    d: "rs = pre @ r # post"
       "\<forall>x\<in>set pre. \<not> isError x \<and> \<not> isInBlock x \<and> \<not> isFinalized x"
       "isError r" "e = TransactionError r" by blast
  from d(1,2) have "statusCallback rs = statusCallback (r # post)"
    by (simp add: statusCallback_skip)
  with d(3,4) show ?L by auto
qed

lemma signAndSendOnce_fst:
  "fst (signAndSendOnce origin tx net) =
     (case getHeader_answer net (headerCalls net) of
        Fulfilled h \<Rightarrow>
          (case signAndSend_answer net (length (submitted net)) of
             BroadcastRejected e \<Rightarrow> Rejected e
           | StatusUpdates rs \<Rightarrow> statusCallback rs)
      | Rejected e \<Rightarrow> Pending
      | Pending \<Rightarrow> Pending)"
  by (simp add: signAndSendOnce_def getHeader_def Let_def split: promise.splits broadcast.splits)

text \<open>
  Claim C7, amended. A status result is terminal when it is an error, in a block or
  finalized. \<^verbatim>\<open>signAndSendOnce\<close> is fulfilled exactly when the header was fetched
  and the first terminal result of the status stream is no error, and then with the
  events of that result in their order; it is rejected exactly when the header was
  fetched and the broadcast rejects or the first terminal result is an error; it
  stays pending exactly when the header was not fetched or the stream has no
  terminal result. The three outcomes exclude one another.
\<close>

theorem signAndSendOnce_outcome:
  "(fst (signAndSendOnce origin tx net) = Fulfilled evs \<longleftrightarrow>
      (\<exists>h pre r post.
          getHeader_answer net (headerCalls net) = Fulfilled h
        \<and> signAndSend_answer net (length (submitted net)) = StatusUpdates (pre @ r # post)
        \<and> (\<forall>x\<in>set pre. \<not> isError x \<and> \<not> isInBlock x \<and> \<not> isFinalized x)
        \<and> \<not> isError r \<and> (isInBlock r \<or> isFinalized r) \<and> evs = map event (events r)))
   \<and> (fst (signAndSendOnce origin tx net) = Rejected e \<longleftrightarrow>
      (\<exists>h. getHeader_answer net (headerCalls net) = Fulfilled h
        \<and> (signAndSend_answer net (length (submitted net)) = BroadcastRejected e
           \<or> (\<exists>pre r post.
                 signAndSend_answer net (length (submitted net)) = StatusUpdates (pre @ r # post)
               \<and> (\<forall>x\<in>set pre. \<not> isError x \<and> \<not> isInBlock x \<and> \<not> isFinalized x)
               \<and> isError r \<and> e = TransactionError r))))
   \<and> (fst (signAndSendOnce origin tx net) = Pending \<longleftrightarrow>
      (\<forall>h. getHeader_answer net (headerCalls net) \<noteq> Fulfilled h)
      \<or> (\<exists>rs. signAndSend_answer net (length (submitted net)) = StatusUpdates rs
             \<and> (\<forall>x\<in>set rs. \<not> isError x \<and> \<not> isInBlock x \<and> \<not> isFinalized x)))"
proof (intro conjI)
  show "fst (signAndSendOnce origin tx net) = Fulfilled evs \<longleftrightarrow>
      (\<exists>h pre r post.
          getHeader_answer net (headerCalls net) = Fulfilled h
        \<and> signAndSend_answer net (length (submitted net)) = StatusUpdates (pre @ r # post)
        \<and> (\<forall>x\<in>set pre. \<not> isError x \<and> \<not> isInBlock x \<and> \<not> isFinalized x)
        \<and> \<not> isError r \<and> (isInBlock r \<or> isFinalized r) \<and> evs = map event (events r))"
    unfolding signAndSendOnce_fst
    by (cases "getHeader_answer net (headerCalls net)";
        cases "signAndSend_answer net (length (submitted net))")
       (simp_all add: statusCallback_Fulfilled)
  show "fst (signAndSendOnce origin tx net) = Rejected e \<longleftrightarrow>
      (\<exists>h. getHeader_answer net (headerCalls net) = Fulfilled h
        \<and> (signAndSend_answer net (length (submitted net)) = BroadcastRejected e
           \<or> (\<exists>pre r post.
                 signAndSend_answer net (length (submitted net)) = StatusUpdates (pre @ r # post)
               \<and> (\<forall>x\<in>set pre. \<not> isError x \<and> \<not> isInBlock x \<and> \<not> isFinalized x)
               \<and> isError r \<and> e = TransactionError r)))"
    unfolding signAndSendOnce_fst
    by (cases "getHeader_answer net (headerCalls net)";
        cases "signAndSend_answer net (length (submitted net))")
       (simp_all add: statusCallback_Rejected)
  show "fst (signAndSendOnce origin tx net) = Pending \<longleftrightarrow>
      (\<forall>h. getHeader_answer net (headerCalls net) \<noteq> Fulfilled h)
      \<or> (\<exists>rs. signAndSend_answer net (length (submitted net)) = StatusUpdates rs
             \<and> (\<forall>x\<in>set rs. \<not> isError x \<and> \<not> isInBlock x \<and> \<not> isFinalized x))"
    unfolding signAndSendOnce_fst
    by (cases "getHeader_answer net (headerCalls net)";
        cases "signAndSend_answer net (length (submitted net))")
       (simp_all add: statusCallback_Pending)
qed

text \<open>
  The theorem on four chains: inclusion before an error, an error before inclusion,
  a rejected broadcast, and a stream that only reports readiness.
\<close>

theorem signAndSendOnce_outcome_witness:
  "fst (signAndSendOnce alice someTx (chain (\<lambda>n. StatusUpdates [statusReady, statusInBlock, statusInvalid])))
     = Fulfilled [withdrawn, created42]
   \<and> fst (signAndSendOnce alice someTx (chain (\<lambda>n. StatusUpdates [statusReady, statusInvalid, statusInBlock])))
     = Rejected (TransactionError statusInvalid)
   \<and> fst (signAndSendOnce alice someTx (chain (\<lambda>n. BroadcastRejected (ClientError ''1014: Priority is too low''))))
     = Rejected (ClientError ''1014: Priority is too low'')
   \<and> fst (signAndSendOnce alice someTx (chain (\<lambda>n. StatusUpdates [statusReady, statusReady])))
     = Pending"
  using signAndSendOnce_outcome
    [of alice someTx "chain (\<lambda>n. StatusUpdates [statusReady, statusInBlock, statusInvalid])"
        "[withdrawn, created42]" "TransactionError statusInvalid"]
  by (simp add: signAndSendOnce_def getHeader_def ex_defs)

text \<open>
  Claim C7 as stated promises one terminal outcome for every attempt. On a status
  stream that reports readiness and nothing after it, the attempt has none.
\<close>

theorem signAndSendOnce_never_settles_counterexample:
  "fst (signAndSendOnce alice someTx (chain (\<lambda>n. StatusUpdates [statusReady]))) = Pending
   \<and> (\<nexists>evs. fst (signAndSendOnce alice someTx (chain (\<lambda>n. StatusUpdates [statusReady]))) = Fulfilled evs)
   \<and> (\<nexists>e. fst (signAndSendOnce alice someTx (chain (\<lambda>n. StatusUpdates [statusReady]))) = Rejected e)"
  by (simp add: signAndSendOnce_def getHeader_def ex_defs)

text \<open>
  Claim C9. An attempt fetches one header. When it gets one, it signs and sends
  exactly one transaction, with nonce \<open>-1\<close>, an era of period 1024 whose current
  block is the number of that header, and the hash of that header; when it gets
  none, it sends nothing. No nonce is kept anywhere in the state.
\<close>

theorem signing_parameters:
  "(getHeader_answer net (headerCalls net) = Fulfilled h \<longrightarrow>
      submitted (snd (signAndSendOnce origin tx net)) =
        submitted net @
          [\<lparr>sub_origin = origin, sub_tx = tx,
            sub_options = \<lparr>nonce = - 1,
                           era = \<lparr>current = number h, period = 1024\<rparr>,
                           blockHash = hash h\<rparr>\<rparr>])
   \<and> ((\<forall>h'. getHeader_answer net (headerCalls net) \<noteq> Fulfilled h') \<longrightarrow>
      submitted (snd (signAndSendOnce origin tx net)) = submitted net)
   \<and> headerCalls (snd (signAndSendOnce origin tx net)) = Suc (headerCalls net)"
  by (cases "getHeader_answer net (headerCalls net)";
      cases "signAndSend_answer net (length (submitted net))")
     (simp_all add: signAndSendOnce_def getHeader_def Let_def)

text \<open>
  The theorem on a chain whose head is block 100, and on one whose header call is
  rejected.
\<close>

theorem signing_parameters_witness:
  "getHeader_answer (chain (\<lambda>n. StatusUpdates [statusInBlock])) (headerCalls (chain (\<lambda>n. StatusUpdates [statusInBlock])))
     = Fulfilled \<lparr>number = 100, hash = ''0xabc''\<rparr>
   \<and> submitted (snd (signAndSendOnce alice someTx (chain (\<lambda>n. StatusUpdates [statusInBlock])))) =
        [\<lparr>sub_origin = alice, sub_tx = someTx,
          sub_options = \<lparr>nonce = - 1, era = \<lparr>current = 100, period = 1024\<rparr>, blockHash = ''0xabc''\<rparr>\<rparr>]
   \<and> submitted (snd (signAndSendOnce alice someTx
         ((chain (\<lambda>n. StatusUpdates [statusInBlock]))\<lparr>getHeader_answer := (\<lambda>n. Rejected (ClientError ''disconnected''))\<rparr>)))
       = []"
  using signing_parameters
    [of "chain (\<lambda>n. StatusUpdates [statusInBlock])" "\<lparr>number = 100, hash = ''0xabc''\<rparr>" alice someTx]
    signing_parameters
    [of "(chain (\<lambda>n. StatusUpdates [statusInBlock]))\<lparr>getHeader_answer := (\<lambda>n. Rejected (ClientError ''disconnected''))\<rparr>"
        "\<lparr>number = 100, hash = ''0xabc''\<rparr>" alice someTx]
  by (simp add: ex_defs)

subsection \<open>The checks at startup\<close>

text \<open>
  Claim C3, amended. The module ends the process with status 1, having printed one
  line and done nothing else, exactly when \<^verbatim>\<open>TOKEN_COUNT_IN_BATCH\<close> is greater than
  250 or \<^verbatim>\<open>BOT_KEY\<close> is missing or empty; in every other case, also for a batch
  size of zero, below zero or \<^verbatim>\<open>NaN\<close>, it goes on to \<^verbatim>\<open>main\<close>.
\<close>

theorem startup_check:"(js_gt (TOKEN_COUNT_IN_BATCH lib e) (Num 250) \<or> \<not> truthy (BOT_KEY e) \<longrightarrow>
      (\<exists>line. main_ts lib e net = Some (Exit 1, net\<lparr>console := console net @ [ErrorText line]\<rparr>)))
   \<and> (\<not> js_gt (TOKEN_COUNT_IN_BATCH lib e) (Num 250) \<and> truthy (BOT_KEY e) \<longrightarrow>
      main_ts lib e net = main lib e net)
   \<and> (js_gt (TOKEN_COUNT_IN_BATCH lib e) (Num 250) \<longleftrightarrow>
      (\<exists>b. TOKEN_COUNT_IN_BATCH lib e = Num b \<and> 250 < b) \<or> TOKEN_COUNT_IN_BATCH lib e = Infinity)
   \<and> (truthy (BOT_KEY e) \<longleftrightarrow> (\<exists>k. env_BOT_KEY e = Some k \<and> k \<noteq> []))"
proof (intro conjI impI)
  assume "js_gt (TOKEN_COUNT_IN_BATCH lib e) (Num 250) \<or> \<not> truthy (BOT_KEY e)"
  then show "\<exists>line. main_ts lib e net = Some (Exit 1, net\<lparr>console := console net @ [ErrorText line]\<rparr>)"
    by (auto simp: main_ts_def console_log_def)
next
  assume "\<not> js_gt (TOKEN_COUNT_IN_BATCH lib e) (Num 250) \<and> truthy (BOT_KEY e)"
  then show "main_ts lib e net = main lib e net"
    by (simp add: main_ts_def)
next
  show "js_gt (TOKEN_COUNT_IN_BATCH lib e) (Num 250) \<longleftrightarrow>
      (\<exists>b. TOKEN_COUNT_IN_BATCH lib e = Num b \<and> 250 < b) \<or> TOKEN_COUNT_IN_BATCH lib e = Infinity"
    by (cases "TOKEN_COUNT_IN_BATCH lib e") (simp_all add: js_gt_def)
next
  show "truthy (BOT_KEY e) \<longleftrightarrow> (\<exists>k. env_BOT_KEY e = Some k \<and> k \<noteq> [])"
    by (cases "env_BOT_KEY e") (simp_all add: truthy_def BOT_KEY_def)
qed

text \<open>
  The theorem at a batch size of 251, at a missing key, and at a batch size of 100
  with a key.
\<close>

theorem startup_check_witness:
  "main_ts sampleLibrary (sampleEnv (Some ''//Alice'') (Some ''1000'') (Some ''251''))
      (chain (\<lambda>n. StatusUpdates [statusInBlock]))
     = Some (Exit 1, (chain (\<lambda>n. StatusUpdates [statusInBlock]))
          \<lparr>console := [ErrorText ''TOKEN_COUNT_IN_BATCH should be less than or equal to 250'']\<rparr>)
   \<and> main_ts sampleLibrary (sampleEnv None (Some ''1000'') (Some ''100''))
      (chain (\<lambda>n. StatusUpdates [statusInBlock]))
     = Some (Exit 1, (chain (\<lambda>n. StatusUpdates [statusInBlock]))
          \<lparr>console := [ErrorText ''BOT_KEY env variable is not set'']\<rparr>)
   \<and> main_ts sampleLibrary (sampleEnv (Some ''//Alice'') (Some ''1000'') (Some ''100''))
      (chain (\<lambda>n. StatusUpdates [statusInBlock]))
     = main sampleLibrary (sampleEnv (Some ''//Alice'') (Some ''1000'') (Some ''100''))
      (chain (\<lambda>n. StatusUpdates [statusInBlock]))"
  using startup_check
    [of sampleLibrary "sampleEnv (Some ''//Alice'') (Some ''1000'') (Some ''251'')"
        "chain (\<lambda>n. StatusUpdates [statusInBlock])"]
    startup_check
    [of sampleLibrary "sampleEnv None (Some ''1000'') (Some ''100'')"
        "chain (\<lambda>n. StatusUpdates [statusInBlock])"]
    startup_check
    [of sampleLibrary "sampleEnv (Some ''//Alice'') (Some ''1000'') (Some ''100'')"
        "chain (\<lambda>n. StatusUpdates [statusInBlock])"]
  by (simp add: main_ts_def TOKEN_COUNT_IN_BATCH_def parsedOr_def truthy_def BOT_KEY_def
        js_gt_def console_log_def sample_defs chain_def)

text \<open>
  Claim C3 as stated has the process end for every batch size outside \<open>[1, 250]\<close>.
  With \<^verbatim>\<open>TOKEN_COUNT_IN_BATCH=-3\<close> and ten tokens in the collection the checks
  pass, the collection is created, one batch with token 13 is minted and the process
  exits with status 0.
\<close>

theorem startup_check_lower_bound_counterexample:
  "TOKEN_COUNT_IN_BATCH sampleLibrary (sampleEnv (Some ''//Alice'') (Some ''10'') (Some ''-3'')) = Num (- 3)
   \<and> map_option fst (main_ts sampleLibrary (sampleEnv (Some ''//Alice'') (Some ''10'') (Some ''-3''))
        (chain (\<lambda>n. StatusUpdates [statusInBlock]))) = Some (Exit 0)
   \<and> map_option (map sub_tx \<circ> submitted \<circ> snd)
        (main_ts sampleLibrary (sampleEnv (Some ''//Alice'') (Some ''10'') (Some ''-3''))
        (chain (\<lambda>n. StatusUpdates [statusInBlock]))) = Some [Tx_createCollection
                   \<lparr>policy_mint = \<lparr>maxTokenCount = Some (Num 10), maxTokenSupply = Some (Num 1),
                                   forceSingleMint = False\<rparr>,
                    policy_market_royalty = None, explicitRoyaltyCurrencies = []\<rparr>,
                 Tx_batchMint (Num 42) (batchPayload alice (Num 42) (Num 13) 1)]"
  by (simp add: main_ts_def main_def collectionRound_def forLoop.simps mintBatch_def mintedMessage_def mintErrorMessage_def
        signAndSendReturningEvent_def signAndSend_def signAndSendOnce_def getHeader_def
        getEventFromEventsOrThrow_def getEventFromEvents_def Number_data0_def
        TOKEN_COUNT_IN_BATCH_def TOKEN_COUNT_PER_COLLECTION_def COLLECTION_COUNT_def
        parsedOr_def truthy_def BOT_KEY_def ENDPOINT_def falsy_def
        js_gt_def console_log_def arrayLength_def batchPayload_def batchMint_def
        fixMintCreateToken_def createCollection_def lastTokenId_def signed_inf_def
        digits.simps Let_def
        sample_defs ex_defs)

subsection \<open>The payload fixup\<close>

lemma fixMintCreateToken_no_price:
  "unitPrice c = None \<Longrightarrow> fixMintCreateToken this c = c"
  by (simp add: fixMintCreateToken_def)

lemma batchMint_payload:
  "batchMint this cid' (batchPayload acct cid start len) = Tx_batchMint cid' (batchPayload acct cid start len)"
proof -
  have "map (\<lambda>recipient.
                   case params recipient of
                     CreateToken createToken \<Rightarrow>
                       \<lparr>accountId = accountId recipient,
                        params = CreateToken (fixMintCreateToken this createToken)\<rparr>
                   | Mint _ \<Rightarrow> recipient) (batchPayload acct cid start len)
        = batchPayload acct cid start len"
    unfolding batchPayload_def
    by (simp add: Let_def fixMintCreateToken_def)
  then show ?thesis by (simp add: batchMint_def Let_def)
qed

lemma mintBatch_submits:
  assumes "arrayLength count = Inr len"
    and "getHeader_answer net (headerCalls net) = Fulfilled h1"
    and "getHeader_answer net (Suc (headerCalls net)) = Fulfilled h2"
  shows "map sub_tx (submitted (snd (mintBatch this api' acct cid start count net)))
         = map sub_tx (submitted net) @ [Tx_batchMint cid (batchPayload acct cid start len)]"
  using assms
  by (simp add: mintBatch_def getHeader_def signAndSend_def signAndSendOnce_def js_gt_def
        batchMint_payload console_log_def Let_def
      split: broadcast.splits promise.splits)

text \<open>
  Claim C10. \<^verbatim>\<open>fixMintCreateToken\<close> returns its argument when the argument has no
  \<^verbatim>\<open>unitPrice\<close>, and when the registry lacks the type
  \<^verbatim>\<open>EpMultiTokensPolicyMintSufficiencyParam\<close>. No entry of a payload built by
  \<^verbatim>\<open>mintBatch\<close> has a \<^verbatim>\<open>unitPrice\<close>, so \<^verbatim>\<open>batchMint\<close> passes the payload on as
  it is, and that is the call \<^verbatim>\<open>mintBatch\<close> submits. On any list of recipients
  \<^verbatim>\<open>batchMint\<close> keeps the number of entries, their order and their accounts: entry
  \<open>i\<close> of the result is entry \<open>i\<close> of the argument, with its token fixed when it
  is a \<^verbatim>\<open>createToken\<close>.
\<close>

theorem mint_payload_unchanged_by_fixup:
  "(unitPrice c = None \<longrightarrow> fixMintCreateToken this c = c)
   \<and> (\<not> registry_hasType (client_api this) ''EpMultiTokensPolicyMintSufficiencyParam'' \<longrightarrow>
        fixMintCreateToken this c = c)
   \<and> (\<forall>r\<in>set (batchPayload acct cid start len).
         \<exists>t. params r = CreateToken t \<and> unitPrice t = None)
   \<and> batchMint this cid (batchPayload acct cid start len)
        = Tx_batchMint cid (batchPayload acct cid start len)
   \<and> (arrayLength count = Inr len
        \<and> getHeader_answer net (headerCalls net) = Fulfilled h1
        \<and> getHeader_answer net (Suc (headerCalls net)) = Fulfilled h2 \<longrightarrow>
        map sub_tx (submitted (snd (mintBatch this api' acct cid start count net)))
          = map sub_tx (submitted net) @ [Tx_batchMint cid (batchPayload acct cid start len)])
   \<and> (\<exists>fixed. batchMint this cid rs = Tx_batchMint cid fixed
        \<and> length fixed = length rs
        \<and> map accountId fixed = map accountId rs
        \<and> (\<forall>i<length rs.
              case params (rs ! i) of
                CreateToken t \<Rightarrow> params (fixed ! i) = CreateToken (fixMintCreateToken this t)
              | Mint m \<Rightarrow> fixed ! i = rs ! i))"
proof (intro conjI impI)
  show "unitPrice c = None \<Longrightarrow> fixMintCreateToken this c = c"
    by (rule fixMintCreateToken_no_price)
  show "\<not> registry_hasType (client_api this) ''EpMultiTokensPolicyMintSufficiencyParam'' \<Longrightarrow>
        fixMintCreateToken this c = c"
    by (simp add: fixMintCreateToken_def)
  show "\<forall>r\<in>set (batchPayload acct cid start len). \<exists>t. params r = CreateToken t \<and> unitPrice t = None"
    unfolding batchPayload_def by (simp add: Let_def)
  show "batchMint this cid (batchPayload acct cid start len)
        = Tx_batchMint cid (batchPayload acct cid start len)"
    by (rule batchMint_payload)
  show "map sub_tx (submitted (snd (mintBatch this api' acct cid start count net)))
          = map sub_tx (submitted net) @ [Tx_batchMint cid (batchPayload acct cid start len)]"
    if "arrayLength count = Inr len
        \<and> getHeader_answer net (headerCalls net) = Fulfilled h1
        \<and> getHeader_answer net (Suc (headerCalls net)) = Fulfilled h2"
    using that mintBatch_submits by blast
  let ?f = "\<lambda>recipient.
                   case params recipient of
                     CreateToken createToken \<Rightarrow>
                       \<lparr>accountId = accountId recipient,
                        params = CreateToken (fixMintCreateToken this createToken)\<rparr>
                   | Mint _ \<Rightarrow> recipient"
  have a: "batchMint this cid rs = Tx_batchMint cid (map ?f rs)"
    by (simp add: batchMint_def Let_def)
  have b: "map accountId (map ?f rs) = map accountId rs"
    by (induction rs) (simp_all split: mintParams.splits)
  have c: "\<forall>i<length rs.
              case params (rs ! i) of
                CreateToken t \<Rightarrow> params (map ?f rs ! i) = CreateToken (fixMintCreateToken this t)
              | Mint m \<Rightarrow> map ?f rs ! i = rs ! i"
    by (simp split: mintParams.splits)
  from a b c show "\<exists>fixed. batchMint this cid rs = Tx_batchMint cid fixed
        \<and> length fixed = length rs
        \<and> map accountId fixed = map accountId rs
        \<and> (\<forall>i<length rs.
              case params (rs ! i) of
                CreateToken t \<Rightarrow> params (fixed ! i) = CreateToken (fixMintCreateToken this t)
              | Mint m \<Rightarrow> fixed ! i = rs ! i)"
    by (intro exI[of _ "map ?f rs"]) simp
qed

text \<open>
  The theorem at a token without a price, at a priced token under a registry without
  the type, at a batch of two tokens, and at a list of a priced token and a top-up,
  where the fixup adds the sufficiency to the first and leaves the second.
\<close>

theorem mint_payload_unchanged_by_fixup_witness:
  "fixMintCreateToken \<lparr>client_api = sampleApi\<rparr> (sampleToken None) = sampleToken None
   \<and> fixMintCreateToken \<lparr>client_api = sampleApi\<lparr>registry_hasType := (\<lambda>name. False)\<rparr>\<rparr>
         (sampleToken (Some (Num 5))) = sampleToken (Some (Num 5))
   \<and> batchMint \<lparr>client_api = sampleApi\<rparr> (Num 42) (batchPayload alice (Num 42) (Num 1) 2)
       = Tx_batchMint (Num 42) (batchPayload alice (Num 42) (Num 1) 2)
   \<and> map sub_tx (submitted (snd (mintBatch \<lparr>client_api = sampleApi\<rparr> sampleApi alice (Num 42)
          (Num 1) (Num 2) (chain (\<lambda>n. StatusUpdates [statusInBlock])))))
       = [Tx_batchMint (Num 42) (batchPayload alice (Num 42) (Num 1) 2)]
   \<and> batchMint \<lparr>client_api = sampleApi\<rparr> (Num 42)
         [\<lparr>accountId = ''bob'', params = CreateToken (sampleToken (Some (Num 5)))\<rparr>,
          \<lparr>accountId = ''carol'',
            params = Mint \<lparr>mint_tokenId = Num 7, amount = Num 2, mint_unitPrice = None\<rparr>\<rparr>]
       = Tx_batchMint (Num 42)
         [\<lparr>accountId = ''bob'',
            params = CreateToken
              ((sampleToken (Some (Num 5)))\<lparr>sufficiency := Some (Insufficient (Num 5))\<rparr>)\<rparr>,
          \<lparr>accountId = ''carol'',
            params = Mint \<lparr>mint_tokenId = Num 7, amount = Num 2, mint_unitPrice = None\<rparr>\<rparr>]"
proof -
  have a: "arrayLength (Num 2) = Inr 2
        \<and> getHeader_answer (chain (\<lambda>n. StatusUpdates [statusInBlock]))
             (headerCalls (chain (\<lambda>n. StatusUpdates [statusInBlock])))
            = Fulfilled \<lparr>number = 100, hash = ''0xabc''\<rparr>
        \<and> getHeader_answer (chain (\<lambda>n. StatusUpdates [statusInBlock]))
             (Suc (headerCalls (chain (\<lambda>n. StatusUpdates [statusInBlock]))))
            = Fulfilled \<lparr>number = 101, hash = ''0xabc''\<rparr>"
    by (simp add: arrayLength_def chain_def)
  have b: "unitPrice (sampleToken None) = None"
    by (simp add: sampleToken_def)
  have c: "\<not> registry_hasType (client_api \<lparr>client_api = sampleApi\<lparr>registry_hasType := (\<lambda>name. False)\<rparr>\<rparr>)
             ''EpMultiTokensPolicyMintSufficiencyParam''"
    by simp
  note t1 = mint_payload_unchanged_by_fixup
    [of "sampleToken None" "\<lparr>client_api = sampleApi\<rparr>" alice "Num 42" "Num 1" 2 "Num 2"
        "chain (\<lambda>n. StatusUpdates [statusInBlock])" "\<lparr>number = 100, hash = ''0xabc''\<rparr>"
        "\<lparr>number = 101, hash = ''0xabc''\<rparr>" sampleApi "[]"]
  note t2 = mint_payload_unchanged_by_fixup
    [of "sampleToken (Some (Num 5))"
        "\<lparr>client_api = sampleApi\<lparr>registry_hasType := (\<lambda>name. False)\<rparr>\<rparr>"
        alice "Num 42" "Num 1" 2 "Num 2"
        "chain (\<lambda>n. StatusUpdates [statusInBlock])" "\<lparr>number = 100, hash = ''0xabc''\<rparr>"
        "\<lparr>number = 101, hash = ''0xabc''\<rparr>" sampleApi "[]"]
  from t1 b have 1: "fixMintCreateToken \<lparr>client_api = sampleApi\<rparr> (sampleToken None) = sampleToken None"
    by blast
  from t2 c have 2: "fixMintCreateToken \<lparr>client_api = sampleApi\<lparr>registry_hasType := (\<lambda>name. False)\<rparr>\<rparr>
         (sampleToken (Some (Num 5))) = sampleToken (Some (Num 5))"
    by blast
  from t1 have 3: "batchMint \<lparr>client_api = sampleApi\<rparr> (Num 42) (batchPayload alice (Num 42) (Num 1) 2)
       = Tx_batchMint (Num 42) (batchPayload alice (Num 42) (Num 1) 2)"
    by blast
  from t1 a have 4: "map sub_tx (submitted (snd (mintBatch \<lparr>client_api = sampleApi\<rparr> sampleApi alice (Num 42)
          (Num 1) (Num 2) (chain (\<lambda>n. StatusUpdates [statusInBlock])))))
       = map sub_tx (submitted (chain (\<lambda>n. StatusUpdates [statusInBlock])))
         @ [Tx_batchMint (Num 42) (batchPayload alice (Num 42) (Num 1) 2)]"
    by blast
  have 5: "submitted (chain (\<lambda>n. StatusUpdates [statusInBlock])) = []"
    by (simp add: chain_def)
  have 6: "batchMint \<lparr>client_api = sampleApi\<rparr> (Num 42)
         [\<lparr>accountId = ''bob'', params = CreateToken (sampleToken (Some (Num 5)))\<rparr>,
          \<lparr>accountId = ''carol'',
            params = Mint \<lparr>mint_tokenId = Num 7, amount = Num 2, mint_unitPrice = None\<rparr>\<rparr>]
       = Tx_batchMint (Num 42)
         [\<lparr>accountId = ''bob'',
            params = CreateToken
              ((sampleToken (Some (Num 5)))\<lparr>sufficiency := Some (Insufficient (Num 5))\<rparr>)\<rparr>,
          \<lparr>accountId = ''carol'',
            params = Mint \<lparr>mint_tokenId = Num 7, amount = Num 2, mint_unitPrice = None\<rparr>\<rparr>]"
    by (simp add: batchMint_def fixMintCreateToken_def sampleToken_def sampleApi_def)
  from 1 2 3 4 5 6 show ?thesis by simp
qed

subsection \<open>The batch plan\<close>

lemma batchPlan_nonneg:
  assumes "0 \<le> t" "1 \<le> b"
  shows "batchPlan t b =
     map (\<lambda>j. (j * b + 1, b)) [0..t div b - 1]
       @ (if 0 < t mod b then [((t div b) * b + 1, t mod b)] else [])"
proof -
  have "sgn t * (\<bar>t\<bar> mod \<bar>b\<bar>) = t mod b"
  proof (cases "t = 0")
    case True then show ?thesis by simp
  next
    case False
    with assms have "sgn t = 1" "\<bar>t\<bar> = t" "\<bar>b\<bar> = b" by simp_all
    then show ?thesis by simp
  qed
  then show ?thesis by (simp add: batchPlan_def Let_def)
qed

lemma batchPlan_length:
  assumes "0 \<le> t" "1 \<le> b"
  shows "length (batchPlan t b) = nat (t div b) + (if 0 < t mod b then 1 else 0)"
proof -
  from assms have "0 \<le> t div b" by (simp add: pos_imp_zdiv_nonneg_iff)
  then show ?thesis by (simp add: batchPlan_nonneg[OF assms])
qed

lemma batchPlan_nth:
  assumes "0 \<le> t" "1 \<le> b" "i < length (batchPlan t b)"
  shows "batchPlan t b ! i = (int i * b + 1, if int i < t div b then b else t mod b)"
proof -
  from assms have q: "0 \<le> t div b" by (simp add: pos_imp_zdiv_nonneg_iff)
  let ?full = "map (\<lambda>j. (j * b + 1, b)) [0..t div b - 1]"
  have len: "length ?full = nat (t div b)" using q by simp
  show ?thesis
  proof (cases "int i < t div b")
    case True
    then have il: "i < length ?full" using len by simp
    have "[0..t div b - 1] ! i = int i" using True by (simp add: nth_upto)
    with il True show ?thesis
      by (simp add: batchPlan_nonneg[OF assms(1,2)] nth_append)
  next
    case False
    with assms(3) q have r: "0 < t mod b" and i: "i = nat (t div b)"
      by (auto simp: batchPlan_length[OF assms(1,2)] split: if_splits)
    from i q have "int i = t div b" by simp
    with r i len False show ?thesis
      by (simp add: batchPlan_nonneg[OF assms(1,2)] nth_append)
  qed
qed

lemma full_batches_cover:
  assumes "1 \<le> (b::int)"
  shows "concat (map (\<lambda>j. [j * b + 1..j * b + b]) [0..int n - 1]) = [1..int n * b]"
proof (induction n)
  case 0
  show ?case by simp
next
  case (Suc n)
  have "[0..int (Suc n) - 1] = [0..int (Suc n) - 1 - 1] @ [int (Suc n) - 1]"
    by (rule upto_rec2) simp
  then have a: "[0..int (Suc n) - 1] = [0..int n - 1] @ [int n]"
    by simp
  have "[1..int n * b + b] = [1..(int n * b + 1) - 1] @ [int n * b + 1..int n * b + b]"
    by (rule upto_split1) (use assms in simp_all)
  moreover have "int (Suc n) * b = int n * b + b"
    by (simp add: algebra_simps)
  ultimately have b: "[1..int (Suc n) * b] = [1..int n * b] @ [int n * b + 1..int n * b + b]"
    by simp
  show ?case
    unfolding a b using Suc.IH by simp
qed

lemma batchPlan_cover:
  assumes "0 \<le> t" "1 \<le> b"
  shows "concat (map (\<lambda>(s, c). [s..s + c - 1]) (batchPlan t b)) = [1..t]"
proof -
  from assms have q: "0 \<le> t div b" by (simp add: pos_imp_zdiv_nonneg_iff)
  from assms have r: "0 \<le> t mod b" by simp
  have t: "t = (t div b) * b + t mod b" by simp
  have "concat (map (\<lambda>(s, c). [s..s + c - 1]) (map (\<lambda>j. (j * b + 1, b)) [0..t div b - 1]))
        = concat (map (\<lambda>j. [j * b + 1..j * b + b]) [0..int (nat (t div b)) - 1])"
    using q by (simp add: comp_def)
  also have "\<dots> = [1..int (nat (t div b)) * b]"
    by (rule full_batches_cover[OF assms(2)])
  finally have full:
    "concat (map (\<lambda>(s, c). [s..s + c - 1]) (map (\<lambda>j. (j * b + 1, b)) [0..t div b - 1]))
       = [1..(t div b) * b]"
    using q by simp
  show ?thesis
  proof (cases "0 < t mod b")
    case False
    with r have "t mod b = 0" by simp
    with t have "t = (t div b) * b" by simp
    with full False show ?thesis
      by (simp add: batchPlan_nonneg[OF assms])
  next
    case True
    have f1: "1 \<le> (t div b) * b + 1" using q assms by simp
    have f2: "(t div b) * b + 1 \<le> (t div b) * b + t mod b" using True by linarith
    have "[1..(t div b) * b + t mod b]
          = [1..((t div b) * b + 1) - 1] @ [(t div b) * b + 1..(t div b) * b + t mod b]"
      by (rule upto_split1[OF f1 f2])
    then have "[1..t] = [1..(t div b) * b] @ [(t div b) * b + 1..(t div b) * b + t mod b]"
      by simp
    with full True show ?thesis
      by (simp add: batchPlan_nonneg[OF assms])
  qed
qed

lemma batchPlan_sum:
  assumes "0 \<le> t" "1 \<le> b"
  shows "sum_list (map snd (batchPlan t b)) = t"
proof -
  from assms have q: "0 \<le> t div b" by (simp add: pos_imp_zdiv_nonneg_iff)
  have "sum_list (map snd (map (\<lambda>j. (j * b + 1, b)) [0..t div b - 1]))
        = sum_list (map (\<lambda>j. b) [0..t div b - 1])"
    by (simp add: comp_def)
  also have "\<dots> = int (length [0..t div b - 1]) * b"
    by (simp add: sum_list_triv)
  also have "\<dots> = (t div b) * b" using q by simp
  finally have full: "sum_list (map snd (map (\<lambda>j. (j * b + 1, b)) [0..t div b - 1])) = (t div b) * b" .
  have r: "0 \<le> t mod b" using assms by simp
  have t: "(t div b) * b + t mod b = t" by simp
  show ?thesis
  proof (cases "0 < t mod b")
    case True
    with full t show ?thesis by (simp add: batchPlan_nonneg[OF assms])
  next
    case False
    with r have "t mod b = 0" by simp
    with full t False show ?thesis by (simp add: batchPlan_nonneg[OF assms])
  qed
qed

lemma batchPlan_bounds:
  assumes "0 \<le> t" "1 \<le> b" "(s, c) \<in> set (batchPlan t b)"
  shows "0 < c \<and> c \<le> b"
proof -
  have "t mod b < b" using assms(2) by simp
  then have "t mod b \<le> b" by simp
  with assms show ?thesis
    by (auto simp: batchPlan_nonneg[OF assms(1,2)] split: if_splits)
qed

lemma batchPlan_empty:
  assumes "1 \<le> b"
  shows "batchPlan 0 b = []"
  using assms by (simp add: batchPlan_def)

lemma batchPlan_first:
  assumes "0 < t" "1 \<le> b"
  shows "batchPlan t b \<noteq> [] \<and> fst (hd (batchPlan t b)) = 1"
proof -
  from assms have t: "0 \<le> t" by simp
  have len: "0 < length (batchPlan t b)"
  proof (cases "0 < t mod b")
    case True
    then show ?thesis by (simp add: batchPlan_length[OF t assms(2)])
  next
    case False
    have "0 \<le> t mod b" using assms by simp
    with False have r0: "t mod b = 0" by simp
    have e: "t = b * (t div b) + t mod b" by (simp only: mult_div_mod_eq)
    have q: "0 \<le> t div b" using t assms(2) by (simp add: pos_imp_zdiv_nonneg_iff)
    have "t div b \<noteq> 0"
    proof
      assume "t div b = 0"
      with e r0 have "t = 0" by simp
      with assms(1) show False by simp
    qed
    with q have "0 < t div b" by simp
    then show ?thesis by (simp add: batchPlan_length[OF t assms(2)])
  qed
  then have ne: "batchPlan t b \<noteq> []" by simp
  from batchPlan_nth[OF t assms(2) len] have "fst (batchPlan t b ! 0) = 1" by simp
  with ne show ?thesis by (simp add: hd_conv_nth)
qed

lemma batchPlan_contiguous:
  assumes "0 \<le> t" "1 \<le> b" "Suc i < length (batchPlan t b)"
  shows "fst (batchPlan t b ! Suc i) = fst (batchPlan t b ! i) + snd (batchPlan t b ! i)"
proof -
  from assms(3) have i: "i < length (batchPlan t b)" by simp
  from assms(3) have "Suc i < nat (t div b) + 1"
    by (simp add: batchPlan_length[OF assms(1,2)] split: if_splits)
  then have "i < nat (t div b)" by simp
  then have "int i < t div b" by linarith
  then show ?thesis
    by (simp add: batchPlan_nth[OF assms(1,2) i] batchPlan_nth[OF assms(1,2,3)] algebra_simps)
qed

subsection \<open>Loops and their rounds\<close>

lemma forLoop_rounds:
  assumes "\<And>k. cond k \<longleftrightarrow> k < n"
  shows "forLoop cond body j s = rounds body [j..n - 1] s"
proof (induction "nat (n - j)" arbitrary: j s)
  case 0
  then have "\<not> j < n" by simp
  then have "\<not> cond j" and "[j..n - 1] = []" using assms by simp_all
  then show ?case by (subst forLoop.simps) simp
next
  case (Suc m)
  then have lt: "j < n" by linarith
  then have c: "cond j" using assms by simp
  from lt have l: "[j..n - 1] = j # [j + 1..n - 1]"
    by (intro upto_rec1) simp
  from Suc.hyps(2) have m: "m = nat (n - (j + 1))" by linarith
  have ih: "\<And>s'. forLoop cond body (j + 1) s' = rounds body [j + 1..n - 1] s'"
    by (rule Suc.hyps(1)[OF m])
  show ?case
    by (subst forLoop.simps) (simp add: c l ih split: option.splits prod.splits promise.splits)
qed

lemma rounds_append:
  "rounds body (xs @ ys) s =
     (case rounds body xs s of
        None \<Rightarrow> None
      | Some (Fulfilled u, s') \<Rightarrow> rounds body ys s'
      | Some (Rejected e, s') \<Rightarrow> Some (Rejected e, s')
      | Some (Pending, s') \<Rightarrow> Some (Pending, s'))"
  by (induction xs arbitrary: s) (simp_all split: option.splits prod.splits promise.splits)

lemma rounds_map: "rounds body (map f xs) s = rounds (\<lambda>x. body (f x)) xs s"
  by (induction xs arbitrary: s) (simp_all split: option.splits prod.splits promise.splits)

lemma rounds_single:
  "rounds body [x] s =
     (case body x s of
        None \<Rightarrow> None
      | Some (Fulfilled u, s') \<Rightarrow> Some (Fulfilled (), s')
      | Some (Rejected e, s') \<Rightarrow> Some (Rejected e, s')
      | Some (Pending, s') \<Rightarrow> Some (Pending, s'))"
  by (simp split: option.splits prod.splits promise.splits)

lemma forLoop_invariant:
  assumes run: "forLoop cond body j s = Some y"
    and step: "\<And>j s r s'. I s \<Longrightarrow> body j s = Some (r, s') \<Longrightarrow> I s'"
    and init: "I s"
  shows "I (snd y)"
proof -
  let ?P = "\<lambda>(c :: int \<Rightarrow> bool) (b :: int \<Rightarrow> 'a \<Rightarrow> (unit promise \<times> 'a) option) (j :: int) s y.
              (\<forall>j s r s'. I s \<longrightarrow> b j s = Some (r, s') \<longrightarrow> I s') \<longrightarrow> I s \<longrightarrow> I (snd y)"
  have "?P cond body j s y"
  proof (rule forLoop.raw_induct[where P = ?P, OF _ run])
    fix loop :: "(int \<Rightarrow> bool) \<Rightarrow> (int \<Rightarrow> 'a \<Rightarrow> (unit promise \<times> 'a) option) \<Rightarrow> int \<Rightarrow> 'a
                  \<Rightarrow> (unit promise \<times> 'a) option"
      and c b j s y
    assume ih: "\<And>c b j s y. loop c b j s = Some y \<Longrightarrow> ?P c b j s y"
      and eq: "(if c j
                then case b j s of
                       None \<Rightarrow> None
                     | Some (Fulfilled x, s') \<Rightarrow> loop c b (j + 1) s'
                     | Some (Rejected e, s') \<Rightarrow> Some (Rejected e, s')
                     | Some (Pending, s') \<Rightarrow> Some (Pending, s')
                else Some (Fulfilled (), s)) = Some y"
    show "?P c b j s y"
    proof (intro impI)
      assume st: "\<forall>j s r s'. I s \<longrightarrow> b j s = Some (r, s') \<longrightarrow> I s'" and i: "I s"
      show "I (snd y)"
      proof (cases "c j")
        case False
        with eq i show ?thesis by auto
      next
        case True
        with eq obtain r s1 where bd: "b j s = Some (r, s1)"
          by (cases "b j s") auto
        from st i bd have i1: "I s1" by blast
        show ?thesis
        proof (cases r)
          case (Fulfilled u)
          with eq True bd have "loop c b (j + 1) s1 = Some y" by simp
          from ih[OF this] st i1 show ?thesis by blast
        next
          case (Rejected e)
          with eq True bd i1 show ?thesis by auto
        next
          case Pending
          with eq True bd i1 show ?thesis by auto
        qed
      qed
    qed
  qed
  with step init show ?thesis by blast
qed

subsection \<open>What the calls do to the chain\<close>

lemma signAndSend_zero: "signAndSend origin tx (Num 0) net = signAndSendOnce origin tx net"
  by (simp add: signAndSend_def js_gt_def split: prod.splits promise.splits)

lemma signAndSendOnce_effect:
  assumes "getHeader_answer net (headerCalls net) = Fulfilled h"
  shows "signAndSendOnce origin tx net =
     (outcomeOf net (length (submitted net)),
      net\<lparr>headerCalls := Suc (headerCalls net),
          submitted := submitted net @
            [\<lparr>sub_origin = origin, sub_tx = tx,
              sub_options = \<lparr>nonce = - 1, era = \<lparr>current = number h, period = 1024\<rparr>,
                             blockHash = hash h\<rparr>\<rparr>]\<rparr>)"
  using assms
  by (simp add: signAndSendOnce_def getHeader_def outcomeOf_def Let_def split: broadcast.splits)

lemma signAndSendOnce_frame:
  assumes "signAndSendOnce origin tx net = (r, net')"
  shows "getHeader_answer net' = getHeader_answer net
       \<and> signAndSend_answer net' = signAndSend_answer net
       \<and> (submitted net' = submitted net \<and> (\<forall>evs. r \<noteq> Fulfilled evs)
          \<or> (\<exists>opts. submitted net' = submitted net @ [\<lparr>sub_origin = origin, sub_tx = tx, sub_options = opts\<rparr>])
             \<and> r = outcomeOf net (length (submitted net)))"
proof (cases "getHeader_answer net (headerCalls net)")
  case (Fulfilled h)
  from signAndSendOnce_effect[OF this, of origin tx] assms show ?thesis by auto
next
  case (Rejected e)
  with assms show ?thesis by (auto simp: signAndSendOnce_def getHeader_def)
next
  case Pending
  with assms show ?thesis by (auto simp: signAndSendOnce_def getHeader_def)
qed

lemma mintBatch_effect:
  assumes len: "arrayLength count = Inr len"
    and h1: "getHeader_answer net (headerCalls net) = Fulfilled h1"
    and h2: "getHeader_answer net (Suc (headerCalls net)) = Fulfilled h2"
    and settled: "outcomeOf net (length (submitted net)) \<noteq> Pending"
  shows "mintBatch client api' acct cid start count net =
     (Fulfilled (),
      net\<lparr>headerCalls := headerCalls net + 2,
          submitted := submitted net @
            [\<lparr>sub_origin = acct,
              sub_tx = Tx_batchMint cid (batchPayload acct cid start len),
              sub_options = \<lparr>nonce = - 1, era = \<lparr>current = number h2, period = 1024\<rparr>,
                             blockHash = hash h2\<rparr>\<rparr>],
          console := console net @
            (case outcomeOf net (length (submitted net)) of
               Fulfilled evs \<Rightarrow> [Log (mintedMessage start count (number h1))]
             | Rejected e \<Rightarrow> [ErrorText (mintErrorMessage start count), ErrorValue e]
             | Pending \<Rightarrow> [])\<rparr>)"
proof -
  let ?net1 = "net\<lparr>headerCalls := Suc (headerCalls net)\<rparr>"
  have g: "getHeader net = (Fulfilled h1, ?net1)"
    by (simp add: getHeader_def h1)
  have h2': "getHeader_answer ?net1 (headerCalls ?net1) = Fulfilled h2"
    by (simp add: h2)
  note s = signAndSendOnce_effect[OF h2', of acct "Tx_batchMint cid (batchPayload acct cid start len)"]
  show ?thesis
    using settled
    by (cases "outcomeOf net (length (submitted net))")
       (simp_all add: mintBatch_def len g signAndSend_zero s batchMint_payload outcomeOf_def
          console_log_def Let_def)
qed

lemma outcomeOf_cong:
  "signAndSend_answer a = signAndSend_answer b \<Longrightarrow> outcomeOf a = outcomeOf b"
  by (rule ext) (simp add: outcomeOf_def)

lemma mintLines_cong:
  "getHeader_answer a = getHeader_answer b \<Longrightarrow> signAndSend_answer a = signAndSend_answer b \<Longrightarrow>
   mintLines a = mintLines b"
  by (intro ext) (simp add: mintLines_def outcomeOf_def split: promise.splits)

lemma createdId_cong:
  "signAndSend_answer a = signAndSend_answer b \<Longrightarrow> createdId api' a = createdId api' b"
  by (rule ext) (simp add: createdId_def outcomeOf_def)

lemma arrayLength_Num: "c < 2 ^ 32 \<Longrightarrow> arrayLength (Num c) = Inr (nat c)"
  by (simp add: arrayLength_def)

lemma mintBatches_trace:
  assumes hdr: "\<forall>n. \<exists>h. getHeader_answer net n = Fulfilled h"
    and settled: "\<forall>n. outcomeOf net n \<noteq> Pending"
    and sizes: "\<forall>(s, c)\<in>set plan. c < 2 ^ 32"
  shows "\<exists>net'. rounds (\<lambda>(s, c) st. Some (mintBatch client api' acct cid (Num s) (Num c) st)) plan net
                 = Some (Fulfilled (), net')
     \<and> getHeader_answer net' = getHeader_answer net
     \<and> signAndSend_answer net' = signAndSend_answer net
     \<and> unhandled net' = unhandled net
     \<and> headerCalls net' = headerCalls net + 2 * length plan
     \<and> length (submitted net') = length (submitted net) + length plan
     \<and> map sub_tx (submitted net') =
         map sub_tx (submitted net)
           @ map (\<lambda>(s, c). Tx_batchMint cid (batchPayload acct cid (Num s) (nat c))) plan
     \<and> console net' =
         console net
           @ concat (map (\<lambda>k. mintLines net (plan ! k) (headerCalls net + 2 * k)
                                  (length (submitted net) + k)) [0..<length plan])"
  using assms
proof (induction plan arbitrary: net)
  case Nil
  show ?case by simp
next
  case (Cons x plan)
  obtain s c where x: "x = (s, c)" by (cases x)
  from Cons.prems(1) obtain h1 where h1: "getHeader_answer net (headerCalls net) = Fulfilled h1"
    by blast
  from Cons.prems(1) obtain h2 where h2: "getHeader_answer net (Suc (headerCalls net)) = Fulfilled h2"
    by blast
  from Cons.prems(3) x have c: "c < 2 ^ 32" by simp
  from Cons.prems(2) have st: "outcomeOf net (length (submitted net)) \<noteq> Pending" by simp
  let ?lines = "case outcomeOf net (length (submitted net)) of
               Fulfilled evs \<Rightarrow> [Log (mintedMessage (Num s) (Num c) (number h1))]
             | Rejected e \<Rightarrow> [ErrorText (mintErrorMessage (Num s) (Num c)), ErrorValue e]
             | Pending \<Rightarrow> []"
  define net1 where "net1 = net\<lparr>headerCalls := headerCalls net + 2,
          submitted := submitted net @
            [\<lparr>sub_origin = acct,
              sub_tx = Tx_batchMint cid (batchPayload acct cid (Num s) (nat c)),
              sub_options = \<lparr>nonce = - 1, era = \<lparr>current = number h2, period = 1024\<rparr>,
                             blockHash = hash h2\<rparr>\<rparr>],
          console := console net @ ?lines\<rparr>"
  have mb: "mintBatch client api' acct cid (Num s) (Num c) net = (Fulfilled (), net1)"
    unfolding net1_def by (rule mintBatch_effect[OF arrayLength_Num[OF c] h1 h2 st])
  have a1: "getHeader_answer net1 = getHeader_answer net"
    and a2: "signAndSend_answer net1 = signAndSend_answer net"
    and a3: "unhandled net1 = unhandled net"
    and a4: "headerCalls net1 = headerCalls net + 2"
    and a5: "submitted net1 = submitted net @
            [\<lparr>sub_origin = acct,
              sub_tx = Tx_batchMint cid (batchPayload acct cid (Num s) (nat c)),
              sub_options = \<lparr>nonce = - 1, era = \<lparr>current = number h2, period = 1024\<rparr>,
                             blockHash = hash h2\<rparr>\<rparr>]"
    and a6: "console net1 = console net @ ?lines"
    by (simp_all add: net1_def)
  have p1: "\<forall>n. \<exists>h. getHeader_answer net1 n = Fulfilled h"
    using Cons.prems(1) a1 by simp
  have p2: "\<forall>n. outcomeOf net1 n \<noteq> Pending"
    using Cons.prems(2) outcomeOf_cong[OF a2] by simp
  have p3: "\<forall>(s, c)\<in>set plan. c < 2 ^ 32"
    using Cons.prems(3) by simp
  from Cons.IH[OF p1 p2 p3] obtain net' where
    r: "rounds (\<lambda>(s, c) st. Some (mintBatch client api' acct cid (Num s) (Num c) st)) plan net1
          = Some (Fulfilled (), net')"
    and f1: "getHeader_answer net' = getHeader_answer net1"
    and f2: "signAndSend_answer net' = signAndSend_answer net1"
    and f3: "unhandled net' = unhandled net1"
    and f4: "headerCalls net' = headerCalls net1 + 2 * length plan"
    and f5: "length (submitted net') = length (submitted net1) + length plan"
    and f6: "map sub_tx (submitted net') =
         map sub_tx (submitted net1)
           @ map (\<lambda>(s, c). Tx_batchMint cid (batchPayload acct cid (Num s) (nat c))) plan"
    and f7: "console net' =
         console net1
           @ concat (map (\<lambda>k. mintLines net1 (plan ! k) (headerCalls net1 + 2 * k)
                                  (length (submitted net1) + k)) [0..<length plan])"
    by blast
  have l0: "?lines = mintLines net (s, c) (headerCalls net) (length (submitted net))"
    by (simp add: mintLines_def h1 split: promise.splits)
  have ml: "mintLines net1 = mintLines net"
    by (rule mintLines_cong[OF a1 a2])
  have shift: "map (\<lambda>k. mintLines net ((x # plan) ! k) (headerCalls net + 2 * k)
                                  (length (submitted net) + k)) [0..<length (x # plan)]
      = mintLines net (s, c) (headerCalls net) (length (submitted net))
        # map (\<lambda>k. mintLines net (plan ! k) (headerCalls net + 2 + 2 * k)
                                  (Suc (length (submitted net)) + k)) [0..<length plan]"
    by (simp add: map_upt_Suc x del: upt_Suc)
  have g1: "rounds (\<lambda>(s, c) st. Some (mintBatch client api' acct cid (Num s) (Num c) st)) (x # plan) net
                 = Some (Fulfilled (), net')"
    by (simp add: x mb r)
  have g7: "console net' =
         console net
           @ concat (map (\<lambda>k. mintLines net ((x # plan) ! k) (headerCalls net + 2 * k)
                                  (length (submitted net) + k)) [0..<length (x # plan)])"
    unfolding shift using f7 by (simp add: ml l0 a4 a5 a6)
  have g6: "map sub_tx (submitted net') =
         map sub_tx (submitted net)
           @ map (\<lambda>(s, c). Tx_batchMint cid (batchPayload acct cid (Num s) (nat c))) (x # plan)"
    using f6 by (simp add: x a5)
  from g1 g6 g7 f1 f2 f3 f4 f5 show ?case
    by (intro exI[of _ net']) (simp add: a1 a2 a3 a4 a5)
qed

lemma mint_phase_plan:
  assumes b: "b \<noteq> 0"
  shows "(case forLoop (\<lambda>j. js_lt (Num j) (js_floor_div (Num t) (Num b)))
                (\<lambda>j s. Some (mintBatch client api' acct cid
                                (js_add (js_mul (Num j) (Num b)) (Num 1)) (Num b) s))
                0 net2 of
            None \<Rightarrow> None
          | Some (Rejected e, net3) \<Rightarrow> Some (Rejected e, net3)
          | Some (Pending, net3) \<Rightarrow> Some (Pending, net3)
          | Some (Fulfilled u, net3) \<Rightarrow>
              (if js_gt (js_rem (Num t) (Num b)) (Num 0)
               then Some (mintBatch client api' acct cid
                            (js_add (js_mul (js_floor_div (Num t) (Num b)) (Num b)) (Num 1))
                            (js_rem (Num t) (Num b)) net3)
               else Some (Fulfilled (), net3)))
         = rounds (\<lambda>(s, c) st. Some (mintBatch client api' acct cid (Num s) (Num c) st))
             (batchPlan t b) net2"
proof -
  let ?mb = "\<lambda>(s, c) st. Some (mintBatch client api' acct cid (Num s) (Num c) st)"
  let ?q = "t div b"
  let ?r = "sgn t * (\<bar>t\<bar> mod \<bar>b\<bar>)"
  have fd: "js_floor_div (Num t) (Num b) = Num ?q" using b by simp
  have rm: "js_rem (Num t) (Num b) = Num ?r" using b by simp
  have loop: "forLoop (\<lambda>j. js_lt (Num j) (Num ?q))
                (\<lambda>j s. Some (mintBatch client api' acct cid
                                (js_add (js_mul (Num j) (Num b)) (Num 1)) (Num b) s))
                0 net2
              = rounds (\<lambda>j s. Some (mintBatch client api' acct cid
                                (js_add (js_mul (Num j) (Num b)) (Num 1)) (Num b) s))
                  [0..?q - 1] net2"
    by (rule forLoop_rounds) simp
  have "rounds ?mb (map (\<lambda>j. (j * b + 1, b)) [0..?q - 1]) net2
        = rounds (\<lambda>j. ?mb (j * b + 1, b)) [0..?q - 1] net2"
    by (rule rounds_map)
  then have full: "rounds (\<lambda>j s. Some (mintBatch client api' acct cid
                                (js_add (js_mul (Num j) (Num b)) (Num 1)) (Num b) s))
                  [0..?q - 1] net2
                = rounds ?mb (map (\<lambda>j. (j * b + 1, b)) [0..?q - 1]) net2"
    by simp
  show ?thesis
    unfolding fd rm loop full batchPlan_def Let_def
    by (simp add: rounds_append js_gt_def split: option.splits prod.splits promise.splits)
qed

lemma collectionRound_plan:
  assumes b: "b \<noteq> 0"
  shows "collectionRound client api' acct (Num t) (Num b) col net =
     (case signAndSendReturningEvent acct
             (createCollection client (Some (Num t)) (Some (Num 1)) False None [])
             (events_multiTokens_CollectionCreated api')
             (console_log [Log (''Creating collection '' @ toString (Num col))] net) of
        (Rejected e, net1) \<Rightarrow> Some (Rejected e, net1)
      | (Pending, net1) \<Rightarrow> Some (Pending, net1)
      | (Fulfilled ev, net1) \<Rightarrow>
          rounds (\<lambda>(s, c) st. Some (mintBatch client api' acct (Number_data0 ev) (Num s) (Num c) st))
            (batchPlan t b)
            (console_log
               [Log (''Collection '' @ toString (Num col) @ '' created with id: ''
                     @ toString (Number_data0 ev))] net1))"
proof -
  obtain r net1 where s: "signAndSendReturningEvent acct
             (createCollection client (Some (Num t)) (Some (Num 1)) False None [])
             (events_multiTokens_CollectionCreated api')
             (console_log [Log (''Creating collection '' @ toString (Num col))] net) = (r, net1)"
    by (cases "signAndSendReturningEvent acct
             (createCollection client (Some (Num t)) (Some (Num 1)) False None [])
             (events_multiTokens_CollectionCreated api')
             (console_log [Log (''Creating collection '' @ toString (Num col))] net)")
  show ?thesis
    unfolding collectionRound_def Let_def s
    by (cases r) (simp_all only: prod.case promise.case mint_phase_plan[OF b])
qed

lemma signAndSendReturningEvent_effect:
  assumes h: "getHeader_answer net (headerCalls net) = Fulfilled h"
    and out: "outcomeOf net (length (submitted net)) = Fulfilled evs"
    and ev: "getEventFromEvents evs eventIs = Some ev"
  shows "signAndSendReturningEvent origin tx eventIs net =
     (Fulfilled ev,
      net\<lparr>headerCalls := Suc (headerCalls net),
          submitted := submitted net @
            [\<lparr>sub_origin = origin, sub_tx = tx,
              sub_options = \<lparr>nonce = - 1, era = \<lparr>current = number h, period = 1024\<rparr>,
                             blockHash = hash h\<rparr>\<rparr>]\<rparr>)"
  by (simp add: signAndSendReturningEvent_def signAndSend_zero signAndSendOnce_effect[OF h] out
        getEventFromEventsOrThrow_def ev)

lemma collectionRound_trace:
  assumes hdr: "\<forall>n. \<exists>h. getHeader_answer net n = Fulfilled h"
    and settled: "\<forall>n. outcomeOf net n \<noteq> Pending"
    and t: "0 \<le> t" and b: "1 \<le> b" "b < 2 ^ 32"
    and out: "outcomeOf net (length (submitted net)) = Fulfilled evs"
    and ev: "getEventFromEvents evs (events_multiTokens_CollectionCreated api') = Some ev"
  shows "\<exists>net'. collectionRound client api' acct (Num t) (Num b) col net = Some (Fulfilled (), net')
     \<and> getHeader_answer net' = getHeader_answer net
     \<and> signAndSend_answer net' = signAndSend_answer net
     \<and> unhandled net' = unhandled net
     \<and> headerCalls net' = headerCalls net + 1 + 2 * length (batchPlan t b)
     \<and> length (submitted net') = length (submitted net) + 1 + length (batchPlan t b)
     \<and> map sub_tx (submitted net') =
         map sub_tx (submitted net)
           @ createCollection client (Some (Num t)) (Some (Num 1)) False None []
           # map (\<lambda>(s, c). Tx_batchMint (Number_data0 ev)
                               (batchPayload acct (Number_data0 ev) (Num s) (nat c)))
               (batchPlan t b)
     \<and> console net' =
         console net
           @ [Log (''Creating collection '' @ toString (Num col)),
              Log (''Collection '' @ toString (Num col) @ '' created with id: ''
                   @ toString (Number_data0 ev))]
           @ concat (map (\<lambda>k. mintLines net (batchPlan t b ! k) (headerCalls net + 1 + 2 * k)
                                  (length (submitted net) + 1 + k))
                       [0..<length (batchPlan t b)])"
proof -
  let ?tx = "createCollection client (Some (Num t)) (Some (Num 1)) False None []"
  let ?cid = "Number_data0 ev"
  from hdr obtain h where h: "getHeader_answer net (headerCalls net) = Fulfilled h" by blast
  define net0 where "net0 = console_log [Log (''Creating collection '' @ toString (Num col))] net"
  define net1 where "net1 = net0\<lparr>headerCalls := Suc (headerCalls net0),
          submitted := submitted net0 @
            [\<lparr>sub_origin = acct, sub_tx = ?tx,
              sub_options = \<lparr>nonce = - 1, era = \<lparr>current = number h, period = 1024\<rparr>,
                             blockHash = hash h\<rparr>\<rparr>]\<rparr>"
  define net2 where "net2 = console_log
               [Log (''Collection '' @ toString (Num col) @ '' created with id: ''
                     @ toString ?cid)] net1"
  have n0: "getHeader_answer net0 = getHeader_answer net" "signAndSend_answer net0 = signAndSend_answer net"
    "unhandled net0 = unhandled net" "headerCalls net0 = headerCalls net"
    "submitted net0 = submitted net"
    "console net0 = console net @ [Log (''Creating collection '' @ toString (Num col))]"
    by (simp_all add: net0_def console_log_def)
  have n2: "getHeader_answer net2 = getHeader_answer net" "signAndSend_answer net2 = signAndSend_answer net"
    "unhandled net2 = unhandled net" "headerCalls net2 = Suc (headerCalls net)"
    "submitted net2 = submitted net @
            [\<lparr>sub_origin = acct, sub_tx = ?tx,
              sub_options = \<lparr>nonce = - 1, era = \<lparr>current = number h, period = 1024\<rparr>,
                             blockHash = hash h\<rparr>\<rparr>]"
    "console net2 = console net @ [Log (''Creating collection '' @ toString (Num col)),
              Log (''Collection '' @ toString (Num col) @ '' created with id: ''
                   @ toString ?cid)]"
    by (simp_all add: net2_def net1_def console_log_def n0)
  have h0: "getHeader_answer net0 (headerCalls net0) = Fulfilled h"
    by (simp add: n0 h)
  have o0: "outcomeOf net0 (length (submitted net0)) = Fulfilled evs"
    using out outcomeOf_cong[OF n0(2)] by (simp add: n0)
  have se: "signAndSendReturningEvent acct ?tx (events_multiTokens_CollectionCreated api') net0
            = (Fulfilled ev, net1)"
    unfolding net1_def by (rule signAndSendReturningEvent_effect[OF h0 o0 ev])
  have b0: "b \<noteq> 0" using b by simp
  have cr: "collectionRound client api' acct (Num t) (Num b) col net
            = rounds (\<lambda>(s, c) st. Some (mintBatch client api' acct ?cid (Num s) (Num c) st))
                (batchPlan t b) net2"
    unfolding collectionRound_plan[OF b0] net0_def[symmetric] se net2_def by simp
  have p1: "\<forall>n. \<exists>h. getHeader_answer net2 n = Fulfilled h" using hdr by (simp add: n2)
  have p2: "\<forall>n. outcomeOf net2 n \<noteq> Pending"
    using settled outcomeOf_cong[OF n2(2)] by simp
  have p3: "\<forall>(s, c)\<in>set (batchPlan t b). c < 2 ^ 32"
  proof (clarify)
    fix s c assume "(s, c) \<in> set (batchPlan t b)"
    from batchPlan_bounds[OF t b(1) this] b(2) show "c < 2 ^ 32" by simp
  qed
  from mintBatches_trace[OF p1 p2 p3, of client api' acct ?cid] obtain net' where
    r: "rounds (\<lambda>(s, c) st. Some (mintBatch client api' acct ?cid (Num s) (Num c) st))
          (batchPlan t b) net2 = Some (Fulfilled (), net')"
    and f1: "getHeader_answer net' = getHeader_answer net2"
    and f2: "signAndSend_answer net' = signAndSend_answer net2"
    and f3: "unhandled net' = unhandled net2"
    and f4: "headerCalls net' = headerCalls net2 + 2 * length (batchPlan t b)"
    and f5: "length (submitted net') = length (submitted net2) + length (batchPlan t b)"
    and f6: "map sub_tx (submitted net') =
         map sub_tx (submitted net2)
           @ map (\<lambda>(s, c). Tx_batchMint ?cid (batchPayload acct ?cid (Num s) (nat c))) (batchPlan t b)"
    and f7: "console net' =
         console net2
           @ concat (map (\<lambda>k. mintLines net2 (batchPlan t b ! k) (headerCalls net2 + 2 * k)
                                  (length (submitted net2) + k)) [0..<length (batchPlan t b)])"
    by blast
  have ml: "mintLines net2 = mintLines net"
    by (rule mintLines_cong[OF n2(1) n2(2)])
  have g7: "console net' =
         console net
           @ [Log (''Creating collection '' @ toString (Num col)),
              Log (''Collection '' @ toString (Num col) @ '' created with id: ''
                   @ toString ?cid)]
           @ concat (map (\<lambda>k. mintLines net (batchPlan t b ! k) (headerCalls net + 1 + 2 * k)
                                  (length (submitted net) + 1 + k))
                       [0..<length (batchPlan t b)])"
    using f7 by (simp add: ml n2)
  have g6: "map sub_tx (submitted net') =
         map sub_tx (submitted net)
           @ ?tx # map (\<lambda>(s, c). Tx_batchMint ?cid (batchPayload acct ?cid (Num s) (nat c)))
               (batchPlan t b)"
    using f6 by (simp add: n2)
  from cr r g6 g7 f1 f2 f3 f4 f5 show ?thesis
    by (intro exI[of _ net']) (simp add: n2)
qed

lemma createdId_Some:
  "createdId api' net k = Some cid \<longleftrightarrow>
   (\<exists>evs ev. outcomeOf net k = Fulfilled evs
      \<and> getEventFromEvents evs (events_multiTokens_CollectionCreated api') = Some ev
      \<and> cid = Number_data0 ev)"
  by (auto simp: createdId_def split: promise.splits option.splits)

lemma collectionRound_trace':
  assumes hdr: "\<forall>n. \<exists>h. getHeader_answer net n = Fulfilled h"
    and settled: "\<forall>n. outcomeOf net n \<noteq> Pending"
    and t: "0 \<le> t" and b: "1 \<le> b" "b < 2 ^ 32"
    and cid: "createdId api' net (length (submitted net)) = Some cid"
  shows "\<exists>net'. collectionRound client api' acct (Num t) (Num b) col net = Some (Fulfilled (), net')
     \<and> getHeader_answer net' = getHeader_answer net
     \<and> signAndSend_answer net' = signAndSend_answer net
     \<and> unhandled net' = unhandled net
     \<and> headerCalls net' = headerCalls net + (1 + 2 * length (batchPlan t b))
     \<and> length (submitted net') = length (submitted net) + Suc (length (batchPlan t b))
     \<and> map sub_tx (submitted net') = map sub_tx (submitted net) @ collectionTxs client acct t b cid
     \<and> console net' =
         console net @ collectionLines net t b col cid (headerCalls net) (length (submitted net))"
proof -
  from cid obtain evs ev where out: "outcomeOf net (length (submitted net)) = Fulfilled evs"
    and ev: "getEventFromEvents evs (events_multiTokens_CollectionCreated api') = Some ev"
    and c: "cid = Number_data0 ev"
    unfolding createdId_Some by blast
  from collectionRound_trace[OF hdr settled t b out ev, of client acct col]
  show ?thesis
    unfolding collectionTxs_def collectionLines_def c by simp
qed

lemma collections_trace:
  assumes hdr: "\<forall>n. \<exists>h. getHeader_answer net n = Fulfilled h"
    and settled: "\<forall>n. outcomeOf net n \<noteq> Pending"
    and t: "0 \<le> t" and b: "1 \<le> b" "b < 2 ^ 32"
    and created: "\<forall>i<length cols.
        createdId api' net (length (submitted net) + i * Suc (length (batchPlan t b))) \<noteq> None"
  shows "\<exists>net'. rounds (collectionRound client api' acct (Num t) (Num b)) cols net
                 = Some (Fulfilled (), net')
     \<and> getHeader_answer net' = getHeader_answer net
     \<and> signAndSend_answer net' = signAndSend_answer net
     \<and> unhandled net' = unhandled net
     \<and> headerCalls net' = headerCalls net + length cols * (1 + 2 * length (batchPlan t b))
     \<and> length (submitted net') = length (submitted net) + length cols * Suc (length (batchPlan t b))
     \<and> map sub_tx (submitted net') =
         map sub_tx (submitted net)
           @ concat (map (\<lambda>i. collectionTxs client acct t b
                            (the (createdId api' net
                               (length (submitted net) + i * Suc (length (batchPlan t b))))))
                       [0..<length cols])
     \<and> console net' =
         console net
           @ concat (map (\<lambda>i. collectionLines net t b (cols ! i)
                            (the (createdId api' net
                               (length (submitted net) + i * Suc (length (batchPlan t b)))))
                            (headerCalls net + i * (1 + 2 * length (batchPlan t b)))
                            (length (submitted net) + i * Suc (length (batchPlan t b))))
                       [0..<length cols])"
  using hdr settled created
proof (induction cols arbitrary: net)
  case Nil
  show ?case by simp
next
  case (Cons col cols)
  let ?n = "length (batchPlan t b)"
  from Cons.prems(3) have "createdId api' net (length (submitted net) + 0 * Suc ?n) \<noteq> None"
    by blast
  then obtain cid where cid: "createdId api' net (length (submitted net)) = Some cid"
    by auto
  from collectionRound_trace'[OF Cons.prems(1,2) t b cid, of client acct col] obtain net1 where
    cr: "collectionRound client api' acct (Num t) (Num b) col net = Some (Fulfilled (), net1)"
    and a1: "getHeader_answer net1 = getHeader_answer net"
    and a2: "signAndSend_answer net1 = signAndSend_answer net"
    and a3: "unhandled net1 = unhandled net"
    and a4: "headerCalls net1 = headerCalls net + (1 + 2 * ?n)"
    and a5: "length (submitted net1) = length (submitted net) + Suc ?n"
    and a6: "map sub_tx (submitted net1) = map sub_tx (submitted net) @ collectionTxs client acct t b cid"
    and a7: "console net1 =
         console net @ collectionLines net t b col cid (headerCalls net) (length (submitted net))"
    by blast
  have ci: "createdId api' net1 = createdId api' net" by (rule createdId_cong[OF a2])
  have cl: "collectionLines net1 = collectionLines net"
    by (intro ext) (simp add: collectionLines_def mintLines_cong[OF a1 a2])
  have p1: "\<forall>n. \<exists>h. getHeader_answer net1 n = Fulfilled h" using Cons.prems(1) a1 by simp
  have p2: "\<forall>n. outcomeOf net1 n \<noteq> Pending" using Cons.prems(2) outcomeOf_cong[OF a2] by simp
  have p3: "\<forall>i<length cols.
        createdId api' net1 (length (submitted net1) + i * Suc ?n) \<noteq> None"
  proof (intro allI impI)
    fix i assume "i < length cols"
    then have "Suc i < length (col # cols)" by simp
    with Cons.prems(3) have c1: "createdId api' net (length (submitted net) + Suc i * Suc ?n) \<noteq> None"
      by blast
    have e: "length (submitted net) + Suc i * Suc ?n = length (submitted net1) + i * Suc ?n"
      by (simp add: a5)
    from c1 have "createdId api' net (length (submitted net1) + i * Suc ?n) \<noteq> None"
      unfolding e .
    then show "createdId api' net1 (length (submitted net1) + i * Suc ?n) \<noteq> None"
      unfolding ci .
  qed
  from Cons.IH[OF p1 p2 p3] obtain net' where
    r: "rounds (collectionRound client api' acct (Num t) (Num b)) cols net1 = Some (Fulfilled (), net')"
    and f1: "getHeader_answer net' = getHeader_answer net1"
    and f2: "signAndSend_answer net' = signAndSend_answer net1"
    and f3: "unhandled net' = unhandled net1"
    and f4: "headerCalls net' = headerCalls net1 + length cols * (1 + 2 * ?n)"
    and f5: "length (submitted net') = length (submitted net1) + length cols * Suc ?n"
    and f6: "map sub_tx (submitted net') =
         map sub_tx (submitted net1)
           @ concat (map (\<lambda>i. collectionTxs client acct t b
                            (the (createdId api' net1 (length (submitted net1) + i * Suc ?n))))
                       [0..<length cols])"
    and f7: "console net' =
         console net1
           @ concat (map (\<lambda>i. collectionLines net1 t b (cols ! i)
                            (the (createdId api' net1 (length (submitted net1) + i * Suc ?n)))
                            (headerCalls net1 + i * (1 + 2 * ?n))
                            (length (submitted net1) + i * Suc ?n))
                       [0..<length cols])"
    by blast
  have idx: "\<And>i. length (submitted net1) + i * Suc ?n = length (submitted net) + Suc i * Suc ?n"
    by (simp add: a5)
  have hidx: "\<And>i. headerCalls net1 + i * (1 + 2 * ?n) = headerCalls net + Suc i * (1 + 2 * ?n)"
    by (simp add: a4)
  have g1: "rounds (collectionRound client api' acct (Num t) (Num b)) (col # cols) net
            = Some (Fulfilled (), net')"
    by (simp add: cr r)
  have g6: "map sub_tx (submitted net') =
         map sub_tx (submitted net)
           @ concat (map (\<lambda>i. collectionTxs client acct t b
                            (the (createdId api' net (length (submitted net) + i * Suc ?n))))
                       [0..<length (col # cols)])"
    unfolding f6 a6 ci idx
    by (simp add: map_upt_Suc cid del: upt_Suc)
  have g7: "console net' =
         console net
           @ concat (map (\<lambda>i. collectionLines net t b ((col # cols) ! i)
                            (the (createdId api' net (length (submitted net) + i * Suc ?n)))
                            (headerCalls net + i * (1 + 2 * ?n))
                            (length (submitted net) + i * Suc ?n))
                       [0..<length (col # cols)])"
    unfolding f7 a7 ci cl idx hidx
    by (simp add: map_upt_Suc cid del: upt_Suc)
  have g4: "headerCalls net' = headerCalls net + length (col # cols) * (1 + 2 * ?n)"
    using f4 a4 by simp
  have g5: "length (submitted net') = length (submitted net) + length (col # cols) * Suc ?n"
    using f5 a5 by simp
  from g1 g4 g5 g6 g7 f1 f2 f3 a1 a2 a3 show ?case
    by (intro exI[of _ net']) (simp only: simp_thms)
qed

lemma collections_loop:
  "forLoop (\<lambda>collection. js_le (Num collection) (Num C)) body 1 s = rounds body [1..C] s"
proof -
  have "forLoop (\<lambda>collection. js_le (Num collection) (Num C)) body 1 s
        = rounds body [1..(C + 1) - 1] s"
    by (rule forLoop_rounds) auto
  then show ?thesis by simp
qed

lemma main_started:
  assumes "cryptoWaitReady lib = Fulfilled ()"
    and "ApiPromise_create lib (ENDPOINT e) = Fulfilled api'"
    and "\<not> falsy (ss58Format api')"
    and "keyring_addFromUri lib (the (ss58Format api')) (BOT_KEY e) = Inr acct"
  shows "main lib e net =
     (case forLoop (\<lambda>collection. js_le (Num collection) (COLLECTION_COUNT lib e))
             (collectionRound \<lparr>client_api = api'\<rparr> api' acct
                (TOKEN_COUNT_PER_COLLECTION lib e) (TOKEN_COUNT_IN_BATCH lib e))
             1 (console_log [Log (''Connecting to '' @ ENDPOINT e)] net) of
        None \<Rightarrow> None
      | Some (Rejected err, net1) \<Rightarrow> Some (Unhandled err, net1)
      | Some (Pending, net1) \<Rightarrow> Some (Hang, net1)
      | Some (Fulfilled u, net1) \<Rightarrow>
          Some (Exit 0, console_log [Log ''Minting completed. Exiting script.''] net1))"
  unfolding main_def Let_def using assms by simp

subsection \<open>The batches of a collection\<close>

lemma payload_tokenIds:
  "map (\<lambda>r. case params r of CreateToken tk \<Rightarrow> tokenId tk | Mint m \<Rightarrow> mint_tokenId m)
     (batchPayload acct cid (Num s) n)
   = map (\<lambda>i. Num (s + int i)) [0..<n]"
  by (simp add: batchPayload_def Let_def comp_def)

lemma upto_as_map: "map (\<lambda>i. s + int i) [0..<n] = [s..s + int n - 1]"
proof (induction n)
  case 0
  show ?case by simp
next
  case (Suc n)
  have "[s..s + int (Suc n) - 1] = [s..s + int (Suc n) - 1 - 1] @ [s + int (Suc n) - 1]"
    by (rule upto_rec2) simp
  then have "[s..s + int (Suc n) - 1] = [s..s + int n - 1] @ [s + int n]"
    by simp
  with Suc.IH show ?case by simp
qed

lemma payload_tokenIds_upto:
  "map (\<lambda>r. case params r of CreateToken tk \<Rightarrow> tokenId tk | Mint m \<Rightarrow> mint_tokenId m)
     (batchPayload acct cid (Num s) n)
   = map Num [s..s + int n - 1]"
proof -
  have "map (\<lambda>i. Num (s + int i)) [0..<n] = map Num (map (\<lambda>i. s + int i) [0..<n])"
    by (simp add: comp_def)
  then show ?thesis
    by (simp only: payload_tokenIds upto_as_map)
qed

lemma plan_tokenIds:
  assumes "0 \<le> t" "1 \<le> b"
  shows "concat (map (\<lambda>(s, c).
            map (\<lambda>r. case params r of CreateToken tk \<Rightarrow> tokenId tk | Mint m \<Rightarrow> mint_tokenId m)
              (batchPayload acct cid (Num s) (nat c))) (batchPlan t b))
         = map Num [1..t]"
proof -
  have "map (\<lambda>(s, c).
            map (\<lambda>r. case params r of CreateToken tk \<Rightarrow> tokenId tk | Mint m \<Rightarrow> mint_tokenId m)
              (batchPayload acct cid (Num s) (nat c))) (batchPlan t b)
        = map (\<lambda>(s, c). map Num [s..s + c - 1]) (batchPlan t b)"
  proof (rule map_cong[OF refl])
    fix x assume x: "x \<in> set (batchPlan t b)"
    obtain s c where sc: "x = (s, c)" by (cases x)
    with x batchPlan_bounds[OF assms, of s c] have "0 < c" by simp
    then have "int (nat c) = c" by simp
    then show "(case x of (s, c) \<Rightarrow>
            map (\<lambda>r. case params r of CreateToken tk \<Rightarrow> tokenId tk | Mint m \<Rightarrow> mint_tokenId m)
              (batchPayload acct cid (Num s) (nat c)))
          = (case x of (s, c) \<Rightarrow> map Num [s..s + c - 1])"
      by (simp add: sc payload_tokenIds_upto)
  qed
  also have "\<dots> = map (map Num) (map (\<lambda>(s, c). [s..s + c - 1]) (batchPlan t b))"
    by (simp add: comp_def case_prod_unfold)
  finally have "concat (map (\<lambda>(s, c).
            map (\<lambda>r. case params r of CreateToken tk \<Rightarrow> tokenId tk | Mint m \<Rightarrow> mint_tokenId m)
              (batchPayload acct cid (Num s) (nat c))) (batchPlan t b))
        = map Num (concat (map (\<lambda>(s, c). [s..s + c - 1]) (batchPlan t b)))"
    by (simp only: map_concat)
  then show ?thesis by (simp only: batchPlan_cover[OF assms])
qed

text \<open>
  Claim C2. For a token count \<open>t \<ge> 0\<close> and a batch size \<open>b \<ge> 1\<close> the batch plan
  has \<open>t div b\<close> full batches, batch \<open>i\<close> starting at \<open>i * b + 1\<close>, and one more
  batch of \<open>t mod b\<close> tokens when that is positive. Its lengths add up to \<open>t\<close>;
  each batch starts where the one before it ends and the first starts at 1; every
  length is positive and at most \<open>b\<close>; for \<open>t = 0\<close> the plan is empty; the ranges of
  the batches, one after another, are the list \<open>1, \<dots>, t\<close>, and so are the token
  identifiers of the payloads built for them. On a chain that answers every header
  call and settles every submission, a round for a collection whose creation yields
  the identifier \<open>cid\<close> submits the creation and then exactly one batch mint for
  each entry of the plan, in order, each carrying \<open>cid\<close>.
\<close>

theorem batch_plan_partitions:
  assumes t: "0 \<le> t" and b: "1 \<le> b"
  shows "length (batchPlan t b) = nat (t div b) + (if 0 < t mod b then 1 else 0)
     \<and> (\<forall>i<length (batchPlan t b).
           batchPlan t b ! i = (int i * b + 1, if int i < t div b then b else t mod b))
     \<and> sum_list (map snd (batchPlan t b)) = t
     \<and> (\<forall>i. Suc i < length (batchPlan t b) \<longrightarrow>
           fst (batchPlan t b ! Suc i) = fst (batchPlan t b ! i) + snd (batchPlan t b ! i))
     \<and> (0 < t \<longrightarrow> batchPlan t b \<noteq> [] \<and> fst (hd (batchPlan t b)) = 1)
     \<and> (\<forall>(s, c)\<in>set (batchPlan t b). 0 < c \<and> c \<le> b)
     \<and> (t = 0 \<longrightarrow> batchPlan t b = [])
     \<and> concat (map (\<lambda>(s, c). [s..s + c - 1]) (batchPlan t b)) = [1..t]
     \<and> concat (map (\<lambda>(s, c).
            map (\<lambda>r. case params r of CreateToken tk \<Rightarrow> tokenId tk | Mint m \<Rightarrow> mint_tokenId m)
              (batchPayload acct cid (Num s) (nat c))) (batchPlan t b))
         = map Num [1..t]
     \<and> (b < 2 ^ 32
         \<and> (\<forall>n. \<exists>h. getHeader_answer net n = Fulfilled h)
         \<and> (\<forall>n. outcomeOf net n \<noteq> Pending)
         \<and> createdId api' net (length (submitted net)) = Some cid \<longrightarrow>
         (\<exists>net'. collectionRound client api' acct (Num t) (Num b) col net = Some (Fulfilled (), net')
            \<and> map sub_tx (submitted net') =
                map sub_tx (submitted net)
                  @ createCollection client (Some (Num t)) (Some (Num 1)) False None []
                  # map (\<lambda>(s, c). Tx_batchMint cid (batchPayload acct cid (Num s) (nat c)))
                      (batchPlan t b)))"
proof (intro conjI allI impI)
  show "length (batchPlan t b) = nat (t div b) + (if 0 < t mod b then 1 else 0)"
    by (rule batchPlan_length[OF t b])
  show "batchPlan t b ! i = (int i * b + 1, if int i < t div b then b else t mod b)"
    if "i < length (batchPlan t b)" for i
    by (rule batchPlan_nth[OF t b that])
  show "sum_list (map snd (batchPlan t b)) = t"
    by (rule batchPlan_sum[OF t b])
  show "fst (batchPlan t b ! Suc i) = fst (batchPlan t b ! i) + snd (batchPlan t b ! i)"
    if "Suc i < length (batchPlan t b)" for i
    by (rule batchPlan_contiguous[OF t b that])
  show "batchPlan t b \<noteq> []" if "0 < t"
    using batchPlan_first[OF that b] by simp
  show "fst (hd (batchPlan t b)) = 1" if "0 < t"
    using batchPlan_first[OF that b] by simp
  show "\<forall>(s, c)\<in>set (batchPlan t b). 0 < c \<and> c \<le> b"
    using batchPlan_bounds[OF t b] by blast
  show "batchPlan t b = []" if "t = 0"
    using batchPlan_empty[OF b] that by simp
  show "concat (map (\<lambda>(s, c). [s..s + c - 1]) (batchPlan t b)) = [1..t]"
    by (rule batchPlan_cover[OF t b])
  show "concat (map (\<lambda>(s, c).
            map (\<lambda>r. case params r of CreateToken tk \<Rightarrow> tokenId tk | Mint m \<Rightarrow> mint_tokenId m)
              (batchPayload acct cid (Num s) (nat c))) (batchPlan t b))
         = map Num [1..t]"
    by (rule plan_tokenIds[OF t b])
  show "\<exists>net'. collectionRound client api' acct (Num t) (Num b) col net = Some (Fulfilled (), net')
            \<and> map sub_tx (submitted net') =
                map sub_tx (submitted net)
                  @ createCollection client (Some (Num t)) (Some (Num 1)) False None []
                  # map (\<lambda>(s, c). Tx_batchMint cid (batchPayload acct cid (Num s) (nat c)))
                      (batchPlan t b)"
    if a: "b < 2 ^ 32
         \<and> (\<forall>n. \<exists>h. getHeader_answer net n = Fulfilled h)
         \<and> (\<forall>n. outcomeOf net n \<noteq> Pending)
         \<and> createdId api' net (length (submitted net)) = Some cid"
  proof -
    from a have b32: "b < 2 ^ 32" and hdr: "\<forall>n. \<exists>h. getHeader_answer net n = Fulfilled h"
      and st: "\<forall>n. outcomeOf net n \<noteq> Pending"
      and ci: "createdId api' net (length (submitted net)) = Some cid"
      by simp_all
    from collectionRound_trace'[OF hdr st t b b32 ci, of client acct col]
    show ?thesis unfolding collectionTxs_def by blast
  qed
qed

lemma plan_1000_100:
  "batchPlan 1000 100 =
     [(1, 100), (101, 100), (201, 100), (301, 100), (401, 100),
      (501, 100), (601, 100), (701, 100), (801, 100), (901, 100)]"
  by (simp add: batchPlan_def upto_rec1)

text \<open>
  The theorem at 1000 tokens in batches of 100, on a chain that includes every
  transaction and reports collection 42 created: ten batch mints for collection 42,
  starting at tokens 1, 101, \<open>\<dots>\<close>, 901.
\<close>

theorem batch_plan_partitions_witness:
  "batchPlan 1000 100 =
     [(1, 100), (101, 100), (201, 100), (301, 100), (401, 100),
      (501, 100), (601, 100), (701, 100), (801, 100), (901, 100)]
   \<and> sum_list (map snd (batchPlan 1000 100)) = 1000
   \<and> concat (map (\<lambda>(s, c). [s..s + c - 1]) (batchPlan 1000 100)) = [1..1000]
   \<and> concat (map (\<lambda>(s, c).
            map (\<lambda>r. case params r of CreateToken tk \<Rightarrow> tokenId tk | Mint m \<Rightarrow> mint_tokenId m)
              (batchPayload alice (Num 42) (Num s) (nat c))) (batchPlan 1000 100))
         = map Num [1..1000]
   \<and> (\<exists>net'. collectionRound \<lparr>client_api = sampleApi\<rparr> sampleApi alice (Num 1000) (Num 100) 1
                 (chain allIncluded) = Some (Fulfilled (), net')
          \<and> map sub_tx (submitted net') =
              [createCollection \<lparr>client_api = sampleApi\<rparr> (Some (Num 1000)) (Some (Num 1)) False None [],
               Tx_batchMint (Num 42) (batchPayload alice (Num 42) (Num 1) 100),
               Tx_batchMint (Num 42) (batchPayload alice (Num 42) (Num 101) 100),
               Tx_batchMint (Num 42) (batchPayload alice (Num 42) (Num 201) 100),
               Tx_batchMint (Num 42) (batchPayload alice (Num 42) (Num 301) 100),
               Tx_batchMint (Num 42) (batchPayload alice (Num 42) (Num 401) 100),
               Tx_batchMint (Num 42) (batchPayload alice (Num 42) (Num 501) 100),
               Tx_batchMint (Num 42) (batchPayload alice (Num 42) (Num 601) 100),
               Tx_batchMint (Num 42) (batchPayload alice (Num 42) (Num 701) 100),
               Tx_batchMint (Num 42) (batchPayload alice (Num 42) (Num 801) 100),
               Tx_batchMint (Num 42) (batchPayload alice (Num 42) (Num 901) 100)])"
proof -
  have t: "(0::int) \<le> 1000" and b: "(1::int) \<le> 100" by simp_all
  have out: "\<And>n. outcomeOf (chain allIncluded) n = Fulfilled [withdrawn, created42]"
    by (simp add: outcomeOf_def chain_def allIncluded_def statusReady_def statusInBlock_def)
  have pre: "(100::int) < 2 ^ 32
         \<and> (\<forall>n. \<exists>h. getHeader_answer (chain allIncluded) n = Fulfilled h)
         \<and> (\<forall>n. outcomeOf (chain allIncluded) n \<noteq> Pending)
         \<and> createdId sampleApi (chain allIncluded) (length (submitted (chain allIncluded)))
             = Some (Num 42)"
  proof (intro conjI)
    show "(100::int) < 2 ^ 32" by simp
    show "\<forall>n. \<exists>h. getHeader_answer (chain allIncluded) n = Fulfilled h"
      by (simp add: chain_def)
    show "\<forall>n. outcomeOf (chain allIncluded) n \<noteq> Pending"
      by (simp add: out)
    show "createdId sampleApi (chain allIncluded) (length (submitted (chain allIncluded)))
             = Some (Num 42)"
      by (simp add: out createdId_def getEventFromEvents_def sampleApi_def CollectionCreated_def
          created42_def withdrawn_def Number_data0_def)
  qed
  have l0: "submitted (chain allIncluded) = []" by (simp add: chain_def)
  note inst = batch_plan_partitions[OF t b, of alice "Num 42" "chain allIncluded" sampleApi
      "\<lparr>client_api = sampleApi\<rparr>" 1]
  from inst have 2: "sum_list (map snd (batchPlan 1000 100)) = 1000" by blast
  from inst have 3: "concat (map (\<lambda>(s, c). [s..s + c - 1]) (batchPlan 1000 100)) = [1..1000]"
    by blast
  from inst have 4: "concat (map (\<lambda>(s, c).
            map (\<lambda>r. case params r of CreateToken tk \<Rightarrow> tokenId tk | Mint m \<Rightarrow> mint_tokenId m)
              (batchPayload alice (Num 42) (Num s) (nat c))) (batchPlan 1000 100))
         = map Num [1..1000]"
    by blast
  from inst pre have "\<exists>net'. collectionRound \<lparr>client_api = sampleApi\<rparr> sampleApi alice (Num 1000) (Num 100) 1
                 (chain allIncluded) = Some (Fulfilled (), net')
          \<and> map sub_tx (submitted net') =
                map sub_tx (submitted (chain allIncluded))
                  @ createCollection \<lparr>client_api = sampleApi\<rparr> (Some (Num 1000)) (Some (Num 1)) False None []
                  # map (\<lambda>(s, c). Tx_batchMint (Num 42) (batchPayload alice (Num 42) (Num s) (nat c)))
                      (batchPlan 1000 100)"
    by blast
  then have 5: "\<exists>net'. collectionRound \<lparr>client_api = sampleApi\<rparr> sampleApi alice (Num 1000) (Num 100) 1
                 (chain allIncluded) = Some (Fulfilled (), net')
          \<and> map sub_tx (submitted net') =
              [createCollection \<lparr>client_api = sampleApi\<rparr> (Some (Num 1000)) (Some (Num 1)) False None [],
               Tx_batchMint (Num 42) (batchPayload alice (Num 42) (Num 1) 100),
               Tx_batchMint (Num 42) (batchPayload alice (Num 42) (Num 101) 100),
               Tx_batchMint (Num 42) (batchPayload alice (Num 42) (Num 201) 100),
               Tx_batchMint (Num 42) (batchPayload alice (Num 42) (Num 301) 100),
               Tx_batchMint (Num 42) (batchPayload alice (Num 42) (Num 401) 100),
               Tx_batchMint (Num 42) (batchPayload alice (Num 42) (Num 501) 100),
               Tx_batchMint (Num 42) (batchPayload alice (Num 42) (Num 601) 100),
               Tx_batchMint (Num 42) (batchPayload alice (Num 42) (Num 701) 100),
               Tx_batchMint (Num 42) (batchPayload alice (Num 42) (Num 801) 100),
               Tx_batchMint (Num 42) (batchPayload alice (Num 42) (Num 901) 100)]"
    by (simp add: plan_1000_100 l0)
  from plan_1000_100 2 3 4 5 show ?thesis by (simp only: simp_thms)
qed

subsection \<open>Failed batches\<close>

text \<open>
  Claim C4. Let the configuration be integers with a token count \<open>t \<ge> 0\<close> and a
  batch size \<open>1 \<le> b \<le> 250\<close>, the key present and the client connected. On a chain
  that answers every header call, settles every submission one way or the other, and
  yields an identifier for each creation, the run ends with status 0 whichever batch
  mints were rejected: for each of the \<open>C\<close> collections it has submitted the creation
  and every batch of the plan, and it has printed, for each batch in turn, the line
  of its success or the two lines of its failure.
\<close>

theorem batch_failures_absorbed:
  assumes count: "COLLECTION_COUNT lib e = Num C"
    and perCollection: "TOKEN_COUNT_PER_COLLECTION lib e = Num t" "0 \<le> t"
    and inBatch: "TOKEN_COUNT_IN_BATCH lib e = Num b" "1 \<le> b" "b \<le> 250"
    and key: "truthy (BOT_KEY e)"
    and ready: "cryptoWaitReady lib = Fulfilled ()"
    and connected: "ApiPromise_create lib (ENDPOINT e) = Fulfilled api'"
    and format: "\<not> falsy (ss58Format api')"
    and account: "keyring_addFromUri lib (the (ss58Format api')) (BOT_KEY e) = Inr acct"
    and headers: "\<forall>n. \<exists>h. getHeader_answer net n = Fulfilled h"
    and settled: "\<forall>n. outcomeOf net n \<noteq> Pending"
    and created: "\<forall>i<nat C.
        createdId api' net (length (submitted net) + i * Suc (length (batchPlan t b))) \<noteq> None"
  shows "\<exists>net'. main_ts lib e net = Some (Exit 0, net')
     \<and> map sub_tx (submitted net') =
         map sub_tx (submitted net)
           @ concat (map (\<lambda>i. collectionTxs \<lparr>client_api = api'\<rparr> acct t b
                            (the (createdId api' net
                               (length (submitted net) + i * Suc (length (batchPlan t b))))))
                       [0..<nat C])
     \<and> console net' =
         console net
           @ [Log (''Connecting to '' @ ENDPOINT e)]
           @ concat (map (\<lambda>i. collectionLines net t b (1 + int i)
                            (the (createdId api' net
                               (length (submitted net) + i * Suc (length (batchPlan t b)))))
                            (headerCalls net + i * (1 + 2 * length (batchPlan t b)))
                            (length (submitted net) + i * Suc (length (batchPlan t b))))
                       [0..<nat C])
           @ [Log ''Minting completed. Exiting script.'']"
proof -
  let ?n = "length (batchPlan t b)"
  define net0 where "net0 = console_log [Log (''Connecting to '' @ ENDPOINT e)] net"
  have n0: "getHeader_answer net0 = getHeader_answer net" "signAndSend_answer net0 = signAndSend_answer net"
    "headerCalls net0 = headerCalls net" "submitted net0 = submitted net"
    "console net0 = console net @ [Log (''Connecting to '' @ ENDPOINT e)]"
    by (simp_all add: net0_def console_log_def)
  have ci: "createdId api' net0 = createdId api' net" by (rule createdId_cong[OF n0(2)])
  have cl: "collectionLines net0 = collectionLines net"
    by (intro ext) (simp add: collectionLines_def mintLines_cong[OF n0(1) n0(2)])
  have b32: "b < 2 ^ 32" using inBatch(3) by simp
  have p1: "\<forall>n. \<exists>h. getHeader_answer net0 n = Fulfilled h" using headers by (simp add: n0)
  have p2: "\<forall>n. outcomeOf net0 n \<noteq> Pending" using settled outcomeOf_cong[OF n0(2)] by simp
  have len: "length [1..C] = nat C" by simp
  have p3: "\<forall>i<length [1..C]. createdId api' net0 (length (submitted net0) + i * Suc ?n) \<noteq> None"
    using created unfolding len ci n0 .
  from collections_trace[OF p1 p2 perCollection(2) inBatch(2) b32 p3, of "\<lparr>client_api = api'\<rparr>" acct]
  obtain net1 where
    r: "rounds (collectionRound \<lparr>client_api = api'\<rparr> api' acct (Num t) (Num b)) [1..C] net0
          = Some (Fulfilled (), net1)"
    and f6: "map sub_tx (submitted net1) =
         map sub_tx (submitted net0)
           @ concat (map (\<lambda>i. collectionTxs \<lparr>client_api = api'\<rparr> acct t b
                            (the (createdId api' net0 (length (submitted net0) + i * Suc ?n))))
                       [0..<length [1..C]])"
    and f7: "console net1 =
         console net0
           @ concat (map (\<lambda>i. collectionLines net0 t b ([1..C] ! i)
                            (the (createdId api' net0 (length (submitted net0) + i * Suc ?n)))
                            (headerCalls net0 + i * (1 + 2 * ?n))
                            (length (submitted net0) + i * Suc ?n))
                       [0..<length [1..C]])"
    by blast
  have nth: "map (\<lambda>i. collectionLines net t b ([1..C] ! i)
                            (the (createdId api' net (length (submitted net) + i * Suc ?n)))
                            (headerCalls net + i * (1 + 2 * ?n))
                            (length (submitted net) + i * Suc ?n)) [0..<nat C]
           = map (\<lambda>i. collectionLines net t b (1 + int i)
                            (the (createdId api' net (length (submitted net) + i * Suc ?n)))
                            (headerCalls net + i * (1 + 2 * ?n))
                            (length (submitted net) + i * Suc ?n)) [0..<nat C]"
    by (rule map_cong) (simp_all add: nth_upto)
  have start: "main_ts lib e net = main lib e net"
    using inBatch key by (simp add: main_ts_def js_gt_def)
  have m: "main lib e net = Some (Exit 0, console_log [Log ''Minting completed. Exiting script.''] net1)"
    unfolding main_started[OF ready connected format account] count perCollection(1) inBatch(1)
      collections_loop net0_def[symmetric] r
    by simp
  have g6: "map sub_tx (submitted (console_log [Log ''Minting completed. Exiting script.''] net1)) =
         map sub_tx (submitted net)
           @ concat (map (\<lambda>i. collectionTxs \<lparr>client_api = api'\<rparr> acct t b
                            (the (createdId api' net (length (submitted net) + i * Suc ?n))))
                       [0..<nat C])"
    using f6 unfolding len ci n0 by (simp add: console_log_def)
  have g7: "console (console_log [Log ''Minting completed. Exiting script.''] net1) =
         console net
           @ [Log (''Connecting to '' @ ENDPOINT e)]
           @ concat (map (\<lambda>i. collectionLines net t b (1 + int i)
                            (the (createdId api' net (length (submitted net) + i * Suc ?n)))
                            (headerCalls net + i * (1 + 2 * ?n))
                            (length (submitted net) + i * Suc ?n))
                       [0..<nat C])
           @ [Log ''Minting completed. Exiting script.'']"
    using f7 unfolding len ci cl n0 nth by (simp add: console_log_def)
  from start m g6 g7 show ?thesis
    by (intro exI[of _ "console_log [Log ''Minting completed. Exiting script.''] net1"])
       (simp only: simp_thms)
qed

lemma plan_10_1:
  "batchPlan 10 1 = [(1, 1), (2, 1), (3, 1), (4, 1), (5, 1), (6, 1), (7, 1), (8, 1), (9, 1), (10, 1)]"
  by (simp add: batchPlan_def upto_rec1)

lemma upt_10: "[0..<10] = [0, 1, 2, 3, 4, 5, 6, 7, 8, 9::nat]"
  by code_simp

text \<open>
  The theorem at one collection of ten tokens in batches of one, on a chain that
  reports the fourth batch invalid: batches five to ten are submitted all the same,
  and the run prints nine lines of success and one failure.
\<close>

theorem batch_failures_absorbed_witness:
  "\<exists>net'. main_ts sampleLibrary (sampleEnv (Some ''//Alice'') (Some ''10'') (Some ''1''))
            (chain fifthInvalid) = Some (Exit 0, net')
     \<and> map sub_tx (submitted net') =
         [createCollection \<lparr>client_api = sampleApi\<rparr> (Some (Num 10)) (Some (Num 1)) False None [],
          Tx_batchMint (Num 42) (batchPayload alice (Num 42) (Num 1) 1),
          Tx_batchMint (Num 42) (batchPayload alice (Num 42) (Num 2) 1),
          Tx_batchMint (Num 42) (batchPayload alice (Num 42) (Num 3) 1),
          Tx_batchMint (Num 42) (batchPayload alice (Num 42) (Num 4) 1),
          Tx_batchMint (Num 42) (batchPayload alice (Num 42) (Num 5) 1),
          Tx_batchMint (Num 42) (batchPayload alice (Num 42) (Num 6) 1),
          Tx_batchMint (Num 42) (batchPayload alice (Num 42) (Num 7) 1),
          Tx_batchMint (Num 42) (batchPayload alice (Num 42) (Num 8) 1),
          Tx_batchMint (Num 42) (batchPayload alice (Num 42) (Num 9) 1),
          Tx_batchMint (Num 42) (batchPayload alice (Num 42) (Num 10) 1)]
     \<and> console net' =
         [Log ''Connecting to ws://localhost:9944'',
          Log ''Creating collection 1'',
          Log ''Collection 1 created with id: 42'',
          Log ''Tokens from 1 to 1 minted at block 102'',
          Log ''Tokens from 2 to 2 minted at block 104'',
          Log ''Tokens from 3 to 3 minted at block 106'',
          ErrorText ''Error while minting tokens from 4 to 4'',
          ErrorValue (TransactionError statusInvalid),
          Log ''Tokens from 5 to 5 minted at block 110'',
          Log ''Tokens from 6 to 6 minted at block 112'',
          Log ''Tokens from 7 to 7 minted at block 114'',
          Log ''Tokens from 8 to 8 minted at block 116'',
          Log ''Tokens from 9 to 9 minted at block 118'',
          Log ''Tokens from 10 to 10 minted at block 120'',
          Log ''Minting completed. Exiting script.'']"
proof -
  let ?e = "sampleEnv (Some ''//Alice'') (Some ''10'') (Some ''1'')"
  have c: "COLLECTION_COUNT sampleLibrary ?e = Num 1"
    and t: "TOKEN_COUNT_PER_COLLECTION sampleLibrary ?e = Num 10" "(0::int) \<le> 10"
    and b: "TOKEN_COUNT_IN_BATCH sampleLibrary ?e = Num 1" "(1::int) \<le> 1" "(1::int) \<le> 250"
    and k: "truthy (BOT_KEY ?e)"
    by (simp_all add: COLLECTION_COUNT_def TOKEN_COUNT_PER_COLLECTION_def TOKEN_COUNT_IN_BATCH_def
          parsedOr_def truthy_def BOT_KEY_def sample_defs)
  have r: "cryptoWaitReady sampleLibrary = Fulfilled ()"
    and a: "ApiPromise_create sampleLibrary (ENDPOINT ?e) = Fulfilled sampleApi"
    and f: "\<not> falsy (ss58Format sampleApi)"
    and u: "keyring_addFromUri sampleLibrary (the (ss58Format sampleApi)) (BOT_KEY ?e) = Inr alice"
    by (simp_all add: sample_defs falsy_def)
  have h: "\<forall>n. \<exists>h. getHeader_answer (chain fifthInvalid) n = Fulfilled h"
    by (simp add: chain_def)
  have s: "\<forall>n. outcomeOf (chain fifthInvalid) n \<noteq> Pending"
    by (simp add: outcomeOf_def chain_def fifthInvalid_def statusReady_def statusInBlock_def
          statusInvalid_def)
  have out: "\<And>n. outcomeOf (chain fifthInvalid) n =
      (if n = 4 then Rejected (TransactionError statusInvalid)
       else Fulfilled [withdrawn, created42])"
    by (simp add: outcomeOf_def chain_def fifthInvalid_def statusReady_def statusInBlock_def
          statusInvalid_def)
  have cid: "createdId sampleApi (chain fifthInvalid) 0 = Some (Num 42)"
    by (simp add: createdId_def out getEventFromEvents_def sampleApi_def CollectionCreated_def
          created42_def withdrawn_def Number_data0_def)
  have l0: "submitted (chain fifthInvalid) = []" "console (chain fifthInvalid) = []"
    "headerCalls (chain fifthInvalid) = 0"
    "\<And>n. getHeader_answer (chain fifthInvalid) n = Fulfilled \<lparr>number = 100 + n, hash = ''0xabc''\<rparr>"
    by (simp_all add: chain_def)
  have cr: "\<forall>i<nat 1. createdId sampleApi (chain fifthInvalid)
              (length (submitted (chain fifthInvalid)) + i * Suc (length (batchPlan 10 1))) \<noteq> None"
    by (simp add: cid l0(1))
  have ep: "ENDPOINT ?e = ''ws://localhost:9944''"
    by (simp add: ENDPOINT_def truthy_def sampleEnv_def)
  have txs: "collectionTxs \<lparr>client_api = sampleApi\<rparr> alice 10 1 (Num 42) =
         [createCollection \<lparr>client_api = sampleApi\<rparr> (Some (Num 10)) (Some (Num 1)) False None [],
          Tx_batchMint (Num 42) (batchPayload alice (Num 42) (Num 1) 1),
          Tx_batchMint (Num 42) (batchPayload alice (Num 42) (Num 2) 1),
          Tx_batchMint (Num 42) (batchPayload alice (Num 42) (Num 3) 1),
          Tx_batchMint (Num 42) (batchPayload alice (Num 42) (Num 4) 1),
          Tx_batchMint (Num 42) (batchPayload alice (Num 42) (Num 5) 1),
          Tx_batchMint (Num 42) (batchPayload alice (Num 42) (Num 6) 1),
          Tx_batchMint (Num 42) (batchPayload alice (Num 42) (Num 7) 1),
          Tx_batchMint (Num 42) (batchPayload alice (Num 42) (Num 8) 1),
          Tx_batchMint (Num 42) (batchPayload alice (Num 42) (Num 9) 1),
          Tx_batchMint (Num 42) (batchPayload alice (Num 42) (Num 10) 1)]"
    by (simp add: collectionTxs_def plan_10_1)
  have lines: "collectionLines (chain fifthInvalid) 10 1 1 (Num 42) 0 0 =
         [Log ''Creating collection 1'',
          Log ''Collection 1 created with id: 42'',
          Log ''Tokens from 1 to 1 minted at block 102'',
          Log ''Tokens from 2 to 2 minted at block 104'',
          Log ''Tokens from 3 to 3 minted at block 106'',
          ErrorText ''Error while minting tokens from 4 to 4'',
          ErrorValue (TransactionError statusInvalid),
          Log ''Tokens from 5 to 5 minted at block 110'',
          Log ''Tokens from 6 to 6 minted at block 112'',
          Log ''Tokens from 7 to 7 minted at block 114'',
          Log ''Tokens from 8 to 8 minted at block 116'',
          Log ''Tokens from 9 to 9 minted at block 118'',
          Log ''Tokens from 10 to 10 minted at block 120'']"
    by (simp add: collectionLines_def plan_10_1 upt_10 mintLines_def out l0(4)
          mintedMessage_def mintErrorMessage_def lastTokenId_def digits.simps)
  from batch_failures_absorbed[OF c t b k r a f u h s cr]
  show ?thesis
    by (simp add: cid l0 ep txs lines)
qed

subsection \<open>The order of creation and minting\<close>

lemma mfc_append_other:
  assumes m: "mintsFollowCreation a n L log"
    and x: "\<And>cid rs. sub_tx x \<noteq> Tx_batchMint cid rs"
  shows "mintsFollowCreation a n L (log @ [x])"
  unfolding mintsFollowCreation_def
proof (intro allI impI)
  fix i cid rs
  assume h: "L \<le> i \<and> i < length (log @ [x]) \<and> sub_tx ((log @ [x]) ! i) = Tx_batchMint cid rs"
  have "i \<noteq> length log"
  proof
    assume "i = length log"
    with h have "sub_tx x = Tx_batchMint cid rs" by simp
    with x show False by blast
  qed
  with h have i: "i < length log" by simp
  with h have "sub_tx (log ! i) = Tx_batchMint cid rs" by (simp add: nth_append)
  with m h i obtain k d where k: "L \<le> k" "k < i" "sub_tx (log ! k) = Tx_createCollection d"
    "createdId a n k = Some cid"
    "\<forall>m. k < m \<and> m < i \<longrightarrow> (\<exists>c rs'. sub_tx (log ! m) = Tx_batchMint c rs')"
    unfolding mintsFollowCreation_def by blast
  from k(2) i have "sub_tx ((log @ [x]) ! k) = Tx_createCollection d"
    using k(3) by (simp add: nth_append)
  moreover have "\<forall>m. k < m \<and> m < i \<longrightarrow> (\<exists>c rs'. sub_tx ((log @ [x]) ! m) = Tx_batchMint c rs')"
    using k(5) i by (simp add: nth_append)
  ultimately show "\<exists>k d. L \<le> k \<and> k < i \<and> sub_tx ((log @ [x]) ! k) = Tx_createCollection d
       \<and> createdId a n k = Some cid
       \<and> (\<forall>m. k < m \<and> m < i \<longrightarrow> (\<exists>c rs'. sub_tx ((log @ [x]) ! m) = Tx_batchMint c rs'))"
    using k(1,2,4) by blast
qed

lemma mfc_append_batch:
  assumes m: "mintsFollowCreation a n L log"
    and c: "currentCollection a n L cid log"
    and x: "sub_tx x = Tx_batchMint cid rs"
  shows "mintsFollowCreation a n L (log @ [x]) \<and> currentCollection a n L cid (log @ [x])"
proof
  from c obtain k d where k: "L \<le> k" "k < length log" "sub_tx (log ! k) = Tx_createCollection d"
    "createdId a n k = Some cid"
    "\<forall>m. k < m \<and> m < length log \<longrightarrow> (\<exists>c rs'. sub_tx (log ! m) = Tx_batchMint c rs')"
    unfolding currentCollection_def by blast
  have kx: "sub_tx ((log @ [x]) ! k) = Tx_createCollection d"
    using k(2,3) by (simp add: nth_append)
  have rest: "\<forall>m. k < m \<and> m < length log \<longrightarrow> (\<exists>c rs'. sub_tx ((log @ [x]) ! m) = Tx_batchMint c rs')"
    using k(5) by (simp add: nth_append)
  show "mintsFollowCreation a n L (log @ [x])"
    unfolding mintsFollowCreation_def
  proof (intro allI impI)
    fix i cid' rs'
    assume h: "L \<le> i \<and> i < length (log @ [x]) \<and> sub_tx ((log @ [x]) ! i) = Tx_batchMint cid' rs'"
    show "\<exists>k d. L \<le> k \<and> k < i \<and> sub_tx ((log @ [x]) ! k) = Tx_createCollection d
       \<and> createdId a n k = Some cid'
       \<and> (\<forall>m. k < m \<and> m < i \<longrightarrow> (\<exists>c rs'. sub_tx ((log @ [x]) ! m) = Tx_batchMint c rs'))"
    proof (cases "i = length log")
      case True
      with h x have "cid' = cid" by simp
      with k(1,2,4) kx rest True show ?thesis by blast
    next
      case False
      with h have i: "i < length log" by simp
      with h have "sub_tx (log ! i) = Tx_batchMint cid' rs'" by (simp add: nth_append)
      with m h i obtain k' d' where k': "L \<le> k'" "k' < i" "sub_tx (log ! k') = Tx_createCollection d'"
        "createdId a n k' = Some cid'"
        "\<forall>m. k' < m \<and> m < i \<longrightarrow> (\<exists>c rs'. sub_tx (log ! m) = Tx_batchMint c rs')"
        unfolding mintsFollowCreation_def by blast
      have "sub_tx ((log @ [x]) ! k') = Tx_createCollection d'"
        using k'(2,3) i by (simp add: nth_append)
      moreover have "\<forall>m. k' < m \<and> m < i \<longrightarrow> (\<exists>c rs'. sub_tx ((log @ [x]) ! m) = Tx_batchMint c rs')"
        using k'(5) i by (simp add: nth_append)
      ultimately show ?thesis using k'(1,2,4) by blast
    qed
  qed
  have "\<forall>m. k < m \<and> m < length (log @ [x]) \<longrightarrow> (\<exists>c rs'. sub_tx ((log @ [x]) ! m) = Tx_batchMint c rs')"
  proof (intro allI impI)
    fix m assume h: "k < m \<and> m < length (log @ [x])"
    show "\<exists>c rs'. sub_tx ((log @ [x]) ! m) = Tx_batchMint c rs'"
    proof (cases "m = length log")
      case True
      with x show ?thesis by simp
    next
      case False
      with h have "m < length log" by simp
      with h rest show ?thesis by blast
    qed
  qed
  with k(1,2,4) kx show "currentCollection a n L cid (log @ [x])"
    unfolding currentCollection_def
    by (intro exI[of _ k] exI[of _ d]) simp
qed

lemma current_after_create:
  assumes l: "L \<le> length log"
    and x: "sub_tx x = Tx_createCollection d"
    and c: "createdId a n (length log) = Some cid"
  shows "currentCollection a n L cid (log @ [x])"
proof -
  have "\<forall>m. length log < m \<and> m < length (log @ [x]) \<longrightarrow>
          (\<exists>c rs'. sub_tx ((log @ [x]) ! m) = Tx_batchMint c rs')"
    by auto
  with l x c show ?thesis
    unfolding currentCollection_def
    by (intro exI[of _ "length log"] exI[of _ d]) simp
qed

lemma batchMint_is_batch: "\<exists>rs. batchMint client cid payload = Tx_batchMint cid rs"
  by (simp add: batchMint_def Let_def)

lemma mintBatch_frame:
  assumes "mintBatch client api' acct cid start count s = (r, s')"
  shows "signAndSend_answer s' = signAndSend_answer s
       \<and> (submitted s' = submitted s
          \<or> (\<exists>x rs. sub_tx x = Tx_batchMint cid rs \<and> submitted s' = submitted s @ [x]))"
proof (cases "arrayLength count")
  case (Inl e)
  with assms show ?thesis by (simp add: mintBatch_def)
next
  case (Inr len)
  let ?s1 = "s\<lparr>headerCalls := Suc (headerCalls s)\<rparr>"
  have g: "getHeader s = (getHeader_answer s (headerCalls s), ?s1)"
    by (simp add: getHeader_def)
  show ?thesis
  proof (cases "getHeader_answer s (headerCalls s)")
    case (Rejected e)
    with assms Inr g show ?thesis by (auto simp: mintBatch_def Let_def)
  next
    case Pending
    with assms Inr g show ?thesis by (auto simp: mintBatch_def Let_def)
  next
    case (Fulfilled h)
    obtain rs where tx: "batchMint client cid (batchPayload acct cid start len) = Tx_batchMint cid rs"
      using batchMint_is_batch by blast
    obtain r2 s2 where so: "signAndSendOnce acct (Tx_batchMint cid rs) ?s1 = (r2, s2)"
      by (cases "signAndSendOnce acct (Tx_batchMint cid rs) ?s1")
    from signAndSendOnce_frame[OF so] have
      a: "signAndSend_answer s2 = signAndSend_answer s"
      and l: "submitted s2 = submitted s
          \<or> (\<exists>opts. submitted s2 = submitted s
                @ [\<lparr>sub_origin = acct, sub_tx = Tx_batchMint cid rs, sub_options = opts\<rparr>])"
      by auto
    from l have l': "submitted s2 = submitted s
          \<or> (\<exists>x rs. sub_tx x = Tx_batchMint cid rs \<and> submitted s2 = submitted s @ [x])"
    proof
      assume "submitted s2 = submitted s" then show ?thesis by simp
    next
      assume "\<exists>opts. submitted s2 = submitted s
                @ [\<lparr>sub_origin = acct, sub_tx = Tx_batchMint cid rs, sub_options = opts\<rparr>]"
      then obtain opts where "submitted s2 = submitted s
                @ [\<lparr>sub_origin = acct, sub_tx = Tx_batchMint cid rs, sub_options = opts\<rparr>]" ..
      then have "sub_tx \<lparr>sub_origin = acct, sub_tx = Tx_batchMint cid rs, sub_options = opts\<rparr>
                   = Tx_batchMint cid rs
                 \<and> submitted s2 = submitted s
                @ [\<lparr>sub_origin = acct, sub_tx = Tx_batchMint cid rs, sub_options = opts\<rparr>]"
        by simp
      then show ?thesis by blast
    qed
    have "s' = s2 \<or> (\<exists>ls. s' = console_log ls s2)"
      using assms Inr g Fulfilled tx so
      by (cases r2) (auto simp: mintBatch_def Let_def signAndSend_zero)
    then have "signAndSend_answer s' = signAndSend_answer s2 \<and> submitted s' = submitted s2"
      by (auto simp: console_log_def)
    with a l' show ?thesis by simp
  qed
qed

lemma returningEvent_frame:
  assumes "signAndSendReturningEvent origin tx d s = (r, s')"
  shows "signAndSend_answer s' = signAndSend_answer s
       \<and> (submitted s' = submitted s \<and> (\<forall>ev. r \<noteq> Fulfilled ev)
          \<or> (\<exists>opts. submitted s' = submitted s
                @ [\<lparr>sub_origin = origin, sub_tx = tx, sub_options = opts\<rparr>])
            \<and> (\<forall>ev. r = Fulfilled ev \<longrightarrow>
                  (\<exists>evs. outcomeOf s (length (submitted s)) = Fulfilled evs
                        \<and> getEventFromEvents evs d = Some ev)))"
proof -
  obtain r1 s1 where so: "signAndSendOnce origin tx s = (r1, s1)"
    by (cases "signAndSendOnce origin tx s")
  from signAndSendOnce_frame[OF so] have
    a: "signAndSend_answer s1 = signAndSend_answer s"
    and l: "submitted s1 = submitted s \<and> (\<forall>evs. r1 \<noteq> Fulfilled evs)
          \<or> (\<exists>opts. submitted s1 = submitted s
                @ [\<lparr>sub_origin = origin, sub_tx = tx, sub_options = opts\<rparr>])
             \<and> r1 = outcomeOf s (length (submitted s))"
    by auto
  have s': "s' = s1"
    using assms so
    by (cases r1) (auto simp: signAndSendReturningEvent_def signAndSend_zero split: sum.splits)
  have r: "\<forall>ev. r = Fulfilled ev \<longrightarrow> (\<exists>evs. r1 = Fulfilled evs \<and> getEventFromEvents evs d = Some ev)"
    using assms so
    by (cases r1)
       (auto simp: signAndSendReturningEvent_def signAndSend_zero getEventFromEventsOrThrow_def
             split: sum.splits option.splits)
  from l show ?thesis
  proof
    assume "submitted s1 = submitted s \<and> (\<forall>evs. r1 \<noteq> Fulfilled evs)"
    with r a s' show ?thesis by auto
  next
    assume "(\<exists>opts. submitted s1 = submitted s
                @ [\<lparr>sub_origin = origin, sub_tx = tx, sub_options = opts\<rparr>])
             \<and> r1 = outcomeOf s (length (submitted s))"
    with r a s' show ?thesis by auto
  qed
qed

lemma mintBatch_keeps:
  assumes a: "signAndSend_answer s = signAndSend_answer net"
    and l: "L \<le> length (submitted s)"
    and m: "mintsFollowCreation api' net L (submitted s)"
    and c: "currentCollection api' net L cid (submitted s)"
    and run: "mintBatch client api'' acct cid start count s = (r, s')"
  shows "signAndSend_answer s' = signAndSend_answer net
       \<and> L \<le> length (submitted s')
       \<and> mintsFollowCreation api' net L (submitted s')
       \<and> currentCollection api' net L cid (submitted s')"
proof -
  from mintBatch_frame[OF run] have a': "signAndSend_answer s' = signAndSend_answer s"
    and d: "submitted s' = submitted s
          \<or> (\<exists>x rs. sub_tx x = Tx_batchMint cid rs \<and> submitted s' = submitted s @ [x])"
    by auto
  from d show ?thesis
  proof
    assume "submitted s' = submitted s"
    with a a' l m c show ?thesis by simp
  next
    assume "\<exists>x rs. sub_tx x = Tx_batchMint cid rs \<and> submitted s' = submitted s @ [x]"
    then obtain x rs where x: "sub_tx x = Tx_batchMint cid rs" and s: "submitted s' = submitted s @ [x]"
      by blast
    from mfc_append_batch[OF m c x] a a' l s show ?thesis by simp
  qed
qed

lemma collectionRound_keeps:
  assumes a: "signAndSend_answer s = signAndSend_answer net"
    and l: "L \<le> length (submitted s)"
    and m: "mintsFollowCreation api' net L (submitted s)"
    and run: "collectionRound client api' acct perCollection inBatch col s = Some (r, s')"
  shows "signAndSend_answer s' = signAndSend_answer net
       \<and> L \<le> length (submitted s')
       \<and> mintsFollowCreation api' net L (submitted s')"
proof -
  let ?tx = "createCollection client (Some perCollection) (Some (Num 1)) False None []"
  let ?d = "events_multiTokens_CollectionCreated api'"
  define s0 where "s0 = console_log [Log (''Creating collection '' @ toString (Num col))] s"
  have s0: "signAndSend_answer s0 = signAndSend_answer s" "submitted s0 = submitted s"
    by (simp_all add: s0_def console_log_def)
  obtain r1 s1 where se: "signAndSendReturningEvent acct ?tx ?d s0 = (r1, s1)"
    by (cases "signAndSendReturningEvent acct ?tx ?d s0")
  have txc: "\<And>cid rs. ?tx \<noteq> Tx_batchMint cid rs"
    by (simp add: createCollection_def)
  from returningEvent_frame[OF se] have a1: "signAndSend_answer s1 = signAndSend_answer net"
    and d: "submitted s1 = submitted s \<and> (\<forall>ev. r1 \<noteq> Fulfilled ev)
          \<or> (\<exists>opts. submitted s1 = submitted s
                @ [\<lparr>sub_origin = acct, sub_tx = ?tx, sub_options = opts\<rparr>])
            \<and> (\<forall>ev. r1 = Fulfilled ev \<longrightarrow>
                  (\<exists>evs. outcomeOf s0 (length (submitted s)) = Fulfilled evs
                        \<and> getEventFromEvents evs ?d = Some ev))"
    by (simp_all add: s0 a)
  have i1: "L \<le> length (submitted s1) \<and> mintsFollowCreation api' net L (submitted s1)"
  proof -
    from d show ?thesis
    proof
      assume "submitted s1 = submitted s \<and> (\<forall>ev. r1 \<noteq> Fulfilled ev)"
      with l m show ?thesis by simp
    next
      assume "(\<exists>opts. submitted s1 = submitted s
                @ [\<lparr>sub_origin = acct, sub_tx = ?tx, sub_options = opts\<rparr>])
            \<and> (\<forall>ev. r1 = Fulfilled ev \<longrightarrow>
                  (\<exists>evs. outcomeOf s0 (length (submitted s)) = Fulfilled evs
                        \<and> getEventFromEvents evs ?d = Some ev))"
      then obtain opts where e: "submitted s1 = submitted s
                @ [\<lparr>sub_origin = acct, sub_tx = ?tx, sub_options = opts\<rparr>]" by blast
      have "mintsFollowCreation api' net L
              (submitted s @ [\<lparr>sub_origin = acct, sub_tx = ?tx, sub_options = opts\<rparr>])"
        by (rule mfc_append_other[OF m]) (simp add: txc)
      with e l show ?thesis by simp
    qed
  qed
  have unf: "collectionRound client api' acct perCollection inBatch col s =
      (case (r1, s1) of
         (Rejected e, net1) \<Rightarrow> Some (Rejected e, net1)
       | (Pending, net1) \<Rightarrow> Some (Pending, net1)
       | (Fulfilled collectionCreatedEvent, net1) \<Rightarrow>
           (case forLoop (\<lambda>j. js_lt (Num j) (js_floor_div perCollection inBatch))
                   (\<lambda>j s. Some (mintBatch client api' acct (Number_data0 collectionCreatedEvent)
                                   (js_add (js_mul (Num j) inBatch) (Num 1)) inBatch s))
                   0 (console_log
                    [Log (''Collection '' @ toString (Num col) @ '' created with id: ''
                          @ toString (Number_data0 collectionCreatedEvent))] net1) of
              None \<Rightarrow> None
            | Some (Rejected e, net3) \<Rightarrow> Some (Rejected e, net3)
            | Some (Pending, net3) \<Rightarrow> Some (Pending, net3)
            | Some (Fulfilled u, net3) \<Rightarrow>
                (if js_gt (js_rem perCollection inBatch) (Num 0)
                 then Some (mintBatch client api' acct (Number_data0 collectionCreatedEvent)
                              (js_add (js_mul (js_floor_div perCollection inBatch) inBatch) (Num 1))
                              (js_rem perCollection inBatch) net3)
                 else Some (Fulfilled (), net3))))"
    unfolding collectionRound_def Let_def s0_def[symmetric] se ..
  show ?thesis
  proof (cases r1)
    case (Rejected e)
    with run unf have "s' = s1" by simp
    with a1 i1 show ?thesis by simp
  next
    case Pending
    with run unf have "s' = s1" by simp
    with a1 i1 show ?thesis by simp
  next
    case (Fulfilled ev)
    let ?cid = "Number_data0 ev"
    from d Fulfilled obtain opts evs where
      e: "submitted s1 = submitted s @ [\<lparr>sub_origin = acct, sub_tx = ?tx, sub_options = opts\<rparr>]"
      and o: "outcomeOf s0 (length (submitted s)) = Fulfilled evs"
      and g: "getEventFromEvents evs ?d = Some ev"
      by blast
    have "outcomeOf s0 = outcomeOf net"
      by (rule outcomeOf_cong) (simp add: s0 a)
    with o g have ci: "createdId api' net (length (submitted s)) = Some ?cid"
      unfolding createdId_Some by auto
    have "sub_tx \<lparr>sub_origin = acct, sub_tx = ?tx, sub_options = opts\<rparr> = ?tx" by simp
    then obtain dd where "sub_tx \<lparr>sub_origin = acct, sub_tx = ?tx, sub_options = opts\<rparr>
        = Tx_createCollection dd"
      by (simp add: createCollection_def)
    from current_after_create[OF l this ci] e
    have c1: "currentCollection api' net L ?cid (submitted s1)" by simp
    define s2 where "s2 = console_log
                    [Log (''Collection '' @ toString (Num col) @ '' created with id: ''
                          @ toString ?cid)] s1"
    have s2: "signAndSend_answer s2 = signAndSend_answer net" "submitted s2 = submitted s1"
      by (simp_all add: s2_def console_log_def a1)
    let ?J = "\<lambda>st. signAndSend_answer st = signAndSend_answer net
       \<and> L \<le> length (submitted st)
       \<and> mintsFollowCreation api' net L (submitted st)
       \<and> currentCollection api' net L ?cid (submitted st)"
    have j2: "?J s2" using s2 i1 c1 by simp
    have step: "\<And>j st r st'. ?J st \<Longrightarrow>
        Some (mintBatch client api' acct ?cid (js_add (js_mul (Num j) inBatch) (Num 1)) inBatch st)
          = Some (r, st') \<Longrightarrow> ?J st'"
    proof -
      fix j st r st'
      assume j: "?J st"
        and b: "Some (mintBatch client api' acct ?cid (js_add (js_mul (Num j) inBatch) (Num 1)) inBatch st)
          = Some (r, st')"
      from b have b': "mintBatch client api' acct ?cid (js_add (js_mul (Num j) inBatch) (Num 1)) inBatch st
          = (r, st')" by simp
      from j have j1: "signAndSend_answer st = signAndSend_answer net"
        and j2: "L \<le> length (submitted st)"
        and j3: "mintsFollowCreation api' net L (submitted st)"
        and j4: "currentCollection api' net L ?cid (submitted st)" by simp_all
      show "?J st'" by (rule mintBatch_keeps[OF j1 j2 j3 j4 b'])
    qed
    obtain y where fl: "forLoop (\<lambda>j. js_lt (Num j) (js_floor_div perCollection inBatch))
                   (\<lambda>j s. Some (mintBatch client api' acct ?cid
                                   (js_add (js_mul (Num j) inBatch) (Num 1)) inBatch s))
                   0 s2 = Some y"
      using run unf Fulfilled unfolding s2_def
      by (cases "forLoop (\<lambda>j. js_lt (Num j) (js_floor_div perCollection inBatch))
                   (\<lambda>j s. Some (mintBatch client api' acct ?cid
                                   (js_add (js_mul (Num j) inBatch) (Num 1)) inBatch s))
                   0 (console_log
                    [Log (''Collection '' @ toString (Num col) @ '' created with id: ''
                          @ toString ?cid)] s1)") simp_all
    have j3: "?J (snd y)"
      by (rule forLoop_invariant[where I = ?J, OF fl step j2])
    obtain r3 s3 where y: "y = (r3, s3)" by (cases y)
    with j3 have j3': "?J s3" by simp
    show ?thesis
    proof (cases r3)
      case (Rejected e)
      with run unf Fulfilled fl y have "s' = s3" by (simp add: s2_def)
      with j3' show ?thesis by simp
    next
      case Pending
      with run unf Fulfilled fl y have "s' = s3" by (simp add: s2_def)
      with j3' show ?thesis by simp
    next
      case (Fulfilled u)
      show ?thesis
      proof (cases "js_gt (js_rem perCollection inBatch) (Num 0)")
        case False
        with run unf \<open>r1 = Fulfilled ev\<close> fl y Fulfilled have "s' = s3" by (simp add: s2_def)
        with j3' show ?thesis by simp
      next
        case True
        with run unf \<open>r1 = Fulfilled ev\<close> fl y Fulfilled
        have b': "mintBatch client api' acct ?cid
                   (js_add (js_mul (js_floor_div perCollection inBatch) inBatch) (Num 1))
                   (js_rem perCollection inBatch) s3 = (r, s')"
          by (simp add: s2_def)
        from j3' have k1: "signAndSend_answer s3 = signAndSend_answer net"
          and k2: "L \<le> length (submitted s3)"
          and k3: "mintsFollowCreation api' net L (submitted s3)"
          and k4: "currentCollection api' net L ?cid (submitted s3)" by simp_all
        from mintBatch_keeps[OF k1 k2 k3 k4 b'] show ?thesis by simp
      qed
    qed
  qed
qed

lemma mfc_start: "mintsFollowCreation api' net (length log) log"
  unfolding mintsFollowCreation_def by auto

lemma main_cases:
  assumes "main lib e net = Some (p, net')"
  shows "submitted net' = submitted net
       \<or> (\<exists>api' acct y.
             ApiPromise_create lib (ENDPOINT e) = Fulfilled api'
           \<and> forLoop (\<lambda>collection. js_le (Num collection) (COLLECTION_COUNT lib e))
                (collectionRound \<lparr>client_api = api'\<rparr> api' acct
                   (TOKEN_COUNT_PER_COLLECTION lib e) (TOKEN_COUNT_IN_BATCH lib e))
                1 (console_log [Log (''Connecting to '' @ ENDPOINT e)] net) = Some y
           \<and> submitted net' = submitted (snd y))"
proof (cases "cryptoWaitReady lib")
  case (Rejected x)
  with assms show ?thesis by (auto simp: main_def)
next
  case Pending
  with assms show ?thesis by (auto simp: main_def)
next
  case (Fulfilled u)
  note ready = this
  show ?thesis
  proof (cases "ApiPromise_create lib (ENDPOINT e)")
    case (Rejected x)
    with assms ready show ?thesis by (auto simp: main_def Let_def console_log_def)
  next
    case Pending
    with assms ready show ?thesis by (auto simp: main_def Let_def console_log_def)
  next
    case (Fulfilled api')
    note conn = this
    show ?thesis
    proof (cases "falsy (ss58Format api')")
      case True
      with assms ready conn show ?thesis by (auto simp: main_def Let_def console_log_def)
    next
      case False
      note fmt = this
      show ?thesis
      proof (cases "keyring_addFromUri lib (the (ss58Format api')) (BOT_KEY e)")
        case (Inl err)
        with assms ready conn fmt show ?thesis by (auto simp: main_def Let_def console_log_def)
      next
        case (Inr acct)
        let ?loop = "forLoop (\<lambda>collection. js_le (Num collection) (COLLECTION_COUNT lib e))
                (collectionRound \<lparr>client_api = api'\<rparr> api' acct
                   (TOKEN_COUNT_PER_COLLECTION lib e) (TOKEN_COUNT_IN_BATCH lib e))
                1 (console_log [Log (''Connecting to '' @ ENDPOINT e)] net)"
        have m: "main lib e net =
           (case ?loop of
              None \<Rightarrow> None
            | Some (Rejected err, net1) \<Rightarrow> Some (Unhandled err, net1)
            | Some (Pending, net1) \<Rightarrow> Some (Hang, net1)
            | Some (Fulfilled u, net1) \<Rightarrow>
                Some (Exit 0, console_log [Log ''Minting completed. Exiting script.''] net1))"
          unfolding main_def Let_def using ready conn fmt Inr by simp
        from assms m obtain y where y: "?loop = Some y" by (cases ?loop) simp_all
        obtain r1 s1 where rs: "y = (r1, s1)" by (cases y)
        have "submitted net' = submitted s1"
          using assms m y rs by (cases r1) (auto simp: console_log_def)
        with conn y rs show ?thesis by auto
      qed
    qed
  qed
qed

text \<open>
  Claim C8. Take any run of the script that comes to an end, whether the process
  exits, the promise of \<^verbatim>\<open>main\<close> is rejected or it waits for ever for an answer, on
  any chain and with any configuration. Among the submissions of the run, every
  batch mint comes after the creation of a collection whose inclusion held a
  collection-created event with the identifier that the batch carries, and only
  batch mints lie between that creation and the batch. The payload of a batch is
  built in the call of \<^verbatim>\<open>mintBatch\<close> that submits it.
\<close>

theorem mints_follow_creation:
  assumes run: "main_ts lib e net = Some (p, net')"
    and connected: "ApiPromise_create lib (ENDPOINT e) = Fulfilled api'"
  shows "mintsFollowCreation api' net (length (submitted net)) (submitted net')
       \<and> length (submitted net) \<le> length (submitted net')"
proof -
  let ?L = "length (submitted net)"
  have "submitted net' = submitted net \<or> main lib e net = Some (p, net')"
    using run by (auto simp: main_ts_def console_log_def split: if_splits)
  then show ?thesis
  proof
    assume "submitted net' = submitted net"
    then show ?thesis by (simp add: mfc_start)
  next
    assume "main lib e net = Some (p, net')"
    from main_cases[OF this] show ?thesis
    proof
      assume "submitted net' = submitted net"
      then show ?thesis by (simp add: mfc_start)
    next
      assume "\<exists>api' acct y.
             ApiPromise_create lib (ENDPOINT e) = Fulfilled api'
           \<and> forLoop (\<lambda>collection. js_le (Num collection) (COLLECTION_COUNT lib e))
                (collectionRound \<lparr>client_api = api'\<rparr> api' acct
                   (TOKEN_COUNT_PER_COLLECTION lib e) (TOKEN_COUNT_IN_BATCH lib e))
                1 (console_log [Log (''Connecting to '' @ ENDPOINT e)] net) = Some y
           \<and> submitted net' = submitted (snd y)"
      then obtain api'' acct y where
        c: "ApiPromise_create lib (ENDPOINT e) = Fulfilled api''"
        and fl: "forLoop (\<lambda>collection. js_le (Num collection) (COLLECTION_COUNT lib e))
                (collectionRound \<lparr>client_api = api''\<rparr> api'' acct
                   (TOKEN_COUNT_PER_COLLECTION lib e) (TOKEN_COUNT_IN_BATCH lib e))
                1 (console_log [Log (''Connecting to '' @ ENDPOINT e)] net) = Some y"
        and s: "submitted net' = submitted (snd y)"
        by blast
      from c connected have eq: "api'' = api'" by simp
      let ?I = "\<lambda>st. signAndSend_answer st = signAndSend_answer net
         \<and> ?L \<le> length (submitted st)
         \<and> mintsFollowCreation api' net ?L (submitted st)"
      have i0: "?I (console_log [Log (''Connecting to '' @ ENDPOINT e)] net)"
        by (simp add: console_log_def mfc_start)
      have step: "\<And>j st r st'. ?I st \<Longrightarrow>
          collectionRound \<lparr>client_api = api'\<rparr> api' acct
             (TOKEN_COUNT_PER_COLLECTION lib e) (TOKEN_COUNT_IN_BATCH lib e) j st = Some (r, st')
          \<Longrightarrow> ?I st'"
      proof -
        fix j st r st'
        assume i: "?I st"
          and b: "collectionRound \<lparr>client_api = api'\<rparr> api' acct
             (TOKEN_COUNT_PER_COLLECTION lib e) (TOKEN_COUNT_IN_BATCH lib e) j st = Some (r, st')"
        from i have i1: "signAndSend_answer st = signAndSend_answer net"
          and i2: "?L \<le> length (submitted st)"
          and i3: "mintsFollowCreation api' net ?L (submitted st)" by simp_all
        show "?I st'" by (rule collectionRound_keeps[OF i1 i2 i3 b])
      qed
      have "?I (snd y)"
        by (rule forLoop_invariant[where I = ?I, OF fl[unfolded eq] step i0])
      with s show ?thesis by simp
    qed
  qed
qed

lemmas run_defs = main_ts_def main_def collectionRound_def forLoop.simps mintBatch_def
  mintedMessage_def mintErrorMessage_def
  signAndSendReturningEvent_def signAndSend_def signAndSendOnce_def getHeader_def
  getEventFromEventsOrThrow_def getEventFromEvents_def Number_data0_def
  TOKEN_COUNT_IN_BATCH_def TOKEN_COUNT_PER_COLLECTION_def COLLECTION_COUNT_def
  parsedOr_def truthy_def BOT_KEY_def ENDPOINT_def falsy_def
  js_gt_def console_log_def arrayLength_def batchMint_def
  fixMintCreateToken_def createCollection_def lastTokenId_def signed_inf_def
  digits.simps Let_def

text \<open>
  The theorem at a run for one collection of two tokens in batches of one: the
  creation yields collection 42, and two batch mints for collection 42 follow.
\<close>

theorem mints_follow_creation_witness:
  "\<exists>p net'. main_ts sampleLibrary (sampleEnv (Some ''//Alice'') (Some ''2'') (Some ''1''))
               (chain allIncluded) = Some (p, net')
     \<and> map sub_tx (submitted net') =
         [Tx_createCollection
            \<lparr>policy_mint = \<lparr>maxTokenCount = Some (Num 2), maxTokenSupply = Some (Num 1),
                            forceSingleMint = False\<rparr>,
             policy_market_royalty = None, explicitRoyaltyCurrencies = []\<rparr>,
          Tx_batchMint (Num 42) (batchPayload alice (Num 42) (Num 1) 1),
          Tx_batchMint (Num 42) (batchPayload alice (Num 42) (Num 2) 1)]
     \<and> createdId sampleApi (chain allIncluded) 0 = Some (Num 42)
     \<and> mintsFollowCreation sampleApi (chain allIncluded) 0 (submitted net')"
proof -
  let ?run = "main_ts sampleLibrary (sampleEnv (Some ''//Alice'') (Some ''2'') (Some ''1''))
               (chain allIncluded)"
  have log: "map_option (map sub_tx \<circ> submitted \<circ> snd) ?run =
      Some [Tx_createCollection
            \<lparr>policy_mint = \<lparr>maxTokenCount = Some (Num 2), maxTokenSupply = Some (Num 1),
                            forceSingleMint = False\<rparr>,
             policy_market_royalty = None, explicitRoyaltyCurrencies = []\<rparr>,
          Tx_batchMint (Num 42) (batchPayload alice (Num 42) (Num 1) 1),
          Tx_batchMint (Num 42) (batchPayload alice (Num 42) (Num 2) 1)]"
    by (simp add: run_defs batchPayload_def allIncluded_def sample_defs ex_defs)
  then obtain p net' where run: "?run = Some (p, net')"
    by (cases ?run) auto
  have conn: "ApiPromise_create sampleLibrary
                (ENDPOINT (sampleEnv (Some ''//Alice'') (Some ''2'') (Some ''1''))) = Fulfilled sampleApi"
    by (simp add: sampleLibrary_def)
  have l0: "length (submitted (chain allIncluded)) = 0" by (simp add: chain_def)
  have cid: "createdId sampleApi (chain allIncluded) 0 = Some (Num 42)"
    by (simp add: createdId_def outcomeOf_def chain_def allIncluded_def statusReady_def
          statusInBlock_def getEventFromEvents_def sampleApi_def CollectionCreated_def
          created42_def withdrawn_def Number_data0_def)
  from mints_follow_creation[OF run conn]
  have m: "mintsFollowCreation sampleApi (chain allIncluded) 0 (submitted net')"
    unfolding l0 by simp
  from log run have txs: "map sub_tx (submitted net') =
         [Tx_createCollection
            \<lparr>policy_mint = \<lparr>maxTokenCount = Some (Num 2), maxTokenSupply = Some (Num 1),
                            forceSingleMint = False\<rparr>,
             policy_market_royalty = None, explicitRoyaltyCurrencies = []\<rparr>,
          Tx_batchMint (Num 42) (batchPayload alice (Num 42) (Num 1) 1),
          Tx_batchMint (Num 42) (batchPayload alice (Num 42) (Num 2) 1)]"
    by simp
  show ?thesis
    by (intro exI[of _ p] exI[of _ net'] conjI) (rule run, rule txs, rule cid, rule m)
qed

end
